(* ===== verification/Prelude.thy ===== *)
theory Prelude
  imports "HOL-Library.Word" "HOL-Library.Signed_Division"
begin

text \<open>
  Shared vocabulary of the development.

  \<^item> Names for the C integer types of \<^verbatim>\<open>include/common.h\<close>.
  \<^item> The ways a run of the emulator ends early (\<open>fault\<close>) and the effect type
    \<open>('s, 'a) op\<close>: an operation reads and writes the global variables it owns (a
    record \<open>'s\<close>) and either returns a value or stops with a fault. The state at the
    moment of the fault is kept, since the program prints before it dies.
  \<^item> The weakest-precondition transformer \<open>wp\<close> with one equation per combinator;
    the collection \<open>wp_simps\<close> holds them all, so a proof about an operation is one
    simplification followed by arithmetic.
  \<^item> The conversions of \<^verbatim>\<open>printf\<close> that the program uses.
\<close>

unbundle bit_operations_syntax

section \<open>Integer types\<close>

type_synonym u8 = "8 word"
type_synonym u16 = "16 word"
type_synonym u32 = "32 word"
type_synonym u64 = "64 word"
type_synonym bytes = "nat \<Rightarrow> u8"

section \<open>Faults and operations\<close>

text \<open>
  \<open>Ub\<close> is an execution that leaves the C language (on the host: a segmentation fault, a
  \<^verbatim>\<open>SIGFPE\<close>, or silent corruption), with its cause. \<open>Cpu_assert\<close>, \<open>Assert_abort\<close> are a
  failing \<^verbatim>\<open>CPUAssert\<close>, and a failing \<^verbatim>\<open>Assert\<close> or \<^verbatim>\<open>assert\<close>
  (\<^verbatim>\<open>include/debug.h\<close>). \<open>Cpu_assert\<close> is the moment at which the condition of a \<^verbatim>\<open>CPUAssert\<close> fails:
  what the macro then does, a report that reads memory and can fail again or never end, is
  \<open>cpu_assert_report\<close> of theory \<open>Run\<close>, and \<open>reported\<close> there adds it to an operation. \<open>Exit\<close> is \<^verbatim>\<open>exit(n)\<close>; \<open>Diverged\<close> is a loop that never ends.
\<close>

datatype ub =
    Out_of_bounds
  | Null_pointer
  | Division_by_zero
  | Division_overflow
  | Shift_range
  | Int_overflow

datatype fault =
    Cpu_assert
  | Assert_abort
  | Exit int
  | Diverged
  | Ub ub

type_synonym ('s, 'a) op = "'s \<Rightarrow> (fault + 'a) \<times> 's"

named_theorems op_simps \<open>pointwise equations of the operation combinators\<close>
named_theorems wp_simps \<open>weakest preconditions of the operation combinators\<close>

definition ok :: "'a \<Rightarrow> ('s, 'a) op" where
  "ok a s = (Inr a, s)"

definition raise :: "fault \<Rightarrow> ('s, 'a) op" where
  "raise e s = (Inl e, s)"

definition bind_op :: "('s, 'a) op \<Rightarrow> ('a \<Rightarrow> ('s, 'b) op) \<Rightarrow> ('s, 'b) op" where
  "bind_op m f s = (case m s of (Inl e, t) \<Rightarrow> (Inl e, t) | (Inr a, t) \<Rightarrow> f a t)"

definition seq_op :: "('s, unit) op \<Rightarrow> ('s, 'b) op \<Rightarrow> ('s, 'b) op" where
  "seq_op m n = bind_op m (\<lambda>_. n)"

definition gets_op :: "('s \<Rightarrow> 'a) \<Rightarrow> ('s, 'a) op" where
  "gets_op f s = (Inr (f s), s)"

definition mod_op :: "('s \<Rightarrow> 's) \<Rightarrow> ('s, unit) op" where
  "mod_op f s = (Inr (), f s)"

definition check_op :: "fault \<Rightarrow> bool \<Rightarrow> ('s, unit) op" where
  "check_op e b = (if b then ok () else raise e)"

definition lift_op :: "fault + 'a \<Rightarrow> ('s, 'a) op" where
  "lift_op r s = (r, s)"

text \<open>
  \<open>zoom g p m\<close> runs \<open>m\<close>, an operation on the variables of one component, inside a state
  that holds them: \<open>g\<close> reads the component and \<open>p\<close> puts it back.
\<close>

definition zoom :: "('s \<Rightarrow> 'c) \<Rightarrow> ('c \<Rightarrow> 's \<Rightarrow> 's) \<Rightarrow> ('c, 'a) op \<Rightarrow> ('s, 'a) op" where
  "zoom g p m s = (case m (g s) of (r, c) \<Rightarrow> (r, p c s))"

text \<open>A counting loop: the body for each element in turn, stopping at the first fault.\<close>

primrec for_op :: "'x list \<Rightarrow> ('x \<Rightarrow> ('s, unit) op) \<Rightarrow> ('s, unit) op" where
  "for_op [] f = ok ()"
| "for_op (x # xs) f = seq_op (f x) (for_op xs f)"

lemma ok_run [op_simps]: "ok a s = (Inr a, s)"
  by (simp add: ok_def)

lemma raise_run [op_simps]: "raise e s = (Inl e, s)"
  by (simp add: raise_def)

lemma bind_run [op_simps]:
  "bind_op m f s = (case m s of (Inl e, t) \<Rightarrow> (Inl e, t) | (Inr a, t) \<Rightarrow> f a t)"
  by (simp add: bind_op_def)

lemma seq_run [op_simps]:
  "seq_op m n s = (case m s of (Inl e, t) \<Rightarrow> (Inl e, t) | (Inr _, t) \<Rightarrow> n t)"
  by (simp add: seq_op_def bind_op_def)

lemma gets_run [op_simps]: "gets_op f s = (Inr (f s), s)"
  by (simp add: gets_op_def)

lemma mod_run [op_simps]: "mod_op f s = (Inr (), f s)"
  by (simp add: mod_op_def)

lemma check_run [op_simps]: "check_op e b s = (if b then (Inr (), s) else (Inl e, s))"
  by (simp add: check_op_def ok_def raise_def)

lemma lift_run [op_simps]: "lift_op r s = (r, s)"
  by (simp add: lift_op_def)

lemma zoom_run [op_simps]: "zoom g p m s = (fst (m (g s)), p (snd (m (g s))) s)"
  by (simp add: zoom_def split_def)

lemma bind_ok [simp]: "bind_op (ok a) f = f a"
  by (rule ext) (simp add: op_simps)

lemma bind_raise [simp]: "bind_op (raise e) f = raise e"
  by (rule ext) (simp add: op_simps)

lemma bind_assoc [simp]: "bind_op (bind_op m f) g = bind_op m (\<lambda>x. bind_op (f x) g)"
  by (rule ext) (simp add: op_simps split: prod.splits sum.splits)

lemma seq_ok [simp]: "seq_op (ok ()) n = n"
  by (simp add: seq_op_def)

section \<open>Weakest preconditions\<close>

text \<open>
  \<open>wp m Q E s\<close>: started in \<open>s\<close>, a normal return of \<open>m\<close> with value \<open>a\<close> in state \<open>t\<close>
  satisfies \<open>Q a t\<close>, and a fault \<open>e\<close> in state \<open>t\<close> satisfies \<open>E e t\<close>.
\<close>

definition wp ::
  "('s, 'a) op \<Rightarrow> ('a \<Rightarrow> 's \<Rightarrow> bool) \<Rightarrow> (fault \<Rightarrow> 's \<Rightarrow> bool) \<Rightarrow> 's \<Rightarrow> bool" where
  "wp m Q E s = (case m s of (Inl e, t) \<Rightarrow> E e t | (Inr a, t) \<Rightarrow> Q a t)"

lemma wp_ok [wp_simps]: "wp (ok a) Q E s = Q a s"
  by (simp add: wp_def ok_def)

lemma wp_raise [wp_simps]: "wp (raise e) Q E s = E e s"
  by (simp add: wp_def raise_def)

lemma wp_bind [wp_simps]: "wp (bind_op m f) Q E s = wp m (\<lambda>a. wp (f a) Q E) E s"
  by (simp add: wp_def bind_op_def split: prod.splits sum.splits)

lemma wp_seq [wp_simps]: "wp (seq_op m n) Q E s = wp m (\<lambda>_. wp n Q E) E s"
  by (simp add: seq_op_def wp_bind)

lemma wp_gets [wp_simps]: "wp (gets_op f) Q E s = Q (f s) s"
  by (simp add: wp_def gets_op_def)

lemma wp_mod [wp_simps]: "wp (mod_op f) Q E s = Q () (f s)"
  by (simp add: wp_def mod_op_def)

lemma wp_check [wp_simps]:
  "wp (check_op e b) Q E s \<longleftrightarrow> (b \<longrightarrow> Q () s) \<and> (\<not> b \<longrightarrow> E e s)"
  by (simp add: check_op_def wp_ok wp_raise)

lemma wp_lift [wp_simps]:
  "wp (lift_op r) Q E s = (case r of Inl e \<Rightarrow> E e s | Inr a \<Rightarrow> Q a s)"
  by (simp add: wp_def lift_op_def)

lemma wp_zoom [wp_simps]:
  "wp (zoom g p m) Q E s = wp m (\<lambda>a c. Q a (p c s)) (\<lambda>e c. E e (p c s)) (g s)"
  by (simp add: wp_def zoom_def split: prod.splits sum.splits)

lemma wp_if [wp_simps]:
  "wp (if b then m else n) Q E s \<longleftrightarrow> (b \<longrightarrow> wp m Q E s) \<and> (\<not> b \<longrightarrow> wp n Q E s)"
  by simp

lemma wp_mono:
  assumes "wp m Q E s"
    and "\<And>a t. Q a t \<Longrightarrow> Q' a t"
    and "\<And>e t. E e t \<Longrightarrow> E' e t"
  shows "wp m Q' E' s"
  using assms by (auto simp: wp_def split: prod.splits sum.splits)

lemma wp_conj:
  "wp m (\<lambda>a t. Q a t \<and> Q' a t) (\<lambda>e t. E e t \<and> E' e t) s
    \<longleftrightarrow> wp m Q E s \<and> wp m Q' E' s"
  by (auto simp: wp_def split: prod.splits sum.splits)

lemma wp_runD: "wp m Q E s \<Longrightarrow> m s = (Inr a, t) \<Longrightarrow> Q a t"
  by (simp add: wp_def)

lemma wp_faultD: "wp m Q E s \<Longrightarrow> m s = (Inl e, t) \<Longrightarrow> E e t"
  by (simp add: wp_def)

lemma wp_run_iff: "m s = (Inr a, t) \<Longrightarrow> wp m Q E s = Q a t"
  by (simp add: wp_def)

text \<open>Reading a weakest precondition as a result.\<close>

lemma wp_result:
  assumes "wp m Q E s"
  shows "(\<exists>a t. m s = (Inr a, t) \<and> Q a t) \<or> (\<exists>e t. m s = (Inl e, t) \<and> E e t)"
  using assms by (auto simp: wp_def split: prod.splits sum.splits)

text \<open>The loop rule: an invariant indexed by the elements already visited.\<close>

lemma wp_for_prefix:
  assumes "I ys s"
    and "\<And>zs x t. I zs t \<Longrightarrow> x \<in> set xs \<Longrightarrow> wp (f x) (\<lambda>_ u. I (zs @ [x]) u) E t"
  shows "wp (for_op xs f) (\<lambda>_ t. I (ys @ xs) t) E s"
  using assms
proof (induction xs arbitrary: ys s)
  case Nil
  then show ?case by (simp add: wp_simps)
next
  case (Cons x xs)
  from Cons.prems have "wp (f x) (\<lambda>_ u. I (ys @ [x]) u) E s" by simp
  moreover have "wp (for_op xs f) (\<lambda>_ t. I ((ys @ [x]) @ xs) t) E u" if "I (ys @ [x]) u" for u
    using that Cons.prems(2) by (intro Cons.IH) auto
  ultimately show ?case
    by (auto simp: wp_simps elim: wp_mono)
qed

text \<open>A property kept by every step of an operation, whether it returns or stops.\<close>

definition keeps :: "('s \<Rightarrow> bool) \<Rightarrow> ('s, 'a) op \<Rightarrow> bool" where
  "keeps I m \<longleftrightarrow> (\<forall>s. I s \<longrightarrow> I (snd (m s)))"

named_theorems keeps_rules \<open>how invariants pass through the operation combinators\<close>

lemma keeps_wp: "keeps I m \<longleftrightarrow> (\<forall>s. I s \<longrightarrow> wp m (\<lambda>_. I) (\<lambda>_. I) s)"
  by (auto simp: keeps_def wp_def split_def split: sum.splits)

lemma keepsI: "(\<And>s. I s \<Longrightarrow> wp m (\<lambda>_. I) (\<lambda>_. I) s) \<Longrightarrow> keeps I m"
  by (simp add: keeps_wp)

lemma keepsD: "keeps I m \<Longrightarrow> I s \<Longrightarrow> m s = (r, t) \<Longrightarrow> I t"
  by (metis keeps_def snd_conv)

lemma keeps_ok [keeps_rules]: "keeps I (ok a)"
  by (simp add: keeps_def ok_def)

lemma keeps_raise [keeps_rules]: "keeps I (raise e)"
  by (simp add: keeps_def raise_def)

lemma keeps_gets [keeps_rules]: "keeps I (gets_op f)"
  by (simp add: keeps_def gets_op_def)

lemma keeps_check [keeps_rules]: "keeps I (check_op e b)"
  by (simp add: keeps_def check_op_def ok_def raise_def)

lemma keeps_lift [keeps_rules]: "keeps I (lift_op r)"
  by (simp add: keeps_def lift_op_def)

lemma keeps_mod [keeps_rules]: "(\<And>s. I s \<Longrightarrow> I (f s)) \<Longrightarrow> keeps I (mod_op f)"
  by (simp add: keeps_def mod_op_def)

lemma keeps_bind [keeps_rules]:
  "keeps I m \<Longrightarrow> (\<And>a. keeps I (f a)) \<Longrightarrow> keeps I (bind_op m f)"
  unfolding keeps_wp wp_simps by (blast intro: wp_mono)

lemma keeps_seq [keeps_rules]: "keeps I m \<Longrightarrow> keeps I n \<Longrightarrow> keeps I (seq_op m n)"
  by (auto simp: seq_op_def intro: keeps_bind)

lemma keeps_if [keeps_rules]:
  "(b \<Longrightarrow> keeps I m) \<Longrightarrow> (\<not> b \<Longrightarrow> keeps I n) \<Longrightarrow> keeps I (if b then m else n)"
  by simp

lemma keeps_for [keeps_rules]: "(\<And>x. x \<in> set xs \<Longrightarrow> keeps I (f x)) \<Longrightarrow> keeps I (for_op xs f)"
  by (induction xs) (auto intro: keeps_ok keeps_seq)

lemma keeps_zoom:
  "(\<And>s. I s \<Longrightarrow> wp m (\<lambda>_ c. I (p c s)) (\<lambda>_ c. I (p c s)) (g s)) \<Longrightarrow> keeps I (zoom g p m)"
  by (simp add: keeps_wp wp_zoom)

lemma keeps_conj: "keeps I m \<Longrightarrow> keeps J m \<Longrightarrow> keeps (\<lambda>s. I s \<and> J s) m"
  by (simp add: keeps_def)

section \<open>Formatting\<close>

text \<open>
  The conversions \<^verbatim>\<open>%x\<close>, \<^verbatim>\<open>%08x\<close>, \<^verbatim>\<open>%8x\<close>, \<^verbatim>\<open>%02x\<close> and \<^verbatim>\<open>%d\<close>.
\<close>

definition hex_digit :: "nat \<Rightarrow> char" where
  "hex_digit n = ''0123456789abcdef'' ! n"

fun hex_nat :: "nat \<Rightarrow> string" where
  "hex_nat n = (if n < 16 then [hex_digit n] else hex_nat (n div 16) @ [hex_digit (n mod 16)])"

fun dec_nat :: "nat \<Rightarrow> string" where
  "dec_nat n = (if n < 10 then [hex_digit n] else dec_nat (n div 10) @ [hex_digit (n mod 10)])"

declare hex_nat.simps [simp del] dec_nat.simps [simp del]

definition pad_left :: "char \<Rightarrow> nat \<Rightarrow> string \<Rightarrow> string" where
  "pad_left c w s = replicate (w - length s) c @ s"

definition fmt_x :: "u32 \<Rightarrow> string" where
  "fmt_x w = hex_nat (unat w)"

definition fmt_08x :: "u32 \<Rightarrow> string" where
  "fmt_08x w = pad_left (CHR ''0'') 8 (hex_nat (unat w))"

definition fmt_8x :: "u32 \<Rightarrow> string" where
  "fmt_8x w = pad_left (CHR '' '') 8 (hex_nat (unat w))"

definition fmt_02x :: "u8 \<Rightarrow> string" where
  "fmt_02x b = pad_left (CHR ''0'') 2 (hex_nat (unat b))"

definition fmt_d :: "int \<Rightarrow> string" where
  "fmt_d i = (if i < 0 then CHR ''-'' # dec_nat (nat (- i)) else dec_nat (nat i))"

abbreviation tab :: string where "tab \<equiv> [CHR 0x09]"
abbreviation newline :: string where "newline \<equiv> [CHR 0x0A]"
abbreviation nul :: char where "nul \<equiv> CHR 0x00"

lemma hex_nat_length: "n < 16 ^ Suc k \<Longrightarrow> length (hex_nat n) \<le> Suc k"
proof (induction k arbitrary: n)
  case 0
  then show ?case by (simp add: hex_nat.simps)
next
  case (Suc k)
  then have "n div 16 < 16 ^ Suc k" by (simp add: less_mult_imp_div_less)
  with Suc.IH have "length (hex_nat (n div 16)) \<le> Suc k" by blast
  then show ?case by (simp add: hex_nat.simps [of n])
qed

lemma dec_nat_length: "n < 10 ^ Suc k \<Longrightarrow> length (dec_nat n) \<le> Suc k"
proof (induction k arbitrary: n)
  case 0
  then show ?case by (simp add: dec_nat.simps)
next
  case (Suc k)
  then have "n div 10 < 10 ^ Suc k" by (simp add: less_mult_imp_div_less)
  with Suc.IH have "length (dec_nat (n div 10)) \<le> Suc k" by blast
  then show ?case by (simp add: dec_nat.simps [of n])
qed

text \<open>A text of bounded length without a zero byte: what the tracer can hold.\<close>

definition short_text :: "nat \<Rightarrow> string \<Rightarrow> bool" where
  "short_text k msg \<longleftrightarrow> length msg \<le> k \<and> nul \<notin> set msg"

lemma short_append: "short_text a x \<Longrightarrow> short_text b y \<Longrightarrow> a + b \<le> k \<Longrightarrow> short_text k (x @ y)"
  by (auto simp: short_text_def)

lemma hex_digit_nul: "n < 16 \<Longrightarrow> hex_digit n \<noteq> nul"
proof -
  assume "n < 16"
  then have "hex_digit n \<in> set ''0123456789abcdef''"
    unfolding hex_digit_def by (intro nth_mem) simp
  then show ?thesis by auto
qed

lemma hex_nat_nul: "nul \<notin> set (hex_nat n)"
  by (induction n rule: hex_nat.induct) (subst hex_nat.simps, auto simp: hex_digit_nul [symmetric])

lemma dec_nat_nul: "nul \<notin> set (dec_nat n)"
  by (induction n rule: dec_nat.induct) (subst dec_nat.simps, auto simp: hex_digit_nul [symmetric])

lemma unat_u32_less: "unat (w :: u32) < 16 ^ 8"
  using unsigned_less [of w, where 'a = nat] by simp

lemma short_fmt:
  "short_text 8 (fmt_x w)" "short_text 8 (fmt_08x w)" "short_text 8 (fmt_8x w)"
  using hex_nat_length [of "unat w" 7] unat_u32_less [of w] hex_nat_nul [of "unat w"]
  by (auto simp: short_text_def fmt_x_def fmt_08x_def fmt_8x_def pad_left_def)

lemma short_fmt_d: "\<bar>i\<bar> < 10 ^ 10 \<Longrightarrow> short_text 11 (fmt_d i)"
proof -
  assume "\<bar>i\<bar> < 10 ^ 10"
  then have "nat (- i) < 10 ^ Suc 9" "nat i < 10 ^ Suc 9" by auto
  then have "length (dec_nat (nat (- i))) \<le> 10" "length (dec_nat (nat i)) \<le> 10"
    using dec_nat_length [of _ 9] by fastforce+
  then show ?thesis by (simp add: short_text_def fmt_d_def dec_nat_nul)
qed

lemma short_fmt_sint: "short_text 11 (fmt_d (sint (w :: u32)))"
  using sint_ge [of w] sint_lt [of w] by (intro short_fmt_d) (simp add: abs_less_iff)

end
