(* ===== verification/Inst.thy ===== *)
theory Inst
  imports Prelude
begin

text \<open>
  The instruction word: the bit-fields of \<^verbatim>\<open>Inst\<close>
  (\<^verbatim>\<open>include/cpu/reg.h\<close>) and the immediates that
  \<^verbatim>\<open>src/cpu/exec-handlers.h\<close> assembles from them. A bit-field is the word of
  its width, and its use in an expression is the C conversion: \<open>ucast\<close> for unsigned
  fields, \<open>scast\<close> for signed ones.

  The encoders of the RISC-V manual are the reference: the lemmas say what the
  extraction makes of an encoded instruction.
\<close>

unbundle bit_operations_syntax

section \<open>Fields of an instruction\<close>

definition inst_op :: "u32 \<Rightarrow> 7 word" where "inst_op w = ucast w"
definition inst_rd :: "u32 \<Rightarrow> 5 word" where "inst_rd w = ucast (drop_bit 7 w)"
definition inst_func3 :: "u32 \<Rightarrow> 3 word" where "inst_func3 w = ucast (drop_bit 12 w)"
definition inst_rs1 :: "u32 \<Rightarrow> 5 word" where "inst_rs1 w = ucast (drop_bit 15 w)"
definition inst_rs2 :: "u32 \<Rightarrow> 5 word" where "inst_rs2 w = ucast (drop_bit 20 w)"
definition inst_func7 :: "u32 \<Rightarrow> 7 word" where "inst_func7 w = ucast (drop_bit 25 w)"

definition I_imm_11_0 :: "u32 \<Rightarrow> 12 word" where "I_imm_11_0 w = ucast (drop_bit 20 w)"
definition I_simm_11_0 :: "u32 \<Rightarrow> u32" where "I_simm_11_0 w = scast (I_imm_11_0 w)"
definition I_shamt :: "u32 \<Rightarrow> 5 word" where "I_shamt w = ucast (drop_bit 20 w)"

definition S_imm_4_0 :: "u32 \<Rightarrow> 5 word" where "S_imm_4_0 w = ucast (drop_bit 7 w)"
definition S_imm_11_5 :: "u32 \<Rightarrow> 7 word" where "S_imm_11_5 w = ucast (drop_bit 25 w)"
definition S_simm_11 :: "u32 \<Rightarrow> 1 word" where "S_simm_11 w = ucast (drop_bit 31 w)"

definition B_imm_11 :: "u32 \<Rightarrow> 1 word" where "B_imm_11 w = ucast (drop_bit 7 w)"
definition B_imm_4_1 :: "u32 \<Rightarrow> 4 word" where "B_imm_4_1 w = ucast (drop_bit 8 w)"
definition B_imm_10_5 :: "u32 \<Rightarrow> 6 word" where "B_imm_10_5 w = ucast (drop_bit 25 w)"
definition B_simm_12 :: "u32 \<Rightarrow> 1 word" where "B_simm_12 w = ucast (drop_bit 31 w)"

definition U_imm_31_12 :: "u32 \<Rightarrow> 20 word" where "U_imm_31_12 w = ucast (drop_bit 12 w)"
definition U_simm_31_12 :: "u32 \<Rightarrow> u32" where "U_simm_31_12 w = scast (U_imm_31_12 w)"

definition STORE_SIMM :: "u32 \<Rightarrow> u32" where
  "STORE_SIMM w = push_bit 0 (ucast (S_imm_4_0 w)) OR push_bit 5 (ucast (S_imm_11_5 w))
     OR push_bit 12 (ucast (S_simm_11 w))"

definition BRANCH_SIMM :: "u32 \<Rightarrow> u32" where
  "BRANCH_SIMM w = push_bit 1 (ucast (B_imm_4_1 w)) OR push_bit 5 (ucast (B_imm_10_5 w))
     OR push_bit 11 (ucast (B_imm_11 w)) OR push_bit 12 (scast (B_simm_12 w))"

lemmas field_defs = inst_op_def inst_rd_def inst_func3_def inst_rs1_def inst_rs2_def inst_func7_def
  I_imm_11_0_def I_simm_11_0_def I_shamt_def S_imm_4_0_def S_imm_11_5_def S_simm_11_def
  B_imm_11_def B_imm_4_1_def B_imm_10_5_def B_simm_12_def U_imm_31_12_def U_simm_31_12_def

section \<open>The encoders of the architecture\<close>

definition r_type :: "7 word \<Rightarrow> 5 word \<Rightarrow> 5 word \<Rightarrow> 3 word \<Rightarrow> 5 word \<Rightarrow> 7 word \<Rightarrow> u32" where
  "r_type f7 rs2 rs1 f3 rd opc = push_bit 25 (ucast f7) OR push_bit 20 (ucast rs2)
     OR push_bit 15 (ucast rs1) OR push_bit 12 (ucast f3) OR push_bit 7 (ucast rd) OR ucast opc"

definition i_type :: "12 word \<Rightarrow> 5 word \<Rightarrow> 3 word \<Rightarrow> 5 word \<Rightarrow> 7 word \<Rightarrow> u32" where
  "i_type imm rs1 f3 rd opc = push_bit 20 (ucast imm) OR push_bit 15 (ucast rs1)
     OR push_bit 12 (ucast f3) OR push_bit 7 (ucast rd) OR ucast opc"

definition s_type :: "12 word \<Rightarrow> 5 word \<Rightarrow> 5 word \<Rightarrow> 3 word \<Rightarrow> 7 word \<Rightarrow> u32" where
  "s_type imm rs2 rs1 f3 opc =
     r_type (ucast (drop_bit 5 imm)) rs2 rs1 f3 (ucast imm) opc"

text \<open>The offset of a branch is a 13-bit even number.\<close>

definition b_type :: "13 word \<Rightarrow> 5 word \<Rightarrow> 5 word \<Rightarrow> 3 word \<Rightarrow> 7 word \<Rightarrow> u32" where
  "b_type imm rs2 rs1 f3 opc =
     r_type (push_bit 6 (ucast (drop_bit 12 imm)) OR (ucast (drop_bit 5 imm) AND 0x3F)) rs2 rs1 f3
       ((ucast imm AND 0x1E) OR (ucast (drop_bit 11 imm) AND 1)) opc"

definition u_type :: "20 word \<Rightarrow> 5 word \<Rightarrow> 7 word \<Rightarrow> u32" where
  "u_type imm rd opc = push_bit 12 (ucast imm) OR push_bit 7 (ucast rd) OR ucast opc"

section \<open>Extraction of the fields\<close>

lemma r_fields [simp]:
  "inst_op (r_type f7 rs2 rs1 f3 rd opc) = opc"
  "inst_rd (r_type f7 rs2 rs1 f3 rd opc) = rd"
  "inst_func3 (r_type f7 rs2 rs1 f3 rd opc) = f3"
  "inst_rs1 (r_type f7 rs2 rs1 f3 rd opc) = rs1"
  "inst_rs2 (r_type f7 rs2 rs1 f3 rd opc) = rs2"
  "inst_func7 (r_type f7 rs2 rs1 f3 rd opc) = f7"
  by (rule bit_word_eqI, auto simp: field_defs r_type_def bit_simps dest: bit_imp_le_length)+

lemma i_fields [simp]:
  "inst_op (i_type imm rs1 f3 rd opc) = opc"
  "inst_rd (i_type imm rs1 f3 rd opc) = rd"
  "inst_func3 (i_type imm rs1 f3 rd opc) = f3"
  "inst_rs1 (i_type imm rs1 f3 rd opc) = rs1"
  "I_imm_11_0 (i_type imm rs1 f3 rd opc) = imm"
  "I_shamt (i_type imm rs1 f3 rd opc) = ucast imm"
  "inst_func7 (i_type imm rs1 f3 rd opc) = ucast (drop_bit 5 imm)"
  by (rule bit_word_eqI, auto simp: field_defs i_type_def bit_simps dest: bit_imp_le_length)+

lemma u_fields [simp]:
  "inst_op (u_type imm rd opc) = opc"
  "inst_rd (u_type imm rd opc) = rd"
  "U_imm_31_12 (u_type imm rd opc) = imm"
  by (rule bit_word_eqI, auto simp: field_defs u_type_def bit_simps dest: bit_imp_le_length)+

lemma mask_bits:
  "bit (0x3F :: 7 word) n \<longleftrightarrow> n < 6"
  "bit (0x1E :: 5 word) n \<longleftrightarrow> 0 < n \<and> n < 5"
proof -
  have "(0x3F :: 7 word) = mask 6" by (simp add: mask_eq_exp_minus_1)
  then show "bit (0x3F :: 7 word) n \<longleftrightarrow> n < 6" by (simp only: bit_mask_iff) auto
  have "(0x1E :: 5 word) = push_bit 1 (mask 4)" by (simp add: mask_eq_exp_minus_1)
  then show "bit (0x1E :: 5 word) n \<longleftrightarrow> 0 < n \<and> n < 5"
    by (simp only: bit_mask_iff bit_push_bit_iff) auto
qed

lemmas bits_only = bit_push_bit_iff bit_drop_bit_eq comp_def bit_or_iff bit_and_iff bit_unsigned_iff
  bit_signed_iff mask_bits

lemma s_fields [simp]:
  "S_imm_4_0 (s_type imm rs2 rs1 f3 opc) = ucast imm"
  "S_imm_11_5 (s_type imm rs2 rs1 f3 opc) = ucast (drop_bit 5 imm)"
  "S_simm_11 (s_type imm rs2 rs1 f3 opc) = ucast (drop_bit 11 imm)"
  by (rule bit_word_eqI, simp only: s_type_def field_defs r_type_def bits_only,
    (auto simp: bit_simps bit_1_iff dest: bit_imp_le_length)[1])+

lemma b_fields [simp]:
  "B_imm_4_1 (b_type imm rs2 rs1 f3 opc) = ucast (drop_bit 1 imm)"
  "B_imm_10_5 (b_type imm rs2 rs1 f3 opc) = ucast (drop_bit 5 imm)"
  "B_imm_11 (b_type imm rs2 rs1 f3 opc) = ucast (drop_bit 11 imm)"
  "B_simm_12 (b_type imm rs2 rs1 f3 opc) = ucast (drop_bit 12 imm)"
  by (rule bit_word_eqI, simp only: b_type_def field_defs r_type_def bits_only,
    (auto simp: bit_simps bit_1_iff dest: bit_imp_le_length)[1])+

text \<open>The fields of an instruction word determine it.\<close>

lemma r_type_fields:
  "r_type (inst_func7 w) (inst_rs2 w) (inst_rs1 w) (inst_func3 w) (inst_rd w) (inst_op w) = w"
proof (rule bit_word_eqI)
  fix k assume k: "k < LENGTH(32)"
  consider "k < 7" | "7 \<le> k" "k < 12" | "12 \<le> k" "k < 15" | "15 \<le> k" "k < 20"
    | "20 \<le> k" "k < 25" | "25 \<le> k" by linarith
  then show "bit (r_type (inst_func7 w) (inst_rs2 w) (inst_rs1 w) (inst_func3 w) (inst_rd w)
      (inst_op w)) k \<longleftrightarrow> bit w k"
    using k by cases (simp_all add: r_type_def field_defs bit_simps less_diff_conv2)
qed

lemma BRANCH_SIMM_encoded:
  assumes "even imm"
  shows "BRANCH_SIMM (b_type imm rs2 rs1 f3 opc) = scast imm"
proof (rule bit_word_eqI)
  fix k assume k: "k < LENGTH(32)"
  consider "k = 0" | "1 \<le> k" "k < 5" | "5 \<le> k" "k < 11" | "k = 11" | "12 \<le> k" by linarith
  then show "bit (BRANCH_SIMM (b_type imm rs2 rs1 f3 opc)) k \<longleftrightarrow> bit (scast imm :: u32) k"
    using assms k
    by cases (simp_all only: BRANCH_SIMM_def b_fields bits_only,
        auto simp: bit_0 dest: bit_imp_le_length)
qed

lemma STORE_SIMM_encoded:
  "STORE_SIMM (s_type imm rs2 rs1 f3 opc) = ucast imm OR push_bit 12 (ucast (drop_bit 11 imm))"
  (is "_ = ?r")
proof (rule bit_word_eqI)
  fix k assume k: "k < LENGTH(32)"
  consider "k < 5" | "5 \<le> k" "k < 11" | "k = 11" | "12 \<le> k" by linarith
  then show "bit (STORE_SIMM (s_type imm rs2 rs1 f3 opc)) k \<longleftrightarrow> bit ?r k"
    using k by cases (simp_all only: STORE_SIMM_def s_fields bits_only,
        auto simp: bit_0 dest: bit_imp_le_length)
qed

lemma func3_cases:
  fixes f :: "3 word"
  obtains "f = 0" | "f = 1" | "f = 2" | "f = 3" | "f = 4" | "f = 5" | "f = 6" | "f = 7"
proof -
  have "unat f < 2 ^ LENGTH(3)" by (rule unsigned_less)
  then have "unat f \<in> {0, 1, 2, 3, 4, 5, 6, 7}" by auto
  then have "f \<in> {0, 1, 2, 3, 4, 5, 6, 7}"
    by (auto simp: word_unat_eq_iff)
  with that show thesis by auto
qed

section \<open>The J format\<close>

text \<open>
  The fields that \<^verbatim>\<open>Inst\<close> has for the J format, and the sign bit of the B format as an
  unsigned field. No handler reads them: \<open>exec_jal\<close> takes the U-type field. They do describe
  the format: the offset of the architecture is assembled from them.
\<close>

definition B_imm_12 :: "u32 \<Rightarrow> 1 word" where "B_imm_12 w = ucast (drop_bit 31 w)"

definition J_imm_19_12 :: "u32 \<Rightarrow> 8 word" where "J_imm_19_12 w = ucast (drop_bit 12 w)"
definition J_imm_J_11 :: "u32 \<Rightarrow> 1 word" where "J_imm_J_11 w = ucast (drop_bit 20 w)"
definition J_imm_10_1 :: "u32 \<Rightarrow> 10 word" where "J_imm_10_1 w = ucast (drop_bit 21 w)"
definition J_imm_20 :: "u32 \<Rightarrow> 1 word" where "J_imm_20 w = ucast (drop_bit 31 w)"
definition J_simm_20 :: "u32 \<Rightarrow> 1 word" where "J_simm_20 w = ucast (drop_bit 31 w)"

lemmas jump_field_defs = B_imm_12_def J_imm_19_12_def J_imm_J_11_def J_imm_10_1_def J_imm_20_def
  J_simm_20_def

definition j_type :: "21 word \<Rightarrow> 5 word \<Rightarrow> 7 word \<Rightarrow> u32" where
  "j_type imm rd opc = push_bit 31 (ucast (ucast (drop_bit 20 imm) :: 1 word))
     OR push_bit 21 (ucast (ucast (drop_bit 1 imm) :: 10 word))
     OR push_bit 20 (ucast (ucast (drop_bit 11 imm) :: 1 word))
     OR push_bit 12 (ucast (ucast (drop_bit 12 imm) :: 8 word))
     OR push_bit 7 (ucast rd) OR ucast opc"

lemma j_fields [simp]:
  "inst_op (j_type imm rd opc) = opc"
  "inst_rd (j_type imm rd opc) = rd"
  "J_imm_19_12 (j_type imm rd opc) = ucast (drop_bit 12 imm)"
  "J_imm_J_11 (j_type imm rd opc) = ucast (drop_bit 11 imm)"
  "J_imm_10_1 (j_type imm rd opc) = ucast (drop_bit 1 imm)"
  "J_imm_20 (j_type imm rd opc) = ucast (drop_bit 20 imm)"
  "J_simm_20 (j_type imm rd opc) = ucast (drop_bit 20 imm)"
  by (rule bit_word_eqI, auto simp: field_defs jump_field_defs j_type_def bit_simps dest: bit_imp_le_length)+

text \<open>
  The offset that \<open>JAL\<close> means, assembled as the other formats' macros assemble theirs.
\<close>

definition jump_offset :: "u32 \<Rightarrow> u32" where
  "jump_offset w = push_bit 1 (ucast (J_imm_10_1 w)) OR push_bit 11 (ucast (J_imm_J_11 w))
     OR push_bit 12 (ucast (J_imm_19_12 w)) OR push_bit 20 (scast (J_simm_20 w))"

lemma jump_offset_encoded:
  assumes "even imm"
  shows "jump_offset (j_type imm rd opc) = scast imm"
proof (rule bit_word_eqI)
  fix k assume k: "k < LENGTH(32)"
  consider "k = 0" | "1 \<le> k" "k < 11" | "k = 11" | "12 \<le> k" "k < 20" | "20 \<le> k" by linarith
  then show "bit (jump_offset (j_type imm rd opc)) k \<longleftrightarrow> bit (scast imm :: u32) k"
    using assms k
    by cases (simp_all only: jump_offset_def j_fields bits_only,
        auto simp: bit_0 dest: bit_imp_le_length)
qed

end
