(* ===== verification/Ram.thy ===== *)
theory Ram
  imports Prelude
begin

text \<open>
  Byte arrays as memory: the inline accessors of \<^verbatim>\<open>include/device.h\<close>, the byte
  handlers of \<^verbatim>\<open>src/cpu/cpu-exec.c\<close>, and the two RAM devices
  \<^verbatim>\<open>src/dev/ddr.c\<close> and \<^verbatim>\<open>src/dev/bram.c\<close>.

  An array is a function from indices to bytes together with its size; an access that
  leaves the array is the fault \<open>Ub Out_of_bounds\<close>. The contract of a RAM device (what a
  read returns after a write) is the locale \<open>ram_device\<close>, interpreted here by both
  devices and by the video memory in its own theory.
\<close>

unbundle bit_operations_syntax

section \<open>Little-endian byte sequences\<close>

text \<open>The reference reading of memory: \<open>n\<close> bytes, least significant first.\<close>

primrec load_le :: "bytes \<Rightarrow> nat \<Rightarrow> nat \<Rightarrow> u32" where
  "load_le m a 0 = 0"
| "load_le m a (Suc n) = ucast (m a) OR push_bit 8 (load_le m (Suc a) n)"

definition store_le :: "bytes \<Rightarrow> nat \<Rightarrow> nat \<Rightarrow> u32 \<Rightarrow> bytes" where
  "store_le m a n d = (\<lambda>i. if a \<le> i \<and> i < a + n then ucast (drop_bit (8 * (i - a)) d) else m i)"

lemma bit_load_le [bit_simps]:
  "bit (load_le m a n) k \<longleftrightarrow> k < 32 \<and> k < 8 * n \<and> bit (m (a + k div 8)) (k mod 8)"
proof (induction n arbitrary: a k)
  case 0
  then show ?case by simp
next
  case (Suc n)
  show ?case
  proof (cases "k < 8")
    case True
    then show ?thesis by (auto simp: bit_simps)
  next
    case False
    then obtain j where k: "k = j + 8" by (metis add.commute le_Suc_ex not_less)
    have "bit (load_le m a (Suc n)) k \<longleftrightarrow> k < 32 \<and> bit (load_le m (Suc a) n) j"
      using k by (auto simp: bit_simps dest: bit_imp_le_length)
    moreover have "(j + 8) div 8 = Suc (j div 8)" by simp
    ultimately show ?thesis by (auto simp: Suc.IH k)
  qed
qed

lemma store_le_0 [simp]: "store_le m a 0 d = m"
  by (auto simp: store_le_def fun_eq_iff)

lemma store_le_Suc: "store_le m a (Suc n) d = (store_le m a n d)(a + n := ucast (drop_bit (8 * n) d))"
  by (auto simp: store_le_def fun_eq_iff)

lemma store_le_same: "a \<le> i \<Longrightarrow> i < a + n \<Longrightarrow> store_le m a n d i = ucast (drop_bit (8 * (i - a)) d)"
  by (simp add: store_le_def)

lemma store_le_other: "i < a \<or> a + n \<le> i \<Longrightarrow> store_le m a n d i = m i"
  by (auto simp: store_le_def)

lemma load_le_cong: "(\<And>i. a \<le> i \<Longrightarrow> i < a + n \<Longrightarrow> m i = m' i) \<Longrightarrow> load_le m a n = load_le m' a n"
  by (induction n arbitrary: a) auto

lemma load_store_same:
  assumes "n \<le> 4"
  shows "load_le (store_le m a n d) a n = take_bit (8 * n) d"
proof (rule bit_word_eqI)
  fix k assume k: "k < LENGTH(32)"
  show "bit (load_le (store_le m a n d) a n) k = bit (take_bit (8 * n) d) k"
  proof (cases "k < 8 * n")
    case True
    then have "k div 8 < n" by auto
    moreover have "8 * (k div 8) + k mod 8 = k" by simp
    ultimately show ?thesis
      using True k by (auto simp: bit_simps store_le_same)
  next
    case False
    then show ?thesis using k by (simp add: bit_simps)
  qed
qed

lemma load_store_other:
  assumes "b + k \<le> a \<or> a + n \<le> b"
  shows "load_le (store_le m a n d) b k = load_le m b k"
  using assms by (intro load_le_cong store_le_other) auto

lemma load_le_bound: "unat (load_le m a n) < 2 ^ (8 * n)" if "n \<le> 4"
proof -
  have "load_le m a n = take_bit (8 * n) (load_le m a n)"
    by (rule bit_word_eqI) (auto simp: bit_simps)
  then have "unat (load_le m a n) = take_bit (8 * n) (unat (load_le m a n))"
    by (metis unsigned_take_bit_eq)
  then show ?thesis by (metis take_bit_nat_less_exp)
qed

section \<open>The accessors of device.h and cpu-exec.c\<close>

text \<open>
  The shift count \<open>(4 - len) << 3\<close> is defined for lengths 1 to 4 only, and the load is a
  four-byte load whatever the length.
\<close>

definition read_masked_word :: "nat \<Rightarrow> bytes \<Rightarrow> u32 \<Rightarrow> u32 \<Rightarrow> fault + u32" where
  "read_masked_word sz buf addr len =
     (if sint len < 1 \<or> 4 < sint len then Inl (Ub Shift_range)
      else let mask = drop_bit (unat (push_bit 3 (4 - len))) (- 1 :: u32)
      in if sz < unat addr + 4 then Inl (Ub Out_of_bounds)
      else Inr (load_le buf (unat addr) 4 AND mask))"

text \<open>\<open>memcpy(&buf[addr], &data, len)\<close>: \<open>data\<close> has four bytes.\<close>

definition write_masked_word :: "nat \<Rightarrow> bytes \<Rightarrow> u32 \<Rightarrow> u32 \<Rightarrow> u32 \<Rightarrow> fault + bytes" where
  "write_masked_word sz buf addr len data =
     (if sint len < 0 \<or> 4 < sint len \<or> sz < unat addr + unat len then Inl (Ub Out_of_bounds)
      else Inr (store_le buf (unat addr) (unat len) data))"

text \<open>The handlers take a pointer into an array: the array, its size and an index.\<close>

definition read_handler :: "nat \<Rightarrow> bytes \<Rightarrow> nat \<Rightarrow> u32 \<Rightarrow> fault + u32" where
  "read_handler sz buf p len =
     (let b = (\<lambda>i. ucast (buf (p + i)) :: u32);
          inside = (\<lambda>n v. if sz < p + n then Inl (Ub Out_of_bounds) else Inr v)
      in if len = 1 then inside 1 (b 0)
      else if len = 2 then inside 2 (push_bit 8 (b 1) OR b 0)
      else if len = 3 then inside 3 (push_bit 16 (b 2) OR push_bit 8 (b 1) OR b 0)
      else if len = 4 then
        inside 4 (push_bit 24 (b 3) OR push_bit 16 (b 2) OR push_bit 8 (b 1) OR b 0)
      else Inl Cpu_assert)"

definition write_handler :: "nat \<Rightarrow> bytes \<Rightarrow> nat \<Rightarrow> u32 \<Rightarrow> u32 \<Rightarrow> fault + bytes" where
  "write_handler sz buf p len data =
     (let byte = (\<lambda>i. ucast (drop_bit (8 * i) data AND 0xFF) :: u8);
          inside = (\<lambda>n m. if sz < p + n then Inl (Ub Out_of_bounds) else Inr m)
      in if len = 1 then inside 1 (buf(p := ucast data))
      else if len = 2 then inside 2 (buf(p := byte 0, p + 1 := byte 1))
      else if len = 3 then inside 3 (buf(p := byte 0, p + 1 := byte 1, p + 2 := byte 2))
      else if len = 4 then
        inside 4 (buf(p := byte 0, p + 1 := byte 1, p + 2 := byte 2, p + 3 := byte 3))
      else Inl Cpu_assert)"

text \<open>The access widths that instructions use.\<close>

definition access_width :: "u32 \<Rightarrow> bool" where
  "access_width len \<longleftrightarrow> len = 1 \<or> len = 2 \<or> len = 4"

lemma access_width_cases [consumes 1, case_names byte half word]:
  "access_width len \<Longrightarrow> (len = 1 \<Longrightarrow> P) \<Longrightarrow> (len = 2 \<Longrightarrow> P) \<Longrightarrow> (len = 4 \<Longrightarrow> P) \<Longrightarrow> P"
  by (auto simp: access_width_def)

lemma access_width_simps [simp]:
  "access_width 1" "access_width 2" "access_width 4"
  by (simp_all add: access_width_def)

lemma mask_and_load:
  assumes "n \<le> 4"
  shows "load_le buf a 4 AND drop_bit (8 * (4 - n)) (- 1) = load_le buf a n"
  by (rule bit_word_eqI) (use assms in \<open>auto simp: bit_simps\<close>)

lemma read_masked_word_inside:
  assumes "access_width len" "unat addr + 4 \<le> sz"
  shows "read_masked_word sz buf addr len = Inr (load_le buf (unat addr) (unat len))"
  using assms(1)
proof (cases rule: access_width_cases)
  case byte
  with assms(2) mask_and_load [of 1 buf "unat addr"] show ?thesis
    by (simp add: read_masked_word_def)
next
  case half
  with assms(2) mask_and_load [of 2 buf "unat addr"] show ?thesis
    by (simp add: read_masked_word_def)
next
  case word
  with assms(2) mask_and_load [of 4 buf "unat addr"] show ?thesis
    by (simp add: read_masked_word_def)
qed

lemma write_masked_word_inside:
  assumes "access_width len" "unat addr + unat len \<le> sz"
  shows "write_masked_word sz buf addr len data = Inr (store_le buf (unat addr) (unat len) data)"
  using assms by (auto simp: write_masked_word_def access_width_def)

lemma load_le_widths:
  "load_le m a (Suc 0) = ucast (m a)"
  "load_le m a 2 = push_bit 8 (ucast (m (a + 1))) OR ucast (m a)"
  "load_le m a 4 = push_bit 24 (ucast (m (a + 3))) OR push_bit 16 (ucast (m (a + 2)))
     OR push_bit 8 (ucast (m (a + 1))) OR ucast (m a)"
proof -
  have one: "load_le m b (Suc 0) = ucast (m b)" for b by simp
  have two: "load_le m b 2 = push_bit 8 (ucast (m (b + 1))) OR ucast (m b)" for b
    using load_le.simps(2) [of m b "Suc 0"] by (simp add: or.commute numeral_2_eq_2)
  have three: "load_le m b 3 = push_bit 8 (load_le m (b + 1) 2) OR ucast (m b)" for b
    using load_le.simps(2) [of m b 2] by (simp add: or.commute)
  have four: "load_le m b 4 = push_bit 8 (load_le m (b + 1) 3) OR ucast (m b)" for b
    using load_le.simps(2) [of m b 3] by (simp add: or.commute)
  show "load_le m a (Suc 0) = ucast (m a)"
    and "load_le m a 2 = push_bit 8 (ucast (m (a + 1))) OR ucast (m a)"
    and "load_le m a 4 = push_bit 24 (ucast (m (a + 3))) OR push_bit 16 (ucast (m (a + 2)))
      OR push_bit 8 (ucast (m (a + 1))) OR ucast (m a)"
    by (simp_all add: one two three four push_bit_or numeral_3_eq_3 or.assoc or.commute or.left_commute)
qed

lemma four_Suc: "(4::nat) = Suc (Suc (Suc (Suc 0)))"
  by simp

lemma store_le_widths:
  "store_le m a (Suc 0) d = m(a := ucast d)"
  "store_le m a 2 d = m(a := ucast d, a + 1 := ucast (drop_bit 8 d))"
  "store_le m a 4 d = m(a := ucast d, a + 1 := ucast (drop_bit 8 d),
     a + 2 := ucast (drop_bit 16 d), a + 3 := ucast (drop_bit 24 d))"
  using store_le_Suc [of m a 0 d] store_le_Suc [of m a 1 d] store_le_Suc [of m a 2 d]
    store_le_Suc [of m a 3 d]
  by (simp_all add: numeral_2_eq_2 numeral_3_eq_3 four_Suc del: fun_upd_apply)

lemma read_handler_spec:
  assumes "access_width len"
  shows "read_handler sz buf p len =
    (if sz < p + unat len then Inl (Ub Out_of_bounds) else Inr (load_le buf p (unat len)))"
  using assms
  by (cases rule: access_width_cases)
    (simp_all add: read_handler_def Let_def load_le_widths)

lemma ucast_and_ff: "ucast (w AND 0xFF :: u32) = (ucast w :: u8)"
proof -
  have "w AND 0xFF = take_bit 8 w" by (simp add: take_bit_eq_mask mask_eq_exp_minus_1)
  then show ?thesis by (auto intro!: bit_word_eqI simp: bit_simps)
qed

lemma write_handler_spec:
  assumes "access_width len"
  shows "write_handler sz buf p len data =
    (if sz < p + unat len then Inl (Ub Out_of_bounds)
     else Inr (store_le buf p (unat len) data))"
  using assms
  by (cases rule: access_width_cases)
    (simp_all add: write_handler_def Let_def ucast_and_ff store_le_widths)

section \<open>The contract of a RAM device\<close>

text \<open>
  A range check of the form \<open>addr < SIZE && addr + len <= SIZE\<close> is computed modulo
  \<open>2\<^sup>3\<^sup>2\<close>; for the widths in use it is the mathematical range check.
\<close>

lemma range_check_iff:
  fixes addr len sz :: u32
  assumes "access_width len" "unat sz \<le> 2 ^ 31"
  shows "addr < sz \<and> addr + len \<le> sz \<longleftrightarrow> unat addr + unat len \<le> unat sz"
proof -
  have len: "0 < unat len" "unat len \<le> 4"
    using assms(1) by (auto simp: access_width_def)
  have wrap: "unat (addr + len) = unat addr + unat len" if "unat addr < unat sz"
    using that len assms(2) by (simp add: unat_word_ariths)
  show ?thesis
    using wrap len by (auto simp: word_less_nat_alt word_le_nat_alt)
qed

locale ram_device =
  fixes rd :: "u32 \<Rightarrow> u32 \<Rightarrow> ('s, u32) op"
    and wr :: "u32 \<Rightarrow> u32 \<Rightarrow> u32 \<Rightarrow> ('s, unit) op"
    and bytes_of :: "'s \<Rightarrow> bytes"
    and sz :: nat
  assumes rd_inside: "access_width n \<Longrightarrow> unat a + 4 \<le> sz \<Longrightarrow>
      rd a n s = (Inr (load_le (bytes_of s) (unat a) (unat n)), s)"
    and rd_outside: "access_width n \<Longrightarrow> sz < unat a + unat n \<Longrightarrow> rd a n s = (Inl Cpu_assert, s)"
    and wr_result: "access_width n \<Longrightarrow> unat a + unat n \<le> sz \<Longrightarrow> fst (wr a n d s) = Inr ()"
    and wr_bytes: "access_width n \<Longrightarrow> unat a + unat n \<le> sz \<Longrightarrow>
      bytes_of (snd (wr a n d s)) = store_le (bytes_of s) (unat a) (unat n) d"
    and wr_outside: "access_width n \<Longrightarrow> sz < unat a + unat n \<Longrightarrow> wr a n d s = (Inl Cpu_assert, s)"
begin

lemma wr_inside:
  assumes "access_width n" "unat a + unat n \<le> sz"
  obtains t where "wr a n d s = (Inr (), t)"
    and "bytes_of t = store_le (bytes_of s) (unat a) (unat n) d"
  using wr_result [OF assms] wr_bytes [OF assms] by (metis prod.collapse)

lemma wr_faults:
  assumes "access_width n"
  shows "wp (wr a n d) (\<lambda>_ _. True) (\<lambda>e _. e = Cpu_assert) s"
proof (cases "unat a + unat n \<le> sz")
  case True
  from wr_inside [OF assms True, of d s] show ?thesis by (metis wp_run_iff)
next
  case False
  then show ?thesis using wr_outside [OF assms] by (simp add: wp_def)
qed

lemma read_after_write:
  assumes "access_width n" "unat a + 4 \<le> sz" "wr a n d s = (Inr (), t)"
  shows "rd a n t = (Inr (take_bit (8 * unat n) d), t)"
proof -
  have "unat n \<le> 4" using assms(1) by (auto simp: access_width_def)
  then have "bytes_of t = store_le (bytes_of s) (unat a) (unat n) d"
    using wr_bytes [of n a d s] assms by simp
  with \<open>unat n \<le> 4\<close> show ?thesis
    using rd_inside [OF assms(1,2)] by (simp add: load_store_same)
qed

lemma read_elsewhere:
  assumes "access_width n" "access_width k" "unat b + 4 \<le> sz"
    and "unat b + unat k \<le> unat a \<or> unat a + unat n \<le> unat b"
    and "wr a n d s = (Inr (), t)"
  shows "fst (rd b k t) = fst (rd b k s)"
proof (cases "unat a + unat n \<le> sz")
  case True
  then have "bytes_of t = store_le (bytes_of s) (unat a) (unat n) d"
    using wr_bytes [of n a d s] assms by simp
  then show ?thesis
    using assms(4) by (simp add: rd_inside [OF assms(2,3)] load_store_other)
next
  case False
  then have "wr a n d s = (Inl Cpu_assert, s)"
    using wr_outside [OF assms(1)] by simp
  with assms(5) show ?thesis by simp
qed

end

section \<open>DDR: src/dev/ddr.c\<close>

definition DDR_BASE :: u32 where "DDR_BASE = 0x00000000"
definition DDR_SIZE :: u32 where "DDR_SIZE = 128 * 1024 * 1024"

lemma DDR_consts [simp]: "DDR_BASE = 0" "DDR_SIZE = 0x8000000"
  by (simp_all add: DDR_BASE_def DDR_SIZE_def)

record ddr_state =
  ddr :: bytes
  ddr_mapped_size :: u32

definition check_ddr :: "u32 \<Rightarrow> u32 \<Rightarrow> (ddr_state, unit) op" where
  "check_ddr addr len = check_op Cpu_assert (addr < DDR_SIZE \<and> addr + len \<le> DDR_SIZE)"

text \<open>The pointer \<open>&ddr[addr]\<close> is the index \<open>addr\<close>.\<close>

definition ddr_map :: "u32 \<Rightarrow> u32 \<Rightarrow> (ddr_state, nat) op" where
  "ddr_map addr len =
     seq_op (check_ddr addr len)
    (seq_op (mod_op (\<lambda>s. if ddr_mapped_size s \<le> addr + len
                         then s\<lparr>ddr_mapped_size := addr + len\<rparr> else s))
    (ok (unat addr)))"

definition ddr_mapped_result :: "(ddr_state, nat \<times> u32) op" where
  "ddr_mapped_result = gets_op (\<lambda>s. (0, ddr_mapped_size s))"

definition ddr_read :: "u32 \<Rightarrow> u32 \<Rightarrow> (ddr_state, u32) op" where
  "ddr_read addr len =
     seq_op (check_ddr addr len)
    (bind_op (gets_op ddr) (\<lambda>buf.
     lift_op (read_masked_word (unat DDR_SIZE) buf addr len)))"

definition ddr_write :: "u32 \<Rightarrow> u32 \<Rightarrow> u32 \<Rightarrow> (ddr_state, unit) op" where
  "ddr_write addr len data =
     seq_op (check_ddr addr len)
    (bind_op (gets_op ddr) (\<lambda>buf.
     bind_op (lift_op (write_masked_word (unat DDR_SIZE) buf addr len data)) (\<lambda>buf'.
     mod_op (\<lambda>s. s\<lparr>ddr := buf'\<rparr>))))"

lemma ddr_range_iff:
  "access_width len \<Longrightarrow> addr < 0x8000000 \<and> addr + len \<le> 0x8000000 \<longleftrightarrow> unat addr + unat len \<le> 0x8000000"
  using range_check_iff [of len "0x8000000" addr] by simp

interpretation ddr_ram: ram_device ddr_read ddr_write ddr "unat DDR_SIZE"
proof unfold_locales
  fix n a :: u32 and s
  assume n: "access_width n"
  then have le: "unat n \<le> 4" by (auto simp: access_width_def)
  note defs = ddr_read_def ddr_write_def check_ddr_def op_simps ddr_range_iff [OF n]
  show "unat a + 4 \<le> unat DDR_SIZE \<Longrightarrow> ddr_read a n s = (Inr (load_le (ddr s) (unat a) (unat n)), s)"
    using n le by (simp add: defs read_masked_word_inside)
  show "unat DDR_SIZE < unat a + unat n \<Longrightarrow> ddr_read a n s = (Inl Cpu_assert, s)"
    by (simp add: defs)
  fix d
  show "unat a + unat n \<le> unat DDR_SIZE \<Longrightarrow> fst (ddr_write a n d s) = Inr ()"
    using n by (simp add: defs write_masked_word_inside)
  show "unat a + unat n \<le> unat DDR_SIZE \<Longrightarrow>
      ddr (snd (ddr_write a n d s)) = store_le (ddr s) (unat a) (unat n) d"
    using n by (simp add: defs write_masked_word_inside)
  show "unat DDR_SIZE < unat a + unat n \<Longrightarrow> ddr_write a n d s = (Inl Cpu_assert, s)"
    by (simp add: defs)
qed

section \<open>Block RAM: src/dev/bram.c\<close>

definition BRAM_BASE :: u32 where "BRAM_BASE = 0x1fc00000"
definition BRAM_SIZE :: u32 where "BRAM_SIZE = 1024 * 1024"

lemma BRAM_consts [simp]: "BRAM_BASE = 0x1fc00000" "BRAM_SIZE = 0x100000"
  by (simp_all add: BRAM_BASE_def BRAM_SIZE_def)

record bram_state =
  bram :: bytes
  bram_mapped_size :: u32
  bram_mapped :: bool

definition check_bram :: "u32 \<Rightarrow> u32 \<Rightarrow> (bram_state, unit) op" where
  "check_bram addr len = check_op Cpu_assert (addr < BRAM_SIZE \<and> addr + len \<le> BRAM_SIZE)"

definition bram_map :: "u32 \<Rightarrow> u32 \<Rightarrow> (bram_state, nat) op" where
  "bram_map addr len =
     seq_op (check_bram addr len)
    (seq_op (mod_op (\<lambda>s. if addr = 0 then s\<lparr>bram_mapped := True\<rparr> else s))
    (seq_op (mod_op (\<lambda>s. if bram_mapped_size s \<le> addr + len
                         then s\<lparr>bram_mapped_size := addr + len\<rparr> else s))
    (ok (unat addr))))"

definition bram_mapped_result :: "(bram_state, nat \<times> u32) op" where
  "bram_mapped_result = gets_op (\<lambda>s. (0, bram_mapped_size s))"

definition bram_read :: "u32 \<Rightarrow> u32 \<Rightarrow> (bram_state, u32) op" where
  "bram_read addr len =
     seq_op (check_bram addr len)
    (bind_op (gets_op bram) (\<lambda>buf.
     lift_op (read_masked_word (unat BRAM_SIZE) buf addr len)))"

definition bram_write :: "u32 \<Rightarrow> u32 \<Rightarrow> u32 \<Rightarrow> (bram_state, unit) op" where
  "bram_write addr len data =
     seq_op (check_bram addr len)
    (bind_op (gets_op bram) (\<lambda>buf.
     bind_op (lift_op (write_masked_word (unat BRAM_SIZE) buf addr len data)) (\<lambda>buf'.
     mod_op (\<lambda>s. s\<lparr>bram := buf'\<rparr>))))"

text \<open>The four words that jump to the entry point, unless an image was mapped at 0.\<close>

definition bram_init :: "u32 \<Rightarrow> bram_state \<Rightarrow> bram_state" where
  "bram_init entry s =
     (if \<not> bram_mapped s then
        let p0 = 0x3c080000 OR drop_bit 16 entry;
            p1 = 0x25080000 OR (entry AND 0xFFFF);
            b = bram s
        in s\<lparr>bram := store_le (store_le (store_le (store_le b 0 4 p0) 4 4 p1) 8 4 0x01000008) 12 4 0\<rparr>
      else s)"

lemma bram_range_iff:
  "access_width len \<Longrightarrow> addr < 0x100000 \<and> addr + len \<le> 0x100000 \<longleftrightarrow> unat addr + unat len \<le> 0x100000"
  using range_check_iff [of len "0x100000" addr] by simp

interpretation bram_ram: ram_device bram_read bram_write bram "unat BRAM_SIZE"
proof unfold_locales
  fix n a :: u32 and s
  assume n: "access_width n"
  then have le: "unat n \<le> 4" by (auto simp: access_width_def)
  note defs = bram_read_def bram_write_def check_bram_def op_simps bram_range_iff [OF n]
  show "unat a + 4 \<le> unat BRAM_SIZE \<Longrightarrow> bram_read a n s = (Inr (load_le (bram s) (unat a) (unat n)), s)"
    using n le by (simp add: defs read_masked_word_inside)
  show "unat BRAM_SIZE < unat a + unat n \<Longrightarrow> bram_read a n s = (Inl Cpu_assert, s)"
    by (simp add: defs)
  fix d
  show "unat a + unat n \<le> unat BRAM_SIZE \<Longrightarrow> fst (bram_write a n d s) = Inr ()"
    using n by (simp add: defs write_masked_word_inside)
  show "unat a + unat n \<le> unat BRAM_SIZE \<Longrightarrow>
      bram (snd (bram_write a n d s)) = store_le (bram s) (unat a) (unat n) d"
    using n by (simp add: defs write_masked_word_inside)
  show "unat BRAM_SIZE < unat a + unat n \<Longrightarrow> bram_write a n d s = (Inl Cpu_assert, s)"
    by (simp add: defs)
qed

section \<open>The physical range of the RAM devices\<close>

definition in_ram :: "nat \<Rightarrow> nat \<Rightarrow> bool" where
  "in_ram p n \<longleftrightarrow> p + n \<le> 0x8000000 \<or> (0x1fc00000 \<le> p \<and> p + n \<le> 0x1fd00000)"

end
