(* ===== verification/Isa.thy ===== *)
theory Isa
  imports Inst Ram
begin

text \<open>
  The abstract specification of the processor: the programmer's view of the machine
  (registers, control registers, program counter, one flat byte memory), a decoder into
  a datatype of instructions, and a step function on the abstract state written with
  integer arithmetic. There are no devices, caches of state, traces or dispatch tables
  here; an access outside RAM is \<open>Outside\<close>, about which the specification says nothing.

  The specification describes the instruction set that the emulator implements, which
  is not RISC-V in every point; the deviations are listed at the decoder.
\<close>

unbundle bit_operations_syntax

section \<open>Arithmetic\<close>

datatype alu_op =
    Add | Sub | Sll | Slt | Sltu | Xor | Srl | Sra | Or | And
  | Mul | Mulh | Mulhsu | Mulhu | Div | Divu | Rem | Remu

fun alu :: "alu_op \<Rightarrow> u32 \<Rightarrow> u32 \<Rightarrow> u32" where
  "alu Add a b = word_of_int (uint a + uint b)"
| "alu Sub a b = word_of_int (uint a - uint b)"
| "alu Sll a b = word_of_int (uint a * 2 ^ (unat b mod 32))"
| "alu Srl a b = word_of_int (uint a div 2 ^ (unat b mod 32))"
| "alu Sra a b = word_of_int (sint a div 2 ^ (unat b mod 32))"
| "alu Slt a b = (if sint a < sint b then 1 else 0)"
| "alu Sltu a b = (if uint a < uint b then 1 else 0)"
| "alu Xor a b = word_of_int (uint a XOR uint b)"
| "alu Or a b = word_of_int (uint a OR uint b)"
| "alu And a b = word_of_int (uint a AND uint b)"
| "alu Mul a b = word_of_int (sint a * sint b)"
| "alu Mulh a b = word_of_int (sint a * sint b div 2 ^ 32)"
| "alu Mulhsu a b = word_of_int (sint a * uint b div 2 ^ 32)"
| "alu Mulhu a b = word_of_int (uint a * uint b div 2 ^ 32)"
| "alu Div a b = word_of_int (sint a sdiv sint b)"
| "alu Divu a b = word_of_int (uint a div uint b)"
| "alu Rem a b = word_of_int (sint a smod sint b)"
| "alu Remu a b = word_of_int (uint a mod uint b)"

declare alu.simps [simp del]

text \<open>The divisions that the host leaves undefined.\<close>

fun alu_fault :: "alu_op \<Rightarrow> u32 \<Rightarrow> u32 \<Rightarrow> ub option" where
  "alu_fault op a b =
     (if op \<in> {Div, Divu, Rem, Remu} \<and> b = 0 then Some Division_by_zero
      else if op \<in> {Div, Rem} \<and> sint a = - (2 ^ 31) \<and> sint b = - 1 then Some Division_overflow
      else None)"

declare alu_fault.simps [simp del]

datatype cond = CEQ | CLT | CGE | CLTU | CGEU

fun holds :: "cond \<Rightarrow> u32 \<Rightarrow> u32 \<Rightarrow> bool" where
  "holds CEQ a b \<longleftrightarrow> a = b"
| "holds CLT a b \<longleftrightarrow> sint a < sint b"
| "holds CGE a b \<longleftrightarrow> sint b \<le> sint a"
| "holds CLTU a b \<longleftrightarrow> uint a < uint b"
| "holds CGEU a b \<longleftrightarrow> uint b \<le> uint a"

section \<open>Instructions\<close>

datatype csr_op = CSRRW | CSRRS | CSRRC | CSRRWI | CSRRSI | CSRRCI

datatype instr =
    Op alu_op "5 word" "5 word" "5 word"
  | Op_imm alu_op "5 word" "5 word" u32
  | Load nat bool "5 word" "5 word" u32
  | Store nat "5 word" "5 word" u32
  | Branch cond "5 word" "5 word" u32
  | Jal "5 word" u32
  | Jalr "5 word" "5 word"
  | Lui "5 word" u32
  | Auipc "5 word" u32
  | Fence
  | Csr csr_op "5 word" "12 word" "5 word"
  | Ecall
  | Compressed
  | Illegal

text \<open>
  The decoder. Where it departs from the RISC-V manual: the condition of \<^verbatim>\<open>bne\<close> is
  equality; the offset of a branch is twice its immediate; \<^verbatim>\<open>jalr\<close> stands at the
  manual's opcode of \<^verbatim>\<open>jal\<close> and \<^verbatim>\<open>jal\<close> at a reserved one, with
  a U-type immediate; an immediate instruction other than a shift is legal only when the
  upper seven bits of its immediate are zero; \<^verbatim>\<open>srai\<close> is encoded by 1, not 32.
\<close>

definition major :: "u32 \<Rightarrow> nat" where
  "major w = unat (drop_bit 2 (inst_op w))"

definition decode_op :: "u32 \<Rightarrow> alu_op option" where
  "decode_op w =
     (if inst_func7 w = 0 then
        Some ([Add, Sll, Slt, Sltu, Xor, Srl, Or, And] ! unat (inst_func3 w))
      else if inst_func7 w = 1 then
        Some ([Mul, Mulh, Mulhsu, Mulhu, Div, Divu, Rem, Remu] ! unat (inst_func3 w))
      else if inst_func7 w = 32 \<and> inst_func3 w = 0 then Some Sub
      else if inst_func7 w = 32 \<and> inst_func3 w = 5 then Some Sra
      else None)"

definition decode_op_imm :: "u32 \<Rightarrow> (alu_op \<times> u32) option" where
  "decode_op_imm w =
     (if inst_func7 w = 0 then
        Some ([(Add, I_simm_11_0 w), (Sll, ucast (I_shamt w)), (Slt, I_simm_11_0 w),
               (Sltu, ucast (I_imm_11_0 w)), (Xor, I_simm_11_0 w), (Srl, ucast (I_shamt w)),
               (Or, I_simm_11_0 w), (And, I_simm_11_0 w)] ! unat (inst_func3 w))
      else if inst_func7 w = 1 \<and> inst_func3 w = 5 then Some (Sra, ucast (I_shamt w))
      else None)"

definition decode_load :: "u32 \<Rightarrow> (nat \<times> bool) option" where
  "decode_load w =
     [Some (1, True), Some (2, True), Some (4, False), None,
      Some (1, False), Some (2, False), None, None] ! unat (inst_func3 w)"

definition decode_store :: "u32 \<Rightarrow> nat option" where
  "decode_store w =
     [Some 1, Some 2, Some 4, None, None, None, None, None] ! unat (inst_func3 w)"

definition decode_cond :: "u32 \<Rightarrow> cond option" where
  "decode_cond w =
     [Some CEQ, Some CEQ, None, None, Some CLT, Some CGE, Some CLTU, Some CGEU]
       ! unat (inst_func3 w)"

definition decode_csr :: "u32 \<Rightarrow> instr" where
  "decode_csr w =
     (let i = (\<lambda>c. Csr c (inst_rd w) (I_imm_11_0 w) (inst_rs1 w))
      in [Ecall, i CSRRW, i CSRRS, i CSRRC, Illegal, i CSRRWI, i CSRRSI, i CSRRCI]
           ! unat (inst_func3 w))"

definition decode :: "u32 \<Rightarrow> instr" where
  "decode w =
     (if inst_op w AND 3 \<noteq> 3 then Compressed
      else if major w = 0 then
        (case decode_load w of None \<Rightarrow> Illegal
         | Some (n, sx) \<Rightarrow> Load n sx (inst_rd w) (inst_rs1 w) (I_simm_11_0 w))
      else if major w = 3 then Fence
      else if major w = 4 then
        (case decode_op_imm w of None \<Rightarrow> Illegal
         | Some (op, v) \<Rightarrow> Op_imm op (inst_rd w) (inst_rs1 w) v)
      else if major w = 5 then Auipc (inst_rd w) (push_bit 12 (ucast (U_imm_31_12 w)))
      else if major w = 8 then
        (case decode_store w of None \<Rightarrow> Illegal
         | Some n \<Rightarrow> Store n (inst_rs2 w) (inst_rs1 w) (STORE_SIMM w))
      else if major w = 12 then
        (case decode_op w of None \<Rightarrow> Illegal
         | Some op \<Rightarrow> Op op (inst_rd w) (inst_rs1 w) (inst_rs2 w))
      else if major w = 13 then Lui (inst_rd w) (push_bit 12 (ucast (U_imm_31_12 w)))
      else if major w = 24 then
        (case decode_cond w of None \<Rightarrow> Illegal
         | Some c \<Rightarrow> Branch c (inst_rs1 w) (inst_rs2 w) (2 * BRANCH_SIMM w))
      else if major w = 27 then Jalr (inst_rd w) (inst_rs1 w)
      else if major w = 28 then decode_csr w
      else if major w = 29 then Jal (inst_rd w) (push_bit 12 (U_simm_31_12 w))
      else Illegal)"

section \<open>Steps\<close>

record isa =
  i_gpr :: "5 word \<Rightarrow> u32"
  i_csr :: "12 word \<Rightarrow> u32"
  i_pc :: u32
  i_mem :: bytes

datatype outcome = Running isa | Ended isa | Failed fault | Outside

definition phys_addr :: "u32 \<Rightarrow> nat" where
  "phys_addr a =
     (if 0x80000000 \<le> unat a \<and> unat a < 0xC0000000 then unat a mod 0x20000000 else unat a)"

text \<open>An access of \<open>n\<close> bytes at \<open>a\<close>: the checks, then the continuation on the physical address.\<close>

definition isa_access :: "u32 \<Rightarrow> nat \<Rightarrow> (nat \<Rightarrow> outcome) \<Rightarrow> outcome" where
  "isa_access a n k =
     (if unat a mod n \<noteq> 0 \<or> unat a < 0x1000 then Failed Cpu_assert
      else if in_ram (phys_addr a) n then k (phys_addr a)
      else Outside)"

definition set_reg :: "5 word \<Rightarrow> u32 \<Rightarrow> isa \<Rightarrow> isa" where
  "set_reg r v i = i\<lparr>i_gpr := (i_gpr i)(r := v)\<rparr>"

definition load_extend :: "nat \<Rightarrow> bool \<Rightarrow> u32 \<Rightarrow> u32" where
  "load_extend n sx v = (if sx then word_of_int (signed_take_bit (8 * n - 1) (uint v)) else v)"

fun isa_csr :: "csr_op \<Rightarrow> 5 word \<Rightarrow> 12 word \<Rightarrow> 5 word \<Rightarrow> isa \<Rightarrow> isa" where
  "isa_csr CSRRW rd c rs i =
     (if i_gpr i rd = 0 then i
      else let j = set_reg rd (i_csr i c) i in j\<lparr>i_csr := (i_csr j)(c := i_gpr j rs)\<rparr>)"
| "isa_csr CSRRS rd c rs i =
     (let j = set_reg rd (i_csr i c) i in j\<lparr>i_csr := (i_csr j)(c := i_csr j c OR i_gpr j rs)\<rparr>)"
| "isa_csr CSRRC rd c rs i =
     (let j = set_reg rd (i_csr i c) i in j\<lparr>i_csr := (i_csr j)(c := i_csr j c AND NOT (i_gpr j rs))\<rparr>)"
| "isa_csr CSRRWI rd c rs i =
     (if i_gpr i rd = 0 then i
      else let j = set_reg rd (i_csr i c) i in j\<lparr>i_csr := (i_csr j)(c := ucast rs)\<rparr>)"
| "isa_csr CSRRSI rd c rs i =
     (if rs = 0 then i
      else let j = set_reg rd (i_csr i c) i in j\<lparr>i_csr := (i_csr j)(c := i_csr j c OR ucast rs)\<rparr>)"
| "isa_csr CSRRCI rd c rs i =
     (if rs = 0 then i
      else let j = set_reg rd (i_csr i c) i in j\<lparr>i_csr := (i_csr j)(c := i_csr j c AND NOT (ucast rs))\<rparr>)"

definition isa_alu :: "alu_op \<Rightarrow> 5 word \<Rightarrow> u32 \<Rightarrow> u32 \<Rightarrow> isa \<Rightarrow> outcome" where
  "isa_alu op rd a b i =
     (case alu_fault op a b of Some u \<Rightarrow> Failed (Ub u) | None \<Rightarrow> Running (set_reg rd (alu op a b) i))"

fun isa_exec :: "instr \<Rightarrow> isa \<Rightarrow> outcome" where
  "isa_exec (Op op rd r1 r2) i = isa_alu op rd (i_gpr i r1) (i_gpr i r2) i"
| "isa_exec (Op_imm op rd r1 v) i = isa_alu op rd (i_gpr i r1) v i"
| "isa_exec (Load n sx rd r1 off) i =
     isa_access (i_gpr i r1 + off) n (\<lambda>p. Running (set_reg rd (load_extend n sx (load_le (i_mem i) p n)) i))"
| "isa_exec (Store n r2 r1 off) i =
     isa_access (i_gpr i r1 + off) n (\<lambda>p. Running (i\<lparr>i_mem := store_le (i_mem i) p n (i_gpr i r2)\<rparr>))"
| "isa_exec (Branch c r1 r2 off) i =
     Running (if holds c (i_gpr i r1) (i_gpr i r2) then i\<lparr>i_pc := i_pc i + off\<rparr> else i)"
| "isa_exec (Jal rd off) i = Running ((set_reg rd (i_pc i + 4) i)\<lparr>i_pc := i_pc i + off\<rparr>)"
| "isa_exec (Jalr rd r1) i =
     (let j = set_reg rd (i_pc i + 4) i in Running (j\<lparr>i_pc := i_gpr j r1\<rparr>))"
| "isa_exec (Lui rd v) i = Running (set_reg rd v i)"
| "isa_exec (Auipc rd v) i = Running (set_reg rd (i_pc i + v) i)"
| "isa_exec Fence i = Running i"
| "isa_exec (Csr c rd n rs) i = Running (isa_csr c rd n rs i)"
| "isa_exec Ecall i = Failed Assert_abort"
| "isa_exec Compressed i = Failed Assert_abort"
| "isa_exec Illegal i = Ended i"

text \<open>The program counter moves on after every instruction, a taken branch included.\<close>

definition next_pc :: "isa \<Rightarrow> isa" where
  "next_pc i = i\<lparr>i_pc := i_pc i + 4\<rparr>"

fun advance :: "outcome \<Rightarrow> outcome" where
  "advance (Running i) = Running (next_pc i)"
| "advance (Ended i) = Ended (next_pc i)"
| "advance (Failed e) = Failed e"
| "advance Outside = Outside"

definition isa_step :: "isa \<Rightarrow> outcome" where
  "isa_step i =
     (if unat (i_pc i) mod 4 \<noteq> 0 then Failed Assert_abort
      else isa_access (i_pc i) 4 (\<lambda>p. advance (isa_exec (decode (load_le (i_mem i) p 4)) i)))"

primrec isa_run :: "nat \<Rightarrow> isa \<Rightarrow> outcome" where
  "isa_run 0 i = Running i"
| "isa_run (Suc n) i = (case isa_step i of Running j \<Rightarrow> isa_run n j | r \<Rightarrow> r)"

section \<open>Word operations as integer arithmetic\<close>

text \<open>The collection \<open>alu_words\<close> rewrites the C expressions of the handlers to \<open>alu\<close>.\<close>

named_theorems alu_words \<open>the C expressions of the arithmetic handlers\<close>

lemma of_uint: "uint c = x \<Longrightarrow> c = word_of_int x"
  by auto

lemma of_sint: "sint c = x \<Longrightarrow> c = word_of_int x"
  by auto

lemma sint_range: "- (2 ^ 31) \<le> sint (a :: u32)" "sint a < 2 ^ 31"
  using sint_ge [of a] sint_lt [of a] by simp_all

lemma uint_range: "0 \<le> uint (a :: u32)" "uint a < 2 ^ 32"
  using uint_lt2p [of a] by simp_all

lemma shift_amount: "unat (b AND 0x1f :: u32) = unat b mod 32"
proof -
  have "b AND 0x1f = take_bit 5 b" by (simp only: take_bit_eq_mask mask_eq_exp_minus_1) simp
  moreover have "unat (take_bit 5 b) = take_bit 5 (unat b)" by (rule unsigned_take_bit_eq)
  ultimately show ?thesis by (simp add: take_bit_eq_mod)
qed

lemma shift_words:
  "push_bit k a = (word_of_int (uint a * 2 ^ k) :: u32)"
  "drop_bit k a = (word_of_int (uint a div 2 ^ k) :: u32)"
  "signed_drop_bit k a = (word_of_int (sint a div 2 ^ k) :: u32)"
proof -
  show "push_bit k a = (word_of_int (uint a * 2 ^ k) :: u32)" by (simp add: push_bit_eq_mult)
  have "uint (drop_bit k a) = drop_bit k (uint a)"
    using uint_range [of a] by (simp only: unsigned_drop_bit_eq) (simp add: take_bit_int_eq_self)
  then show "drop_bit k a = (word_of_int (uint a div 2 ^ k) :: u32)"
    by (intro of_uint) (simp only: drop_bit_eq_div)
  show "signed_drop_bit k a = (word_of_int (sint a div 2 ^ k) :: u32)"
    by (rule of_sint) (simp only: sint_signed_drop_bit_eq drop_bit_eq_div)
qed

lemma shift_alu [alu_words]:
  "push_bit (unat (b AND 0x1f)) a = alu Sll a b"
  "drop_bit (unat (b AND 0x1f)) a = alu Srl a b"
  "signed_drop_bit (unat (b AND 0x1f)) a = alu Sra a b"
  unfolding shift_amount shift_words alu.simps by (rule refl)+

lemma shamt_alu [alu_words]:
  "push_bit (unat (I_shamt w)) a = alu Sll a (ucast (I_shamt w))"
  "drop_bit (unat (I_shamt w)) a = alu Srl a (ucast (I_shamt w))"
  "signed_drop_bit (unat (I_shamt w)) a = alu Sra a (ucast (I_shamt w))"
proof -
  have "unat (I_shamt w) < 2 ^ LENGTH(5)" by (rule unsigned_less)
  then have k: "unat (ucast (I_shamt w) :: u32) mod 32 = unat (I_shamt w)"
    by (simp add: unsigned_ucast_eq take_bit_nat_eq_self)
  show "push_bit (unat (I_shamt w)) a = alu Sll a (ucast (I_shamt w))"
    and "drop_bit (unat (I_shamt w)) a = alu Srl a (ucast (I_shamt w))"
    and "signed_drop_bit (unat (I_shamt w)) a = alu Sra a (ucast (I_shamt w))"
    by (simp_all only: alu.simps k shift_words)
qed

lemma simple_alu [alu_words]:
  "a + b = alu Add a b" "a - b = alu Sub a b"
  "a AND b = alu And a b" "a OR b = alu Or a b" "a XOR b = alu Xor a b"
  "a div b = alu Divu a b" "a mod b = alu Remu a b"
  by (simp_all add: alu.simps of_uint unsigned_and_eq unsigned_or_eq unsigned_xor_eq word_div_def
      word_mod_def)

section \<open>Products\<close>

lemma ucast_of_int: "ucast (word_of_int x :: u64) = (word_of_int x :: u32)"
  by (rule bit_word_eqI) (simp add: bit_simps)

lemma to64:
  "(scast (a :: u32) :: u64) = word_of_int (sint a)"
  "(ucast (a :: u32) :: u64) = word_of_int (uint a)"
  by simp_all

text \<open>The product of a signed and an unsigned 32-bit number is a signed 64-bit number.\<close>

lemma product_range:
  fixes x y :: int
  assumes "\<bar>x\<bar> \<le> 2 ^ 31" "\<bar>y\<bar> < 2 ^ 32"
  shows "- (2 ^ 63) \<le> x * y" "x * y < 2 ^ 63"
proof -
  have "\<bar>x * y\<bar> \<le> 2 ^ 31 * (2 ^ 32 - 1)"
    unfolding abs_mult using assms by (intro mult_mono) auto
  then show "- (2 ^ 63) \<le> x * y" "x * y < 2 ^ 63" by (simp_all add: abs_le_iff)
qed

lemma high_word:
  assumes "- (2 ^ 63) \<le> x" "x < 2 ^ 63"
  shows "ucast (signed_drop_bit 32 (word_of_int x :: u64)) = (word_of_int (x div 2 ^ 32) :: u32)"
proof -
  have "sint (word_of_int x :: u64) = x"
    using assms by (simp add: signed_of_int signed_take_bit_int_eq_self)
  then have "sint (signed_drop_bit 32 (word_of_int x :: u64)) = x div 2 ^ 32"
    by (simp only: sint_signed_drop_bit_eq drop_bit_eq_div)
  then have "signed_drop_bit 32 (word_of_int x :: u64) = word_of_int (x div 2 ^ 32)"
    by (rule of_sint)
  then show ?thesis by (simp only: ucast_of_int)
qed

lemma high_word_unsigned:
  assumes "0 \<le> x" "x < 2 ^ 64"
  shows "ucast (drop_bit 32 (word_of_int x :: u64)) = (word_of_int (x div 2 ^ 32) :: u32)"
proof -
  have "uint (word_of_int x :: u64) = x"
    using assms by (simp only: unsigned_of_int) (simp add: take_bit_int_eq_self)
  then have "uint (drop_bit 32 (word_of_int x :: u64)) = drop_bit 32 (take_bit 64 x)"
    using assms by (simp only: unsigned_drop_bit_eq) (simp add: take_bit_int_eq_self)
  then have "uint (drop_bit 32 (word_of_int x :: u64)) = x div 2 ^ 32"
    using assms by (simp only: drop_bit_eq_div take_bit_int_eq_self)
  then have "drop_bit 32 (word_of_int x :: u64) = word_of_int (x div 2 ^ 32)"
    by (rule of_uint)
  then show ?thesis by (simp only: ucast_of_int)
qed

lemma mul_alu [alu_words]:
  "ucast ((scast a :: u64) * scast b) = alu Mul a b"
  "ucast (signed_drop_bit 32 ((scast a :: u64) * scast b)) = alu Mulh a b"
  "ucast (signed_drop_bit 32 ((scast a :: u64) * ucast b)) = alu Mulhsu a b"
  "ucast (drop_bit 32 ((ucast a :: u64) * ucast b)) = alu Mulhu a b"
proof -
  show "ucast ((scast a :: u64) * scast b) = alu Mul a b"
    unfolding to64 alu.simps by (simp only: of_int_mult [symmetric] ucast_of_int)
  show "ucast (signed_drop_bit 32 ((scast a :: u64) * scast b)) = alu Mulh a b"
    unfolding to64 alu.simps of_int_mult [symmetric]
    using sint_range [of a] sint_range [of b] by (intro high_word product_range) auto
  show "ucast (signed_drop_bit 32 ((scast a :: u64) * ucast b)) = alu Mulhsu a b"
    unfolding to64 alu.simps of_int_mult [symmetric]
    using sint_range [of a] uint_range [of b] by (intro high_word product_range) auto
  have "uint a * uint b < 2 ^ 32 * 2 ^ 32"
    using uint_range [of a] uint_range [of b] by (intro mult_strict_mono) auto
  then show "ucast (drop_bit 32 ((ucast a :: u64) * ucast b)) = alu Mulhu a b"
    unfolding to64 alu.simps of_int_mult [symmetric]
    using uint_range [of a] uint_range [of b] by (intro high_word_unsigned) auto
qed

end
