(* ===== verification/Ring.thy ===== *)
theory Ring
  imports Prelude
begin

text \<open>
  The bounded first-in first-out queue that the serial port and the keyboard both
  implement as a circular array with a front index \<open>f\<close> and a rear index \<open>r\<close>.

  \<open>ring_contents\<close> reads such an array as the list it stands for. The locale
  \<open>bounded_queue\<close> is the abstract contract (a list of at most \<open>limit\<close> items); the locale
  \<open>ring_buffer\<close> is the contract of the array operations, from which \<open>bounded_queue\<close>
  follows once and for all. The \<open>guarded_\<close> variants add that taking from an empty queue
  changes nothing.
\<close>

definition ring_contents :: "nat \<Rightarrow> (nat \<Rightarrow> 'e) \<Rightarrow> nat \<Rightarrow> nat \<Rightarrow> 'e list" where
  "ring_contents cap buf f r = map (\<lambda>i. buf ((f + i) mod cap)) [0..<(r + cap - f) mod cap]"

section \<open>The abstract contract\<close>

locale bounded_queue =
  fixes enq :: "'x \<Rightarrow> 's \<Rightarrow> 's"
    and deq :: "'s \<Rightarrow> 's"
    and items :: "'s \<Rightarrow> 'e list"
    and inv :: "'s \<Rightarrow> bool"
    and emb :: "'x \<Rightarrow> 'e"
    and limit :: nat
  assumes inv_enq: "inv s \<Longrightarrow> inv (enq x s)"
    and inv_deq: "inv s \<Longrightarrow> inv (deq s)"
    and items_limit: "inv s \<Longrightarrow> length (items s) \<le> limit"
    and enq_room: "inv s \<Longrightarrow> length (items s) < limit \<Longrightarrow> items (enq x s) = items s @ [emb x]"
    and enq_full: "inv s \<Longrightarrow> length (items s) = limit \<Longrightarrow> enq x s = s"
    and deq_items: "inv s \<Longrightarrow> items s \<noteq> [] \<Longrightarrow> items (deq s) = tl (items s)"
begin

lemma items_enq: "inv s \<Longrightarrow> items (enq x s) = take limit (items s @ [emb x])"
  using items_limit [of s] enq_room [of s x] enq_full [of s x]
  by (cases "length (items s) < limit") (auto simp: le_less take_Cons')

lemma inv_enqs: "inv s \<Longrightarrow> inv (fold enq xs s)"
  by (induction xs arbitrary: s) (auto simp: inv_enq)

lemma enqs_full: "inv s \<Longrightarrow> length (items s) = limit \<Longrightarrow> fold enq xs s = s"
  by (induction xs) (auto simp: enq_full)

lemma items_enqs: "inv s \<Longrightarrow> items (fold enq xs s) = take limit (items s @ map emb xs)"
proof (induction xs arbitrary: s)
  case Nil
  then show ?case by (simp add: items_limit)
next
  case (Cons x xs)
  then show ?case
    using Cons.prems items_limit [of s] by (simp add: inv_enq items_enq min_def take_Cons')
qed

lemma items_deqs:
  "inv s \<Longrightarrow> k \<le> length (items s) \<Longrightarrow> inv ((deq ^^ k) s) \<and> items ((deq ^^ k) s) = drop k (items s)"
proof (induction k)
  case 0
  then show ?case by simp
next
  case (Suc k)
  then have IH: "inv ((deq ^^ k) s)" "items ((deq ^^ k) s) = drop k (items s)" by auto
  moreover from Suc.prems IH(2) have "items ((deq ^^ k) s) \<noteq> []" by simp
  ultimately show ?case by (simp add: inv_deq deq_items drop_Suc tl_drop)
qed

end

locale guarded_queue = bounded_queue +
  assumes deq_empty: "inv s \<Longrightarrow> items s = [] \<Longrightarrow> deq s = s"
begin

lemma items_deq: "inv s \<Longrightarrow> items (deq s) = tl (items s)"
  by (cases "items s = []") (simp_all add: deq_items deq_empty)

end

section \<open>Circular arrays\<close>

lemma ring_length: "length (ring_contents cap buf f r) = (r + cap - f) mod cap"
  by (simp add: ring_contents_def)

lemma ring_span:
  fixes f r cap :: nat
  assumes "f < cap" "r < cap"
  shows "(r + cap - f) mod cap = (if f \<le> r then r - f else r + cap - f)"
proof (cases "f \<le> r")
  case True
  then have "r + cap - f = (r - f) + cap" by arith
  then have "(r + cap - f) mod cap = (r - f) mod cap" by (simp only: mod_add_self2)
  also have "\<dots> = r - f" using assms by simp
  finally show ?thesis using True by simp
next
  case False
  with assms show ?thesis by simp
qed

lemma ring_next: "r < cap \<Longrightarrow> (r + 1) mod cap = (if r + 1 = cap then 0 else r + 1)" for r :: nat
  by auto

lemma ring_index: "f < cap \<Longrightarrow> i < cap \<Longrightarrow> (f + i) mod cap = (if f + i < cap then f + i else f + i - cap)"
  for f :: nat
  by (simp add: mod_if)

lemma ring_length_less: "0 < cap \<Longrightarrow> length (ring_contents cap buf f r) < cap"
  by (simp add: ring_length)

lemma ring_empty_iff: "f < cap \<Longrightarrow> r < cap \<Longrightarrow> ring_contents cap buf f r = [] \<longleftrightarrow> f = r"
  by (auto simp: ring_contents_def ring_span split: if_splits)

lemma ring_full_iff:
  assumes "f < cap" "r < cap"
  shows "(r + 1) mod cap = f \<longleftrightarrow> length (ring_contents cap buf f r) = cap - 1"
  using assms unfolding ring_length ring_span [OF assms] ring_next [OF assms(2)] by auto

lemma ring_put:
  assumes "f < cap" "r < cap" "(r + 1) mod cap \<noteq> f"
  shows "ring_contents cap (buf(r := x)) f ((r + 1) mod cap) = ring_contents cap buf f r @ [x]"
proof -
  define n where "n = (r + cap - f) mod cap"
  have n: "n = (if f \<le> r then r - f else r + cap - f)"
    using assms by (simp add: n_def ring_span)
  have next_less: "(r + 1) mod cap < cap" using assms by simp
  have n': "((r + 1) mod cap + cap - f) mod cap = Suc n"
    unfolding ring_span [OF assms(1) next_less]
    unfolding n ring_next [OF assms(2)] using assms by (auto simp: ring_next)
  have "n < cap" using assms by (auto simp: n)
  then have last: "(f + n) mod cap = r"
    using assms by (auto simp: ring_index n)
  have other: "(f + i) mod cap \<noteq> r" if "i < n" for i
    using assms that \<open>n < cap\<close> by (auto simp: ring_index n split: if_splits)
  show ?thesis
    unfolding ring_contents_def n' using other by (simp add: last flip: n_def)
qed

lemma ring_pop:
  assumes "f < cap" "r < cap" "f \<noteq> r"
  shows "ring_contents cap buf f r = buf f # ring_contents cap buf ((f + 1) mod cap) r"
proof -
  define n where "n = (r + cap - (f + 1) mod cap) mod cap"
  have next_less: "(f + 1) mod cap < cap" using assms by simp
  have n': "(r + cap - f) mod cap = Suc n"
    unfolding n_def ring_span [OF assms(1,2)] ring_span [OF next_less assms(2)]
    unfolding ring_next [OF assms(1)] using assms by auto
  have shift: "((f + 1) mod cap + i) mod cap = (f + Suc i) mod cap" for i
    by (metis add.assoc mod_add_left_eq plus_1_eq_Suc)
  have "ring_contents cap buf f r = map (\<lambda>i. buf ((f + i) mod cap)) (0 # map Suc [0..<n])"
    by (simp add: ring_contents_def n' upt_conv_Cons map_Suc_upt del: upt_Suc)
  also have "\<dots> = buf f # map (\<lambda>i. buf ((f + Suc i) mod cap)) [0..<n]"
    using assms(1) by simp
  also have "map (\<lambda>i. buf ((f + Suc i) mod cap)) [0..<n] = ring_contents cap buf ((f + 1) mod cap) r"
    by (simp only: ring_contents_def shift flip: n_def)
  finally show ?thesis .
qed

locale ring_buffer =
  fixes put :: "'x \<Rightarrow> 's \<Rightarrow> 's"
    and pop :: "'s \<Rightarrow> 's"
    and buf :: "'s \<Rightarrow> nat \<Rightarrow> 'e"
    and front :: "'s \<Rightarrow> nat"
    and rear :: "'s \<Rightarrow> nat"
    and emb :: "'x \<Rightarrow> 'e"
    and cap :: nat
  assumes cap_pos: "0 < cap"
    and put_full: "(rear s + 1) mod cap = front s \<Longrightarrow> put x s = s"
    and put_buf: "(rear s + 1) mod cap \<noteq> front s \<Longrightarrow> buf (put x s) = (buf s)(rear s := emb x)"
    and put_front: "front (put x s) = front s"
    and put_rear: "(rear s + 1) mod cap \<noteq> front s \<Longrightarrow> rear (put x s) = (rear s + 1) mod cap"
    and pop_buf: "buf (pop s) = buf s"
    and pop_front: "front s \<noteq> rear s \<Longrightarrow> front (pop s) = (front s + 1) mod cap"
    and pop_front_less: "front s < cap \<Longrightarrow> front (pop s) < cap"
    and pop_rear: "rear (pop s) = rear s"

sublocale ring_buffer \<subseteq> bounded_queue put pop
  "\<lambda>s. ring_contents cap (buf s) (front s) (rear s)"
  "\<lambda>s. front s < cap \<and> rear s < cap" emb "cap - 1"
proof unfold_locales
  fix s :: 's and x :: 'x
  assume inv: "front s < cap \<and> rear s < cap"
  show "front (put x s) < cap \<and> rear (put x s) < cap"
    using inv cap_pos put_full [of s x] by (cases "(rear s + 1) mod cap = front s")
      (simp_all add: put_front put_rear)
  show "front (pop s) < cap \<and> rear (pop s) < cap"
    using inv by (simp add: pop_rear pop_front_less)
  show "length (ring_contents cap (buf s) (front s) (rear s)) \<le> cap - 1"
    using ring_length_less [OF cap_pos, of "buf s" "front s" "rear s"] by simp
  show "length (ring_contents cap (buf s) (front s) (rear s)) < cap - 1 \<Longrightarrow>
      ring_contents cap (buf (put x s)) (front (put x s)) (rear (put x s))
        = ring_contents cap (buf s) (front s) (rear s) @ [emb x]"
    using inv ring_full_iff [of "front s" cap "rear s" "buf s"]
    by (metis less_irrefl put_front put_rear put_buf ring_put)
  show "length (ring_contents cap (buf s) (front s) (rear s)) = cap - 1 \<Longrightarrow> put x s = s"
    using inv ring_full_iff [of "front s" cap "rear s" "buf s"] by (simp add: put_full)
  show "ring_contents cap (buf s) (front s) (rear s) \<noteq> [] \<Longrightarrow>
      ring_contents cap (buf (pop s)) (front (pop s)) (rear (pop s))
        = tl (ring_contents cap (buf s) (front s) (rear s))"
    using inv by (simp add: ring_empty_iff pop_buf pop_rear pop_front
        ring_pop [of "front s" cap "rear s" "buf s"])
qed

locale guarded_ring_buffer = ring_buffer +
  assumes pop_empty: "front s = rear s \<Longrightarrow> pop s = s"

sublocale guarded_ring_buffer \<subseteq> guarded_queue put pop
  "\<lambda>s. ring_contents cap (buf s) (front s) (rear s)"
  "\<lambda>s. front s < cap \<and> rear s < cap" emb "cap - 1"
  by unfold_locales (simp add: ring_empty_iff pop_empty)

end
