(* ===== verification/Sdl.thy ===== *)
theory Sdl
  imports Prelude
begin

text \<open>
  What the devices use of the SDL library, which is not part of this repository: the kinds
  of events that the program distinguishes, and the numbering of keys. A key reaches the
  program as an integer; \<open>key_name\<close> gives the name of the enumeration constant with that
  value, and \<open>sdlk_last\<close> is the value of \<^verbatim>\<open>SDLK_LAST\<close>. Both are
  parameters of the operations that switch over keys.
\<close>

datatype SDL_EventType = SDL_KEYDOWN | SDL_KEYUP | SDL_QUIT | SDL_OTHER

record sdl_env =
  key_name :: "int \<Rightarrow> string"
  sdlk_last :: int

text \<open>A concrete numbering (that of SDL 1.2 for four keys), used by the examples.\<close>

definition sdl_example :: sdl_env where
  "sdl_example = \<lparr>key_name = (\<lambda>k. if k = 97 then ''SDLK_a'' else if k = 98 then ''SDLK_b''
      else if k = 273 then ''SDLK_UP'' else if k = 27 then ''SDLK_ESCAPE'' else ''SDLK_UNKNOWN''),
    sdlk_last = 323\<rparr>"

end
