(* ===== verification/Serial.thy ===== *)
theory Serial
  imports Ram Ring Sdl
begin

text \<open>
  The serial port \<^verbatim>\<open>src/dev/serial.c\<close>: a receive queue fed by the keyboard
  and drained by reads of the Rx register, a status and a control register, and a
  transmit register that prints. The record \<open>serial_state\<close> holds the file's static
  variables; \<open>uart_tx\<close> is what \<^verbatim>\<open>putchar\<close> has written.

  The receive queue is shown to implement \<open>guarded_ring_buffer\<close>, hence a bounded
  first-in first-out queue of 1023 characters.
\<close>

unbundle bit_operations_syntax

section \<open>Constants and state\<close>

definition SERIAL_ADDR :: u32 where "SERIAL_ADDR = 0x1fe50000"
definition SERIAL_SIZE :: u32 where "SERIAL_SIZE = 0x10"
definition UARTLITE_Rx :: u32 where "UARTLITE_Rx = 0x0"
definition UARTLITE_Tx :: u32 where "UARTLITE_Tx = 0x4"
definition UARTLITE_STAT :: u32 where "UARTLITE_STAT = 0x8"
definition UARTLITE_CTRL :: u32 where "UARTLITE_CTRL = 0xC"
definition SERIAL_QUEUE_LEN :: nat where "SERIAL_QUEUE_LEN = 1024"

lemmas serial_const_defs = SERIAL_ADDR_def SERIAL_SIZE_def UARTLITE_Rx_def UARTLITE_Tx_def
  UARTLITE_STAT_def UARTLITE_CTRL_def SERIAL_QUEUE_LEN_def

record serial_state =
  uartlite_ctrl_reg :: u32
  serial_queue :: "nat \<Rightarrow> int"
  serial_f :: nat
  serial_r :: nat
  sdlk_state :: "int \<Rightarrow> bool"
  uart_tx :: "u8 list"

definition serial_init :: serial_state where
  "serial_init = \<lparr>uartlite_ctrl_reg = 0, serial_queue = (\<lambda>_. 0), serial_f = 0, serial_r = 0,
     sdlk_state = (\<lambda>_. False), uart_tx = []\<rparr>"

section \<open>Keys to characters\<close>

definition ascii_table :: "(string \<times> string) list" where
  "ascii_table =
    [(''SDLK_ESCAPE'', [CHR 0x1B]), (''SDLK_F1'', CHR 0x1B # ''OP''),
     (''SDLK_F2'', CHR 0x1B # ''OQ''), (''SDLK_F3'', CHR 0x1B # ''OR''),
     (''SDLK_F4'', CHR 0x1B # ''OS''), (''SDLK_F5'', CHR 0x1B # ''[15~''),
     (''SDLK_F6'', CHR 0x1B # ''[17~''), (''SDLK_F7'', CHR 0x1B # ''[18~''),
     (''SDLK_F8'', CHR 0x1B # ''[19~''), (''SDLK_F9'', CHR 0x1B # ''[20~''),
     (''SDLK_F10'', CHR 0x1B # ''[21~''), (''SDLK_F11'', CHR 0x1B # ''[22~''),
     (''SDLK_F12'', CHR 0x1B # ''[24~''), (''SDLK_BACKQUOTE'', [CHR 0x60]),
     (''SDLK_1'', ''1''), (''SDLK_2'', ''2''), (''SDLK_3'', ''3''), (''SDLK_4'', ''4''),
     (''SDLK_5'', ''5''), (''SDLK_6'', ''6''), (''SDLK_7'', ''7''), (''SDLK_8'', ''8''),
     (''SDLK_9'', ''9''), (''SDLK_0'', ''0''), (''SDLK_MINUS'', ''-''),
     (''SDLK_EQUALS'', ''=''), (''SDLK_BACKSPACE'', [CHR 0x08]), (''SDLK_TAB'', [CHR 0x09]),
     (''SDLK_q'', ''q''), (''SDLK_w'', ''w''), (''SDLK_e'', ''e''), (''SDLK_r'', ''r''),
     (''SDLK_t'', ''t''), (''SDLK_y'', ''y''), (''SDLK_u'', ''u''), (''SDLK_i'', ''i''),
     (''SDLK_o'', ''o''), (''SDLK_p'', ''p''), (''SDLK_LEFTBRACKET'', ''{''),
     (''SDLK_RIGHTBRACKET'', ''}''), (''SDLK_SLASH'', [CHR 0x5C]), (''SDLK_a'', ''a''),
     (''SDLK_s'', ''s''), (''SDLK_d'', ''d''), (''SDLK_f'', ''f''), (''SDLK_g'', ''g''),
     (''SDLK_h'', ''h''), (''SDLK_j'', ''j''), (''SDLK_k'', ''k''), (''SDLK_l'', ''l''),
     (''SDLK_SEMICOLON'', '';''), (''SDLK_QUOTE'', [CHR 0x27]), (''SDLK_RETURN'', [CHR 0x0A]),
     (''SDLK_LSHIFT'', []), (''SDLK_z'', ''z''), (''SDLK_x'', ''x''), (''SDLK_c'', ''c''),
     (''SDLK_v'', ''v''), (''SDLK_b'', ''b''), (''SDLK_n'', ''n''), (''SDLK_m'', ''m''),
     (''SDLK_COMMA'', '';''), (''SDLK_PERIOD'', ''.''), (''SDLK_BACKSLASH'', ''/''),
     (''SDLK_RSHIFT'', []), (''SDLK_LCTRL'', []), (''SDLK_LALT'', []),
     (''SDLK_SPACE'', '' ''), (''SDLK_RALT'', []), (''SDLK_RCTRL'', []),
     (''SDLK_INSERT'', CHR 0x1B # ''[2~''), (''SDLK_HOME'', CHR 0x1B # ''[1~''),
     (''SDLK_PAGEUP'', CHR 0x1B # ''[5~''), (''SDLK_DELETE'', [CHR 0x7F]),
     (''SDLK_END'', CHR 0x1B # ''[4~''), (''SDLK_PAGEDOWN'', CHR 0x1B # ''[6~''),
     (''SDLK_UP'', CHR 0x1B # ''[A''), (''SDLK_LEFT'', CHR 0x1B # ''[D''),
     (''SDLK_DOWN'', CHR 0x1B # ''[B''), (''SDLK_RIGHT'', CHR 0x1B # ''[C''),
     (''SDLK_KP_DIVIDE'', ''/''), (''SDLK_KP_MULTIPLY'', ''*''), (''SDLK_KP_MINUS'', ''-''),
     (''SDLK_KP_PLUS'', ''+''), (''SDLK_KP7'', ''7''), (''SDLK_KP8'', ''8''),
     (''SDLK_KP9'', ''9''), (''SDLK_KP4'', ''4''), (''SDLK_KP5'', ''5''),
     (''SDLK_KP6'', ''6''), (''SDLK_KP1'', ''1''), (''SDLK_KP2'', ''2''),
     (''SDLK_KP3'', ''3''), (''SDLK_KP0'', ''0''), (''SDLK_KP_EQUALS'', ''=''),
     (''SDLK_KP_ENTER'', [CHR 0x0A])]"

definition SDLK_to_ascii :: "string \<Rightarrow> string" where
  "SDLK_to_ascii key = (case map_of ascii_table key of Some s \<Rightarrow> s | None \<Rightarrow> [])"

text \<open>A \<^verbatim>\<open>char\<close> is signed; storing it in the \<^verbatim>\<open>int\<close> queue extends its sign.\<close>

definition int_of_c_char :: "char \<Rightarrow> int" where
  "int_of_c_char c = (let n = (of_char c :: int) in if n < 128 then n else n - 256)"

section \<open>Filling the queue\<close>

definition serial_enqueue_ascii :: "char \<Rightarrow> serial_state \<Rightarrow> serial_state" where
  "serial_enqueue_ascii ch s =
     (let next = (serial_r s + 1) mod SERIAL_QUEUE_LEN
      in if next \<noteq> serial_f s
         then s\<lparr>serial_queue := (serial_queue s)(serial_r s := int_of_c_char ch), serial_r := next\<rparr>
         else s)"

text \<open>The loop over the key's characters; it stops at the first that does not fit.\<close>

fun serial_enqueue_loop :: "string \<Rightarrow> serial_state \<Rightarrow> serial_state" where
  "serial_enqueue_loop [] s = s"
| "serial_enqueue_loop (ch # p) s =
     (let next = (serial_r s + 1) mod SERIAL_QUEUE_LEN
      in if next \<noteq> serial_f s
         then serial_enqueue_loop p
           (s\<lparr>serial_queue := (serial_queue s)(serial_r s := int_of_c_char ch), serial_r := next\<rparr>)
         else s)"

definition serial_enqueue :: "sdl_env \<Rightarrow> SDL_EventType \<Rightarrow> int \<Rightarrow> serial_state \<Rightarrow> serial_state" where
  "serial_enqueue sdl type key s =
     (if key < 0 \<or> key \<ge> sdlk_last sdl then s
      else if type = SDL_KEYDOWN \<and> sdlk_state s key then s
      else
        let s1 = (if type = SDL_KEYDOWN then s\<lparr>sdlk_state := (sdlk_state s)(key := True)\<rparr> else s)
        in if type = SDL_KEYUP then s1\<lparr>sdlk_state := (sdlk_state s1)(key := False)\<rparr>
           else serial_enqueue_loop (SDLK_to_ascii (key_name sdl key)) s1)"

section \<open>Register accesses\<close>

definition check_serial :: "u32 \<Rightarrow> u32 \<Rightarrow> (serial_state, unit) op" where
  "check_serial addr len = check_op Cpu_assert (addr \<le> SERIAL_SIZE)"

definition serial_peek :: "u32 \<Rightarrow> u32 \<Rightarrow> (serial_state, u32) op" where
  "serial_peek addr len =
     seq_op (check_serial addr len)
    (if addr = UARTLITE_Rx then gets_op (\<lambda>s. word_of_int (serial_queue s (serial_f s)))
     else if addr = UARTLITE_STAT then gets_op (\<lambda>s. if serial_f s = serial_r s then 0 else 1)
     else if addr = UARTLITE_CTRL then gets_op uartlite_ctrl_reg
     else raise Cpu_assert)"

definition serial_read :: "u32 \<Rightarrow> u32 \<Rightarrow> (serial_state, u32) op" where
  "serial_read addr len =
     seq_op (check_serial addr len)
    (bind_op (serial_peek addr len) (\<lambda>data.
     seq_op (mod_op (\<lambda>s. if addr = UARTLITE_Rx \<and> serial_f s \<noteq> serial_r s
                         then s\<lparr>serial_f := (serial_f s + 1) mod SERIAL_QUEUE_LEN\<rparr> else s))
    (ok data)))"

definition serial_write :: "u32 \<Rightarrow> u32 \<Rightarrow> u32 \<Rightarrow> (serial_state, unit) op" where
  "serial_write addr len data =
     seq_op (check_serial addr len)
    (if addr = UARTLITE_Tx then mod_op (\<lambda>s. s\<lparr>uart_tx := uart_tx s @ [ucast data]\<rparr>)
     else if addr = UARTLITE_CTRL then mod_op (\<lambda>s. s\<lparr>uartlite_ctrl_reg := data\<rparr>)
     else raise Cpu_assert)"

section \<open>The receive queue\<close>

definition rx_chars :: "serial_state \<Rightarrow> int list" where
  "rx_chars s = ring_contents SERIAL_QUEUE_LEN (serial_queue s) (serial_f s) (serial_r s)"

definition serial_wf :: "serial_state \<Rightarrow> bool" where
  "serial_wf s \<longleftrightarrow> serial_f s < SERIAL_QUEUE_LEN \<and> serial_r s < SERIAL_QUEUE_LEN"

definition serial_pop :: "serial_state \<Rightarrow> serial_state" where
  "serial_pop s = snd (serial_read UARTLITE_Rx 4 s)"

lemma serial_pop_simp:
  "serial_pop s = (if serial_f s \<noteq> serial_r s
     then s\<lparr>serial_f := (serial_f s + 1) mod SERIAL_QUEUE_LEN\<rparr> else s)"
  by (simp add: serial_pop_def serial_read_def serial_peek_def check_serial_def op_simps
      serial_const_defs)

interpretation rx: guarded_ring_buffer serial_enqueue_ascii serial_pop serial_queue serial_f serial_r
  int_of_c_char SERIAL_QUEUE_LEN
  by unfold_locales
    (auto simp: serial_enqueue_ascii_def serial_pop_simp SERIAL_QUEUE_LEN_def Let_def)

lemmas rx_folds = rx_chars_def [symmetric] serial_wf_def [symmetric]

lemma serial_enqueue_loop_full:
  "(serial_r s + 1) mod SERIAL_QUEUE_LEN = serial_f s \<Longrightarrow> fold serial_enqueue_ascii p s = s"
  by (induction p) (auto simp: serial_enqueue_ascii_def Let_def)

lemma serial_enqueue_loop_fold: "serial_enqueue_loop p s = fold serial_enqueue_ascii p s"
proof (induction p s rule: serial_enqueue_loop.induct)
  case (1 s)
  then show ?case by simp
next
  case (2 ch p s)
  show ?case
  proof (cases "(serial_r s + 1) mod SERIAL_QUEUE_LEN = serial_f s")
    case True
    then show ?thesis using serial_enqueue_loop_full [of s "ch # p"] by simp
  next
    case False
    then have "serial_enqueue_loop (ch # p) s = serial_enqueue_loop p (serial_enqueue_ascii ch s)"
      by (simp add: serial_enqueue_ascii_def)
    with 2 False show ?thesis by (simp add: serial_enqueue_ascii_def Let_def)
  qed
qed

lemma rx_enqueue_loop:
  assumes "serial_wf s"
  shows "rx_chars (serial_enqueue_loop p s) = take 1023 (rx_chars s @ map int_of_c_char p)"
    and "serial_wf (serial_enqueue_loop p s)"
  using assms rx.items_enqs [of s p] rx.inv_enqs [of s p]
  by (simp_all add: serial_enqueue_loop_fold rx_chars_def serial_wf_def SERIAL_QUEUE_LEN_def)

lemma rx_chars_frame [simp]:
  "rx_chars (s\<lparr>sdlk_state := x\<rparr>) = rx_chars s"
  "rx_chars (s\<lparr>uart_tx := y\<rparr>) = rx_chars s"
  "rx_chars (s\<lparr>uartlite_ctrl_reg := z\<rparr>) = rx_chars s"
  by (simp_all add: rx_chars_def)

lemma serial_wf_frame [simp]:
  "serial_wf (s\<lparr>sdlk_state := x\<rparr>) = serial_wf s"
  "serial_wf (s\<lparr>uart_tx := y\<rparr>) = serial_wf s"
  "serial_wf (s\<lparr>uartlite_ctrl_reg := z\<rparr>) = serial_wf s"
  by (simp_all add: serial_wf_def)

lemma serial_enqueue_wf: "serial_wf s \<Longrightarrow> serial_wf (serial_enqueue sdl type key s)"
  by (auto simp: serial_enqueue_def Let_def rx_enqueue_loop(2))

lemma serial_read_wf: "keeps serial_wf (serial_read addr len)"
  by (auto simp: keeps_wp wp_simps serial_read_def serial_peek_def check_serial_def serial_wf_def
      SERIAL_QUEUE_LEN_def)

lemma serial_write_wf: "keeps serial_wf (serial_write addr len data)"
  by (auto simp: keeps_wp wp_simps serial_write_def check_serial_def)

text \<open>One read of Rx is one step of the abstract queue.\<close>

lemma serial_read_rx:
  assumes "serial_wf s" "rx_chars s = c # cs"
  shows "\<exists>t. serial_read UARTLITE_Rx len s = (Inr (word_of_int c), t) \<and> rx_chars t = cs \<and> serial_wf t"
proof -
  have ne: "serial_f s \<noteq> serial_r s"
    using assms ring_empty_iff [of "serial_f s" SERIAL_QUEUE_LEN "serial_r s" "serial_queue s"]
    by (auto simp: rx_chars_def serial_wf_def)
  then have "rx_chars s = serial_queue s (serial_f s) # rx_chars (serial_pop s)"
    using assms(1) by (simp add: rx_chars_def serial_wf_def serial_pop_simp ring_pop)
  then have c: "c = serial_queue s (serial_f s)" and cs: "cs = rx_chars (serial_pop s)"
    using assms(2) by simp_all
  have "serial_read UARTLITE_Rx len s = (Inr (word_of_int c), serial_pop s)"
    using ne c by (simp add: serial_read_def serial_peek_def check_serial_def op_simps
        serial_const_defs serial_pop_simp)
  moreover have "serial_wf (serial_pop s)"
    using rx.inv_deq [of s] assms(1) by (simp add: serial_wf_def)
  ultimately show ?thesis using cs by blast
qed

section \<open>Properties\<close>

text \<open>
  C26: A key event appends the key's characters to the receive queue, as far as they fit into
  1023, unless it is a release or the repetition of a key that is already down; and the port
  remembers which keys are down.
\<close>

theorem serial_key_event:
  assumes "serial_wf s" "0 \<le> key" "key < sdlk_last sdl"
  shows "rx_chars (serial_enqueue sdl type key s) =
      (if type = SDL_KEYUP \<or> type = SDL_KEYDOWN \<and> sdlk_state s key then rx_chars s
       else take 1023 (rx_chars s @ map int_of_c_char (SDLK_to_ascii (key_name sdl key))))
    \<and> (type = SDL_KEYDOWN \<longrightarrow> sdlk_state (serial_enqueue sdl type key s) key)
    \<and> (type = SDL_KEYUP \<longrightarrow> \<not> sdlk_state (serial_enqueue sdl type key s) key)"
proof -
  have state: "sdlk_state (serial_enqueue_loop p u) = sdlk_state u" for p u
    by (induction p u rule: serial_enqueue_loop.induct) (simp_all add: Let_def)
  show ?thesis
    using assms rx_enqueue_loop(1) by (auto simp: serial_enqueue_def Let_def state)
qed

lemma serial_examples:
  "serial_wf serial_init" "rx_chars serial_init = []" "\<not> sdlk_state serial_init k"
  "key_name sdl_example 273 = ''SDLK_UP''" "sdlk_last sdl_example = 323"
  "map int_of_c_char (SDLK_to_ascii ''SDLK_UP'') = [27, 91, 65]"
proof -
  show "map int_of_c_char (SDLK_to_ascii ''SDLK_UP'') = [27, 91, 65]" by code_simp
qed (simp_all add: serial_wf_def serial_init_def SERIAL_QUEUE_LEN_def rx_chars_def ring_contents_def
    sdl_example_def)

theorem serial_key_event_witness:
  "rx_chars (serial_enqueue sdl_example SDL_KEYDOWN 273 serial_init) = [27, 91, 65]
   \<and> rx_chars (serial_enqueue sdl_example SDL_KEYUP 273 serial_init) = []"
  using serial_key_event [OF serial_examples(1), of 273 sdl_example SDL_KEYDOWN]
    serial_key_event [OF serial_examples(1), of 273 sdl_example SDL_KEYUP]
  by (simp add: serial_examples)

text \<open>\<open>n\<close> reads of the receive register, as a driver makes them.\<close>

primrec serial_drain :: "nat \<Rightarrow> (serial_state, u32 list) op" where
  "serial_drain 0 = ok []"
| "serial_drain (Suc n) =
     bind_op (serial_read UARTLITE_Rx 4) (\<lambda>c.
     bind_op (serial_drain n) (\<lambda>cs. ok (c # cs)))"

lemma serial_read_status:
  "serial_wf s \<Longrightarrow> serial_read UARTLITE_STAT 4 s = (Inr (if rx_chars s = [] then 0 else 1), s)"
  using ring_empty_iff [of "serial_f s" SERIAL_QUEUE_LEN "serial_r s" "serial_queue s"]
  by (auto simp: serial_read_def serial_peek_def check_serial_def op_simps serial_const_defs
      rx_chars_def serial_wf_def)

text \<open>
  Reading the receive register as often as there are characters queued delivers them all, in
  the order in which they arrived, and then the status register says that nothing is left.
\<close>

lemma serial_drained:
  assumes "serial_wf s"
  shows "\<exists>t. serial_drain (length (rx_chars s)) s = (Inr (map word_of_int (rx_chars s)), t)
    \<and> rx_chars t = [] \<and> serial_read UARTLITE_STAT 4 t = (Inr 0, t)"
proof -
  have "\<exists>t. serial_drain n s = (Inr (map word_of_int (rx_chars s)), t) \<and> rx_chars t = [] \<and> serial_wf t"
    if "serial_wf s" "n = length (rx_chars s)" for n s
    using that
  proof (induction n arbitrary: s)
    case 0
    then show ?case by (simp add: op_simps)
  next
    case (Suc n)
    then obtain c cs where cs: "rx_chars s = c # cs" by (metis length_Suc_conv)
    obtain u where u: "serial_read UARTLITE_Rx 4 s = (Inr (word_of_int c), u)" "rx_chars u = cs" "serial_wf u"
      using serial_read_rx [OF Suc.prems(1) cs] by blast
    from Suc.IH [OF u(3)] u(2) Suc.prems(2) cs
    obtain t where "serial_drain n u = (Inr (map word_of_int cs), t)" "rx_chars t = []" "serial_wf t" by auto
    with u(1) cs show ?case by (simp add: op_simps)
  qed
  from this [OF assms refl] obtain t where t: "serial_drain (length (rx_chars s)) s
      = (Inr (map word_of_int (rx_chars s)), t)" "rx_chars t = []" "serial_wf t" by blast
  with serial_read_status [OF t(3)] show ?thesis by simp
qed

end
