(* ===== verification/Keyboard.thy ===== *)
theory Keyboard
  imports Ram Ring Sdl
begin

text \<open>
  The keyboard controller \<^verbatim>\<open>src/dev/keyboard.c\<close>: a queue of scancodes filled by
  key events and drained by reads of the code register. The same circular array as the
  serial port's, except that a read of the code register takes an item whether or not
  there is one: the queue implements \<open>ring_buffer\<close> but not its guarded variant.
\<close>

unbundle bit_operations_syntax

definition KB_ADDR :: u32 where "KB_ADDR = 0x1fe94000"
definition KB_CODE :: u32 where "KB_CODE = 0x0"
definition KB_STAT :: u32 where "KB_STAT = 0x4"
definition KB_SIZE :: u32 where "KB_SIZE = 0x10"
definition KEYBOARD_QUEUE_LEN :: nat where "KEYBOARD_QUEUE_LEN = 1024"

lemmas keyboard_const_defs = KB_ADDR_def KB_CODE_def KB_STAT_def KB_SIZE_def KEYBOARD_QUEUE_LEN_def

record keyboard_state =
  keyboard_queue :: "nat \<Rightarrow> int"
  keyboard_f :: nat
  keyboard_r :: nat

definition keyboard_init :: keyboard_state where
  "keyboard_init = \<lparr>keyboard_queue = (\<lambda>_. 0), keyboard_f = 0, keyboard_r = 0\<rparr>"

section \<open>Keys to scancodes\<close>

record scancode_t =
  downcode :: int
  upcode :: int

text \<open>Key, make code, break code.\<close>

definition scancode_table :: "(string \<times> int \<times> int) list" where
  "scancode_table =
    [(''SDLK_ESCAPE'', 0x76, 0xF076), (''SDLK_F1'', 0x05, 0xF005),
     (''SDLK_F2'', 0x06, 0xF006), (''SDLK_F3'', 0x04, 0xF004), (''SDLK_F4'', 0x0C, 0xF00C),
     (''SDLK_F5'', 0x03, 0xF003), (''SDLK_F6'', 0x0B, 0xF00B), (''SDLK_F7'', 0x83, 0xF083),
     (''SDLK_F8'', 0x0A, 0xF00A), (''SDLK_F9'', 0x01, 0xF001), (''SDLK_F10'', 0x09, 0xF009),
     (''SDLK_F11'', 0x78, 0xF078), (''SDLK_F12'', 0x07, 0xF007),
     (''SDLK_SCROLLOCK'', 0x7E, 0xF07E), (''SDLK_BACKQUOTE'', 0x0E, 0xF00E),
     (''SDLK_1'', 0x16, 0xF016), (''SDLK_2'', 0x1E, 0xF01E), (''SDLK_3'', 0x26, 0xF026),
     (''SDLK_4'', 0x25, 0xF025), (''SDLK_5'', 0x2E, 0xF02E), (''SDLK_6'', 0x36, 0xF036),
     (''SDLK_7'', 0x3D, 0xF03D), (''SDLK_8'', 0x3E, 0xF03E), (''SDLK_9'', 0x46, 0xF046),
     (''SDLK_0'', 0x45, 0xF045), (''SDLK_MINUS'', 0x4E, 0xF04E),
     (''SDLK_EQUALS'', 0x55, 0xF055), (''SDLK_BACKSPACE'', 0x66, 0xF066),
     (''SDLK_TAB'', 0x0D, 0xF00D), (''SDLK_q'', 0x15, 0xF015), (''SDLK_w'', 0x1D, 0xF01D),
     (''SDLK_e'', 0x24, 0xF024), (''SDLK_r'', 0x2D, 0xF02D), (''SDLK_t'', 0x2C, 0xF02C),
     (''SDLK_y'', 0x35, 0xF035), (''SDLK_u'', 0x3C, 0xF03C), (''SDLK_i'', 0x43, 0xF043),
     (''SDLK_o'', 0x44, 0xF044), (''SDLK_p'', 0x4D, 0xF04D),
     (''SDLK_LEFTBRACKET'', 0x54, 0xF054), (''SDLK_RIGHTBRACKET'', 0x5B, 0xF05B),
     (''SDLK_SLASH'', 0x5D, 0xF05D), (''SDLK_CAPSLOCK'', 0x58, 0xF058),
     (''SDLK_a'', 0x1C, 0xF01C), (''SDLK_s'', 0x1B, 0xF01B), (''SDLK_d'', 0x23, 0xF023),
     (''SDLK_f'', 0x2B, 0xF02B), (''SDLK_g'', 0x34, 0xF034), (''SDLK_h'', 0x33, 0xF033),
     (''SDLK_j'', 0x3B, 0xF03B), (''SDLK_k'', 0x42, 0xF042), (''SDLK_l'', 0x4B, 0xF04B),
     (''SDLK_SEMICOLON'', 0x4C, 0xF04C), (''SDLK_QUOTE'', 0x52, 0xF052),
     (''SDLK_RETURN'', 0x5A, 0xF05A), (''SDLK_LSHIFT'', 0x12, 0xF012),
     (''SDLK_z'', 0x1A, 0xF01A), (''SDLK_x'', 0x22, 0xF022), (''SDLK_c'', 0x21, 0xF021),
     (''SDLK_v'', 0x2A, 0xF02A), (''SDLK_b'', 0x32, 0xF032), (''SDLK_n'', 0x31, 0xF031),
     (''SDLK_m'', 0x3A, 0xF03A), (''SDLK_COMMA'', 0x41, 0xF041),
     (''SDLK_PERIOD'', 0x49, 0xF049), (''SDLK_BACKSLASH'', 0x4A, 0xF04A),
     (''SDLK_RSHIFT'', 0x59, 0xF059), (''SDLK_LCTRL'', 0x14, 0xF014),
     (''SDLK_LALT'', 0x11, 0xF011), (''SDLK_SPACE'', 0x29, 0xF029),
     (''SDLK_RALT'', 0xE011, 0xE0F011), (''SDLK_RCTRL'', 0xE014, 0xE0F014),
     (''SDLK_INSERT'', 0xE070, 0xE0F070), (''SDLK_HOME'', 0xE06C, 0xE0F06C),
     (''SDLK_PAGEUP'', 0xE07D, 0xE0F07D), (''SDLK_DELETE'', 0xE071, 0xE0F071),
     (''SDLK_END'', 0xE069, 0xE0F069), (''SDLK_PAGEDOWN'', 0xE07A, 0xE0F07A),
     (''SDLK_UP'', 0xE075, 0xE0F075), (''SDLK_LEFT'', 0xE06B, 0xE0F06B),
     (''SDLK_DOWN'', 0xE072, 0xE0F072), (''SDLK_RIGHT'', 0xE074, 0xE0F074),
     (''SDLK_NUMLOCK'', 0x77, 0xF077), (''SDLK_KP_DIVIDE'', 0xE04A, 0xE0F04A),
     (''SDLK_KP_MULTIPLY'', 0x7C, 0xF07C), (''SDLK_KP_MINUS'', 0x7B, 0xF07B),
     (''SDLK_KP_PLUS'', 0x79, 0xF079), (''SDLK_KP7'', 0x6C, 0xF06C),
     (''SDLK_KP8'', 0x75, 0xF075), (''SDLK_KP9'', 0x7D, 0xF07D), (''SDLK_KP4'', 0x6B, 0xF06B),
     (''SDLK_KP5'', 0x73, 0xF073), (''SDLK_KP6'', 0x74, 0xF074), (''SDLK_KP1'', 0x69, 0xF069),
     (''SDLK_KP2'', 0x72, 0xF072), (''SDLK_KP3'', 0x7A, 0xF07A), (''SDLK_KP0'', 0x70, 0xF070),
     (''SDLK_KP_EQUALS'', 0x71, 0xF071), (''SDLK_KP_ENTER'', 0xE05A, 0xE0F05A)]"

definition SDLK_to_scancode :: "string \<Rightarrow> scancode_t" where
  "SDLK_to_scancode key = (case map_of scancode_table key of
     Some (d, u) \<Rightarrow> \<lparr>downcode = d, upcode = u\<rparr> | None \<Rightarrow> \<lparr>downcode = 0, upcode = 0\<rparr>)"

section \<open>Events and register reads\<close>

definition keyboard_push :: "int \<Rightarrow> keyboard_state \<Rightarrow> keyboard_state" where
  "keyboard_push scancode s =
     (let next = (keyboard_r s + 1) mod KEYBOARD_QUEUE_LEN
      in if next \<noteq> keyboard_f s
         then s\<lparr>keyboard_queue := (keyboard_queue s)(keyboard_r s := scancode), keyboard_r := next\<rparr>
         else s)"

definition keyboard_enqueue :: "sdl_env \<Rightarrow> SDL_EventType \<Rightarrow> int \<Rightarrow> keyboard_state \<Rightarrow> keyboard_state" where
  "keyboard_enqueue sdl type key s =
     (if key < 0 \<or> key \<ge> sdlk_last sdl then s
      else let scancode = (if type = SDL_KEYUP
                           then upcode (SDLK_to_scancode (key_name sdl key))
                           else downcode (SDLK_to_scancode (key_name sdl key)))
      in if scancode = 0 then s else keyboard_push scancode s)"

definition check_kb :: "u32 \<Rightarrow> u32 \<Rightarrow> (keyboard_state, unit) op" where
  "check_kb addr len =
     seq_op (check_op Cpu_assert (addr \<le> KB_SIZE)) (check_op Cpu_assert (len = 4))"

definition kb_read :: "u32 \<Rightarrow> u32 \<Rightarrow> (keyboard_state, u32) op" where
  "kb_read addr len =
     seq_op (check_kb addr len)
    (if addr = KB_STAT then gets_op (\<lambda>s. if keyboard_f s = keyboard_r s then 0 else 1)
     else if addr = KB_CODE then
       bind_op (gets_op (\<lambda>s. word_of_int (keyboard_queue s (keyboard_f s)))) (\<lambda>code.
       seq_op (mod_op (\<lambda>s. s\<lparr>keyboard_f := (keyboard_f s + 1) mod KEYBOARD_QUEUE_LEN\<rparr>))
      (ok code))
     else raise Cpu_assert)"

section \<open>The scancode queue\<close>

definition kb_codes :: "keyboard_state \<Rightarrow> int list" where
  "kb_codes s = ring_contents KEYBOARD_QUEUE_LEN (keyboard_queue s) (keyboard_f s) (keyboard_r s)"

definition keyboard_wf :: "keyboard_state \<Rightarrow> bool" where
  "keyboard_wf s \<longleftrightarrow> keyboard_f s < KEYBOARD_QUEUE_LEN \<and> keyboard_r s < KEYBOARD_QUEUE_LEN"

definition keyboard_pop :: "keyboard_state \<Rightarrow> keyboard_state" where
  "keyboard_pop s = snd (kb_read KB_CODE 4 s)"

lemma kb_read_code:
  "kb_read KB_CODE 4 s = (Inr (word_of_int (keyboard_queue s (keyboard_f s))), keyboard_pop s)"
  by (simp add: keyboard_pop_def kb_read_def check_kb_def op_simps keyboard_const_defs)

lemma keyboard_pop_simp:
  "keyboard_pop s = s\<lparr>keyboard_f := (keyboard_f s + 1) mod KEYBOARD_QUEUE_LEN\<rparr>"
  by (simp add: keyboard_pop_def kb_read_def check_kb_def op_simps keyboard_const_defs)

interpretation kbq: ring_buffer keyboard_push keyboard_pop keyboard_queue keyboard_f keyboard_r
  "\<lambda>x. x" KEYBOARD_QUEUE_LEN
  by unfold_locales
    (auto simp: keyboard_push_def keyboard_pop_simp KEYBOARD_QUEUE_LEN_def Let_def)

lemma keyboard_enqueue_wf: "keyboard_wf s \<Longrightarrow> keyboard_wf (keyboard_enqueue sdl type key s)"
  using kbq.inv_enq [of s] by (simp add: keyboard_enqueue_def Let_def keyboard_wf_def)

lemma keyboard_enqueue_codes:
  assumes "keyboard_wf s" "0 \<le> key" "key < sdlk_last sdl"
    and "code = (if type = SDL_KEYUP then upcode (SDLK_to_scancode (key_name sdl key))
                 else downcode (SDLK_to_scancode (key_name sdl key)))"
  shows "kb_codes (keyboard_enqueue sdl type key s)
    = (if code = 0 then kb_codes s else take 1023 (kb_codes s @ [code]))"
  using assms kbq.items_enq [of s code]
  by (simp add: keyboard_enqueue_def Let_def kb_codes_def keyboard_wf_def KEYBOARD_QUEUE_LEN_def)

section \<open>Properties\<close>

text \<open>The break code that belongs to a make code: \<^verbatim>\<open>F0\<close> in front of the last byte.\<close>

definition break_code :: "int \<Rightarrow> int" where
  "break_code c = (if c = 0 then 0 else if c < 0x100 then 0xF000 + c else 0xE0F000 + c mod 0x100)"

lemma break_codes: "upcode (SDLK_to_scancode k) = break_code (downcode (SDLK_to_scancode k))"
proof -
  have "\<forall>(n, make, break) \<in> set scancode_table. break = break_code make"
    by (simp add: scancode_table_def break_code_def)
  then show ?thesis
    by (auto simp: SDLK_to_scancode_def break_code_def split: option.split dest!: map_of_SomeD)
qed

lemma break_code_nonzero: "break_code (downcode (SDLK_to_scancode k)) = 0 \<longleftrightarrow> downcode (SDLK_to_scancode k) = 0"
proof -
  have "\<forall>(n, make, break) \<in> set scancode_table. 0 \<le> make"
    by (simp add: scancode_table_def)
  then have "0 \<le> downcode (SDLK_to_scancode k)"
    by (auto simp: SDLK_to_scancode_def split: option.split dest!: map_of_SomeD)
  moreover have "0 \<le> downcode (SDLK_to_scancode k) mod 0x100" by simp
  ultimately show ?thesis
    unfolding break_code_def by (simp split: if_split) linarith
qed

lemma keyboard_init_wf: "keyboard_wf keyboard_init" "kb_codes keyboard_init = []"
  by (simp_all add: keyboard_wf_def keyboard_init_def KEYBOARD_QUEUE_LEN_def kb_codes_def ring_contents_def)

text \<open>
  C36: Pressing and releasing a key queues its make code and then the matching break code, when
  two places are free; a key without a code queues nothing.
\<close>

theorem key_press_release:
  assumes "keyboard_wf s" "0 \<le> key" "key < sdlk_last sdl" "length (kb_codes s) \<le> 1021"
    and "code = downcode (SDLK_to_scancode (key_name sdl key))"
  shows "kb_codes (keyboard_enqueue sdl SDL_KEYUP key (keyboard_enqueue sdl SDL_KEYDOWN key s))
    = kb_codes s @ (if code = 0 then [] else [code, break_code code])"
proof -
  let ?u = "keyboard_enqueue sdl SDL_KEYDOWN key s"
  have down: "kb_codes ?u = (if code = 0 then kb_codes s else kb_codes s @ [code])"
    using keyboard_enqueue_codes [OF assms(1-3), where type = SDL_KEYDOWN and code = code] assms(4,5) by simp
  with down show ?thesis
    using keyboard_enqueue_codes [OF keyboard_enqueue_wf [OF assms(1)] assms(2,3), where type = SDL_KEYUP and code = "break_code code"]
      assms(4,5) by (simp add: break_codes break_code_nonzero) 
qed

theorem key_press_release_witness:
  "kb_codes (keyboard_enqueue sdl_example SDL_KEYUP 273 (keyboard_enqueue sdl_example SDL_KEYDOWN 273 keyboard_init))
     = [0xE075, 0xE0F075]"
proof -
  have up: "downcode (SDLK_to_scancode ''SDLK_UP'') = 0xE075" by code_simp
  then show ?thesis
    using key_press_release [OF keyboard_init_wf(1), of 273 sdl_example "0xE075"]
    by (simp add: sdl_example_def keyboard_init_wf(2) break_code_def)
qed

text \<open>
  Reading the code register of an empty queue does not leave it empty: the front index moves
  past the rear index, and the status register then announces 1023 codes that nobody typed.
\<close>

lemma kb_read_empty:
  assumes "keyboard_wf s" "kb_codes s = []"
  shows "\<exists>v t. kb_read KB_CODE 4 s = (Inr v, t) \<and> length (kb_codes t) = 1023
    \<and> kb_read KB_STAT 4 t = (Inr 1, t)"
proof -
  have eq: "keyboard_f s = keyboard_r s" and less: "keyboard_f s < 1024"
    using assms ring_empty_iff [of "keyboard_f s" KEYBOARD_QUEUE_LEN "keyboard_r s" "keyboard_queue s"]
    by (simp_all add: keyboard_wf_def kb_codes_def KEYBOARD_QUEUE_LEN_def)
  let ?t = "keyboard_pop s"
  have f: "keyboard_f ?t = (keyboard_f s + 1) mod 1024" "keyboard_r ?t = keyboard_f s"
    by (simp_all add: keyboard_pop_simp eq KEYBOARD_QUEUE_LEN_def)
  then have "length (kb_codes ?t) = 1023" "keyboard_f ?t \<noteq> keyboard_r ?t"
    using less by (auto simp: kb_codes_def ring_length KEYBOARD_QUEUE_LEN_def mod_if)
  then show ?thesis
    by (intro exI conjI) (simp_all add: kb_read_code, simp add: kb_read_def check_kb_def op_simps keyboard_const_defs)
qed

end
