(* ===== verification/Emac.thy ===== *)
theory Emac
  imports Ram
begin

text \<open>
  The Ethernet controller \<^verbatim>\<open>src/dev/mac.c\<close>: the register file of an Xilinx
  emaclite, two MAC-address latches programmed from the transmit buffers, and an MDIO
  window to the registers of one PHY.

  \<^verbatim>\<open>struct emaclite_regs\<close> is 2048 words; a field is the word at its documented
  offset, and \<^verbatim>\<open>((u32*)&regs)[addr / 4]\<close> is \<open>emac_regs s (word_index addr)\<close>.
  The debugging output of the file is kept in \<open>emac_log\<close>.
\<close>

unbundle bit_operations_syntax

section \<open>Register offsets and masks\<close>

definition MAC_ADDR :: u32 where "MAC_ADDR = 0x1ff00000"
definition MAC_SIZE :: u32 where "MAC_SIZE = 0x10000"

definition ENET_ADDR_LENGTH :: nat where "ENET_ADDR_LENGTH = 6"
definition XEL_TSR_XMIT_BUSY_MASK :: u32 where "XEL_TSR_XMIT_BUSY_MASK = 0x00000001"
definition XEL_TSR_PROGRAM_MASK :: u32 where "XEL_TSR_PROGRAM_MASK = 0x00000002"
definition XEL_TSR_PROG_MAC_ADDR :: u32 where
  "XEL_TSR_PROG_MAC_ADDR = XEL_TSR_XMIT_BUSY_MASK OR XEL_TSR_PROGRAM_MASK"
definition XEL_MDIOCTRL_MDIOSTS_MASK :: u32 where "XEL_MDIOCTRL_MDIOSTS_MASK = 0x00000001"
definition PHY_DETECT_REG :: nat where "PHY_DETECT_REG = 1"
definition PHY_DETECT_MASK :: u16 where "PHY_DETECT_MASK = 0x1808"

definition TX_PING :: u32 where "TX_PING = 0x0"
definition MDIO_ADDR :: u32 where "MDIO_ADDR = 0x7e4"
definition MDIO_WR :: u32 where "MDIO_WR = 0x7e8"
definition MDIO_RD :: u32 where "MDIO_RD = 0x7ec"
definition MDIO_CTRL :: u32 where "MDIO_CTRL = 0x7f0"
definition TX_PING_TPLR :: u32 where "TX_PING_TPLR = 0x7f4"
definition TX_PING_TSR :: u32 where "TX_PING_TSR = 0x7fc"
definition TX_PONG :: u32 where "TX_PONG = 0x800"
definition TX_PONG_TPLR :: u32 where "TX_PONG_TPLR = 0xff4"
definition TX_PONG_TSR :: u32 where "TX_PONG_TSR = 0xffc"
definition RX_PING :: u32 where "RX_PING = 0x1000"
definition RX_PING_RSR :: u32 where "RX_PING_RSR = 0x17fc"
definition RX_PONG :: u32 where "RX_PONG = 0x1800"
definition RX_PONG_RSR :: u32 where "RX_PONG_RSR = 0x1ffc"

definition TX_PING_BUF_END :: u32 where "TX_PING_BUF_END = MDIO_ADDR - 4"
definition TX_PONG_BUF_END :: u32 where "TX_PONG_BUF_END = TX_PONG_TPLR - 4"
definition RX_PING_BUF_END :: u32 where "RX_PING_BUF_END = RX_PING_RSR - 4"
definition RX_PONG_BUF_END :: u32 where "RX_PONG_BUF_END = RX_PONG_RSR - 4"

definition MII_BMCR :: nat where "MII_BMCR = 0x00"
definition MII_BMSR :: nat where "MII_BMSR = 0x01"
definition MII_PHYSID1 :: nat where "MII_PHYSID1 = 0x02"
definition MII_PHYSID2 :: nat where "MII_PHYSID2 = 0x03"
definition MII_ADVERTISE :: nat where "MII_ADVERTISE = 0x04"
definition MII_LPA :: nat where "MII_LPA = 0x05"

definition BMCR_FULLDPLX :: u16 where "BMCR_FULLDPLX = 0x0100"
definition BMCR_ANENABLE :: u16 where "BMCR_ANENABLE = 0x1000"
definition BMCR_SPEED100 :: u16 where "BMCR_SPEED100 = 0x2000"
definition BMCR_RESET :: u16 where "BMCR_RESET = 0x8000"

definition BMSR_ERCAP :: u16 where "BMSR_ERCAP = 0x0001"
definition BMSR_LSTATUS :: u16 where "BMSR_LSTATUS = 0x0004"
definition BMSR_ANEGCAPABLE :: u16 where "BMSR_ANEGCAPABLE = 0x0008"
definition BMSR_ANEGCOMPLETE :: u16 where "BMSR_ANEGCOMPLETE = 0x0020"
definition BMSR_10HALF :: u16 where "BMSR_10HALF = 0x0800"
definition BMSR_10FULL :: u16 where "BMSR_10FULL = 0x1000"
definition BMSR_100HALF :: u16 where "BMSR_100HALF = 0x2000"
definition BMSR_100FULL :: u16 where "BMSR_100FULL = 0x4000"

definition ADVERTISE_CSMA :: u16 where "ADVERTISE_CSMA = 0x0001"
definition ADVERTISE_10HALF :: u16 where "ADVERTISE_10HALF = 0x0020"
definition ADVERTISE_10FULL :: u16 where "ADVERTISE_10FULL = 0x0040"
definition ADVERTISE_100HALF :: u16 where "ADVERTISE_100HALF = 0x0080"
definition ADVERTISE_100FULL :: u16 where "ADVERTISE_100FULL = 0x0100"

definition LPA_10HALF :: u16 where "LPA_10HALF = 0x0020"
definition LPA_10FULL :: u16 where "LPA_10FULL = 0x0040"
definition LPA_100HALF :: u16 where "LPA_100HALF = 0x0080"
definition LPA_1000XPAUSE_ASYM :: u16 where "LPA_1000XPAUSE_ASYM = 0x0100"
definition LPA_PAUSE_CAP :: u16 where "LPA_PAUSE_CAP = 0x0400"
definition LPA_PAUSE_ASYM :: u16 where "LPA_PAUSE_ASYM = 0x0800"
definition LPA_LPACK :: u16 where "LPA_LPACK = 0x4000"

definition ACTIVE_PHY :: nat where "ACTIVE_PHY = 1"

lemmas emac_mask_defs = XEL_TSR_XMIT_BUSY_MASK_def XEL_TSR_PROGRAM_MASK_def
  XEL_TSR_PROG_MAC_ADDR_def XEL_MDIOCTRL_MDIOSTS_MASK_def ENET_ADDR_LENGTH_def

lemmas emac_offset_defs = MAC_SIZE_def TX_PING_def MDIO_ADDR_def MDIO_WR_def MDIO_RD_def
  MDIO_CTRL_def TX_PING_TPLR_def TX_PING_TSR_def TX_PONG_def TX_PONG_TPLR_def TX_PONG_TSR_def
  RX_PING_def RX_PING_RSR_def RX_PONG_def RX_PONG_RSR_def TX_PING_BUF_END_def
  TX_PONG_BUF_END_def RX_PING_BUF_END_def RX_PONG_BUF_END_def

lemmas mii_defs = MII_BMCR_def MII_BMSR_def MII_PHYSID1_def MII_PHYSID2_def MII_ADVERTISE_def
  MII_LPA_def PHY_DETECT_REG_def PHY_DETECT_MASK_def ACTIVE_PHY_def

section \<open>State\<close>

record emac_state =
  emac_regs :: "nat \<Rightarrow> u32"
  phy_regs :: "nat \<Rightarrow> nat \<Rightarrow> u16"
  mii_inited :: bool
  ping_mac :: "nat \<Rightarrow> u8"
  pong_mac :: "nat \<Rightarrow> u8"
  emac_log :: "string list"

definition emac_init :: emac_state where
  "emac_init = \<lparr>emac_regs = (\<lambda>_. 0), phy_regs = (\<lambda>_ _. 0), mii_inited = False,
     ping_mac = (\<lambda>_. 0), pong_mac = (\<lambda>_. 0), emac_log = []\<rparr>"

definition word_index :: "u32 \<Rightarrow> nat" where
  "word_index addr = unat addr div 4"

definition emac_reg :: "u32 \<Rightarrow> emac_state \<Rightarrow> u32" where
  "emac_reg off s = emac_regs s (word_index off)"

definition set_emac_reg :: "u32 \<Rightarrow> u32 \<Rightarrow> emac_state \<Rightarrow> emac_state" where
  "set_emac_reg off v s = s\<lparr>emac_regs := (emac_regs s)(word_index off := v)\<rparr>"

definition set_phy_reg :: "nat \<Rightarrow> nat \<Rightarrow> u16 \<Rightarrow> emac_state \<Rightarrow> emac_state" where
  "set_phy_reg phy reg v s =
     s\<lparr>phy_regs := (phy_regs s)(phy := (phy_regs s phy)(reg := v))\<rparr>"

definition emac_print :: "string \<Rightarrow> emac_state \<Rightarrow> emac_state" where
  "emac_print msg s = s\<lparr>emac_log := emac_log s @ [msg]\<rparr>"

section \<open>The MDIO window\<close>

text \<open>The bit-fields of \<open>mdio_addr_t\<close>.\<close>

definition mdio_regnum :: "u32 \<Rightarrow> nat" where
  "mdio_regnum w = unat (w AND 0x1F)"

definition mdio_phyaddr :: "u32 \<Rightarrow> nat" where
  "mdio_phyaddr w = unat (drop_bit 5 w AND 0x1F)"

definition mdio_op :: "u32 \<Rightarrow> u32" where
  "mdio_op w = drop_bit 10 w AND 1"

text \<open>The power-on values, written at the first transaction.\<close>

definition mii_init :: "emac_state \<Rightarrow> emac_state" where
  "mii_init s =
     (if \<not> mii_inited s then
        let s = set_phy_reg ACTIVE_PHY MII_PHYSID1 0x181 s;
            s = set_phy_reg ACTIVE_PHY MII_PHYSID2 0xb8a0 s;
            s = set_phy_reg ACTIVE_PHY PHY_DETECT_REG PHY_DETECT_MASK s;
            s = set_phy_reg ACTIVE_PHY MII_BMCR (BMCR_SPEED100 OR BMCR_ANENABLE OR BMCR_FULLDPLX) s;
            s = set_phy_reg ACTIVE_PHY MII_BMSR (BMSR_100FULL OR BMSR_100HALF OR BMSR_10FULL
                  OR BMSR_10HALF OR BMSR_ANEGCAPABLE OR BMSR_ERCAP OR 0x40) s;
            s = set_phy_reg ACTIVE_PHY MII_ADVERTISE (ADVERTISE_100FULL OR ADVERTISE_100HALF
                  OR ADVERTISE_10FULL OR ADVERTISE_10HALF OR ADVERTISE_CSMA) s;
            s = set_phy_reg ACTIVE_PHY MII_LPA (LPA_LPACK OR LPA_PAUSE_ASYM OR LPA_PAUSE_CAP
                  OR LPA_1000XPAUSE_ASYM OR LPA_100HALF OR LPA_10FULL OR LPA_10HALF OR 0x1) s
        in s\<lparr>mii_inited := True\<rparr>
      else s)"

definition mii_write :: "nat \<Rightarrow> nat \<Rightarrow> u16 \<Rightarrow> (emac_state, unit) op" where
  "mii_write phy reg data =
     (if phy \<noteq> ACTIVE_PHY then ok ()
      else seq_op (mod_op (emac_print (''MDIO write('' @ fmt_d (int phy) @ '', '' @ fmt_d (int reg)
                     @ '') = '' @ fmt_x (ucast data) @ newline)))
       (if reg = MII_BMCR then
          if data AND BMCR_RESET \<noteq> 0 then
            mod_op (\<lambda>s.
              let s = emac_print (''data reset, new sr:'' @ fmt_x (ucast (phy_regs s phy MII_BMSR)) @ newline) s;
                  s = set_phy_reg phy MII_BMSR
                        (phy_regs s phy MII_BMSR OR (BMSR_ANEGCOMPLETE OR BMSR_LSTATUS)) s
              in emac_print (''data reset, new sr:'' @ fmt_x (ucast (phy_regs s phy MII_BMSR)) @ newline) s)
          else mod_op (set_phy_reg phy reg data)
        else raise Cpu_assert))"

definition mii_read :: "nat \<Rightarrow> nat \<Rightarrow> emac_state \<Rightarrow> emac_state" where
  "mii_read phy reg s =
     (let s = set_emac_reg MDIO_RD (ucast (phy_regs s phy reg)) s
      in emac_print (''MDIO read('' @ fmt_d (int phy) @ '', '' @ fmt_d (int reg)
           @ '') = '' @ fmt_x (emac_reg MDIO_RD s) @ newline) s)"

definition mii_transaction :: "(emac_state, unit) op" where
  "mii_transaction =
     seq_op (mod_op mii_init)
    (bind_op (gets_op (emac_reg MDIO_ADDR)) (\<lambda>mdio_addr.
     let phy = mdio_phyaddr mdio_addr; reg = mdio_regnum mdio_addr
     in if mdio_op mdio_addr = 0
        then bind_op (gets_op (\<lambda>s. ucast (emac_reg MDIO_WR s) :: u16)) (mii_write phy reg)
        else mod_op (mii_read phy reg)))"

section \<open>Register accesses\<close>

definition check_mac :: "u32 \<Rightarrow> u32 \<Rightarrow> (emac_state, unit) op" where
  "check_mac addr len = check_op Cpu_assert (addr < MAC_SIZE \<and> addr + len \<le> MAC_SIZE)"

definition mac_read :: "u32 \<Rightarrow> u32 \<Rightarrow> (emac_state, u32) op" where
  "mac_read addr len =
     seq_op (check_mac addr len)
    (if addr = TX_PING_TSR then gets_op (emac_reg TX_PING_TSR)
     else if addr = TX_PONG_TSR then gets_op (emac_reg TX_PONG_TSR)
     else if RX_PING \<le> addr \<and> addr \<le> RX_PING_BUF_END then gets_op (emac_reg addr)
     else if RX_PONG \<le> addr \<and> addr \<le> RX_PONG_BUF_END then gets_op (emac_reg addr)
     else if addr = MDIO_RD then gets_op (emac_reg MDIO_RD)
     else if addr = MDIO_CTRL then gets_op (emac_reg MDIO_CTRL)
     else raise Cpu_assert)"

text \<open>\<open>memcpy\<close> of \<open>len\<close> bytes from a transmit buffer into a six-byte address.\<close>

definition copy_mac_addr :: "u32 \<Rightarrow> u32 \<Rightarrow> emac_state \<Rightarrow> (nat \<Rightarrow> u8) \<Rightarrow> fault + (nat \<Rightarrow> u8)" where
  "copy_mac_addr off len s mac =
     (if ENET_ADDR_LENGTH < unat len then Inl (Ub Out_of_bounds)
      else Inr (\<lambda>j. if j < unat len
                    then ucast (drop_bit (8 * (j mod 4)) (emac_regs s (word_index off + j div 4)))
                    else mac j))"

definition mac_write :: "u32 \<Rightarrow> u32 \<Rightarrow> u32 \<Rightarrow> (emac_state, unit) op" where
  "mac_write addr len data =
     seq_op (check_mac addr len)
    (if addr = TX_PING_TSR then
       seq_op (mod_op (set_emac_reg TX_PING_TSR data))
      (seq_op (mod_op (\<lambda>s. emac_print (''tx_ping.tplr is '' @ fmt_d (sint (emac_reg TX_PING_TPLR s))
                 @ '', write '' @ fmt_x data @ newline) s))
      (bind_op (gets_op (emac_reg TX_PING_TSR)) (\<lambda>tsr.
       if tsr AND XEL_TSR_PROGRAM_MASK \<noteq> 0 then
         bind_op (gets_op (\<lambda>s. s)) (\<lambda>s.
         bind_op (lift_op (copy_mac_addr TX_PING (emac_reg TX_PING_TPLR s) s (ping_mac s))) (\<lambda>m.
         seq_op (mod_op (\<lambda>s. s\<lparr>ping_mac := m\<rparr>))
        (mod_op (\<lambda>s. set_emac_reg TX_PING_TSR (emac_reg TX_PING_TSR s AND NOT XEL_TSR_PROG_MAC_ADDR) s))))
       else ok ())))
     else if addr = TX_PONG_TSR then
       seq_op (mod_op (set_emac_reg TX_PONG_TSR data))
      (bind_op (gets_op (emac_reg TX_PONG_TSR)) (\<lambda>tsr.
       if tsr AND XEL_TSR_PROG_MAC_ADDR \<noteq> 0 then
         bind_op (gets_op (\<lambda>s. s)) (\<lambda>s.
         bind_op (lift_op (copy_mac_addr TX_PONG (emac_reg TX_PONG_TPLR s) s (pong_mac s))) (\<lambda>m.
         seq_op (mod_op (\<lambda>s. s\<lparr>pong_mac := m\<rparr>))
        (mod_op (\<lambda>s. set_emac_reg TX_PONG_TSR (emac_reg TX_PONG_TSR s AND NOT XEL_TSR_PROG_MAC_ADDR) s))))
       else ok ()))
     else if addr = TX_PING_TPLR then mod_op (set_emac_reg TX_PING_TPLR data)
     else if addr = TX_PONG_TPLR then mod_op (set_emac_reg TX_PONG_TPLR data)
     else if addr \<le> TX_PING_BUF_END then mod_op (set_emac_reg addr data)
     else if TX_PONG \<le> addr \<and> addr \<le> TX_PONG_BUF_END then mod_op (set_emac_reg addr data)
     else if addr = RX_PING_RSR then mod_op (set_emac_reg RX_PING_RSR data)
     else if addr = RX_PONG_RSR then mod_op (set_emac_reg RX_PONG_RSR data)
     else if addr = MDIO_CTRL then
       seq_op (mod_op (set_emac_reg MDIO_CTRL data))
      (bind_op (gets_op (emac_reg MDIO_CTRL)) (\<lambda>ctrl.
       if ctrl AND XEL_MDIOCTRL_MDIOSTS_MASK \<noteq> 0 then
         seq_op mii_transaction
        (mod_op (\<lambda>s. set_emac_reg MDIO_CTRL (emac_reg MDIO_CTRL s AND NOT XEL_MDIOCTRL_MDIOSTS_MASK) s))
       else ok ()))
     else if addr = MDIO_ADDR then mod_op (set_emac_reg MDIO_ADDR data)
     else if addr = MDIO_WR then mod_op (set_emac_reg MDIO_WR data)
     else raise Cpu_assert)"

section \<open>Lemmas\<close>

lemma word_index_consts [simp]:
  "word_index MDIO_ADDR = 505" "word_index MDIO_WR = 506" "word_index MDIO_RD = 507"
  "word_index MDIO_CTRL = 508" "word_index TX_PING_TPLR = 509" "word_index TX_PING_TSR = 511"
  "word_index TX_PONG_TPLR = 1021" "word_index TX_PONG_TSR = 1023"
  "word_index RX_PING_RSR = 1535" "word_index RX_PONG_RSR = 2047"
  "word_index TX_PING = 0" "word_index TX_PONG = 512"
  by (simp_all add: word_index_def emac_offset_defs)

lemma emac_reg_set [simp]:
  "emac_reg off' (set_emac_reg off v s) = (if word_index off' = word_index off then v else emac_reg off' s)"
  by (simp add: emac_reg_def set_emac_reg_def)

lemma emac_reg_frame [simp]:
  "emac_reg off (set_phy_reg phy reg w s) = emac_reg off s"
  "emac_reg off (emac_print msg s) = emac_reg off s"
  "emac_reg off (mii_init s) = emac_reg off s"
  "emac_reg off (s\<lparr>ping_mac := m\<rparr>) = emac_reg off s"
  "emac_reg off (s\<lparr>pong_mac := m\<rparr>) = emac_reg off s"
  by (simp_all add: emac_reg_def set_phy_reg_def emac_print_def mii_init_def Let_def)

lemma phy_regs_frame [simp]:
  "phy_regs (set_emac_reg off v s) = phy_regs s"
  "phy_regs (emac_print msg s) = phy_regs s"
  "phy_regs (s\<lparr>ping_mac := m\<rparr>) = phy_regs s"
  "phy_regs (s\<lparr>pong_mac := m\<rparr>) = phy_regs s"
  by (simp_all add: set_emac_reg_def emac_print_def)

lemma emac_regs_frame [simp]:
  "emac_regs (set_phy_reg phy reg w s) = emac_regs s"
  "emac_regs (emac_print msg s) = emac_regs s"
  "emac_regs (mii_init s) = emac_regs s"
  "emac_regs (set_emac_reg off v s) = (emac_regs s)(word_index off := v)"
  by (simp_all add: set_phy_reg_def emac_print_def mii_init_def Let_def set_emac_reg_def)

lemma phy_regs_set_phy [simp]:
  "phy_regs (set_phy_reg phy reg w s) = (phy_regs s)(phy := (phy_regs s phy)(reg := w))"
  by (simp add: set_phy_reg_def)

lemma phy_regs_init_frame [simp]:
  "phy_regs (mii_init (set_emac_reg off v s)) = phy_regs (mii_init s)"
  by (simp add: mii_init_def Let_def set_phy_reg_def set_emac_reg_def)

text \<open>The words of the two receive buffers: no write to the device reaches them.\<close>

definition rx_buffer_word :: "nat \<Rightarrow> bool" where
  "rx_buffer_word i \<longleftrightarrow> 1024 \<le> i \<and> i < 2047 \<and> i \<noteq> 1535"

definition same_rx :: "(nat \<Rightarrow> u32) \<Rightarrow> emac_state \<Rightarrow> bool" where
  "same_rx g s \<longleftrightarrow> (\<forall>i. rx_buffer_word i \<longrightarrow> emac_regs s i = g i)"

lemma same_rx_frame [simp]:
  "same_rx g (set_phy_reg phy reg w s) = same_rx g s"
  "same_rx g (emac_print msg s) = same_rx g s"
  "same_rx g (mii_init s) = same_rx g s"
  "same_rx g (s\<lparr>ping_mac := m\<rparr>) = same_rx g s"
  "same_rx g (s\<lparr>pong_mac := m\<rparr>) = same_rx g s"
  by (simp_all add: same_rx_def)

lemma same_rx_set:
  "\<not> rx_buffer_word (word_index off) \<Longrightarrow> same_rx g s \<Longrightarrow> same_rx g (set_emac_reg off v s)"
  by (auto simp: same_rx_def)

lemma mii_transaction_rx: "keeps (same_rx g) mii_transaction"
  by (auto simp: keeps_wp wp_simps mii_transaction_def mii_write_def mii_read_def Let_def
      rx_buffer_word_def intro!: same_rx_set)

lemma tx_word_index:
  "addr \<le> TX_PING_BUF_END \<Longrightarrow> word_index addr < 1024"
  "addr \<le> TX_PONG_BUF_END \<Longrightarrow> word_index addr < 1024"
  by (auto simp: word_index_def emac_offset_defs word_le_nat_alt)

lemma tx_not_rx:
  "addr \<le> TX_PING_BUF_END \<Longrightarrow> \<not> rx_buffer_word (word_index addr)"
  "addr \<le> TX_PONG_BUF_END \<Longrightarrow> \<not> rx_buffer_word (word_index addr)"
  using tx_word_index [of addr] by (auto simp: rx_buffer_word_def)

lemma not_rx_consts [simp]:
  "\<not> rx_buffer_word 505" "\<not> rx_buffer_word 506" "\<not> rx_buffer_word 507" "\<not> rx_buffer_word 508"
  "\<not> rx_buffer_word 509" "\<not> rx_buffer_word 511" "\<not> rx_buffer_word 1021"
  "\<not> rx_buffer_word 1023" "\<not> rx_buffer_word 1535" "\<not> rx_buffer_word 2047"
  by (simp_all add: rx_buffer_word_def)

lemma mac_write_rx: "keeps (same_rx g) (mac_write addr len data)"
  unfolding mac_write_def check_mac_def Let_def
  by (intro keeps_rules mii_transaction_rx)
    (auto intro!: same_rx_set simp: tx_not_rx)

lemma mac_read_rx: "keeps (same_rx g) (mac_read addr len)"
  unfolding mac_read_def check_mac_def by (intro keeps_rules)

lemma mac_write_mdio_addr: "mac_write MDIO_ADDR 4 a s = (Inr (), set_emac_reg MDIO_ADDR a s)"
  by (simp add: mac_write_def check_mac_def emac_offset_defs op_simps)

lemma mac_write_mdio_wr: "mac_write MDIO_WR 4 a s = (Inr (), set_emac_reg MDIO_WR a s)"
  by (simp add: mac_write_def check_mac_def emac_offset_defs op_simps)

lemma mac_write_mdio_ctrl:
  "mac_write MDIO_CTRL 4 c s =
    (let s' = set_emac_reg MDIO_CTRL c s
     in if c AND 1 \<noteq> 0 then
       (case mii_transaction s' of (Inl e, t) \<Rightarrow> (Inl e, t)
        | (Inr _, t) \<Rightarrow> (Inr (), set_emac_reg MDIO_CTRL (emac_reg MDIO_CTRL t AND NOT 1) t))
     else (Inr (), s'))"
  by (simp add: mac_write_def check_mac_def emac_offset_defs op_simps Let_def
      XEL_MDIOCTRL_MDIOSTS_MASK_def word_index_def split: sum.split prod.split)

lemma mac_read_mdio:
  "mac_read MDIO_RD 4 s = (Inr (emac_reg MDIO_RD s), s)"
  "mac_read MDIO_CTRL 4 s = (Inr (emac_reg MDIO_CTRL s), s)"
  by (simp_all add: mac_read_def check_mac_def emac_offset_defs op_simps)

section \<open>Properties\<close>

text \<open>A driver's access to register \<open>reg\<close> of the active PHY: address, data, start.\<close>

definition mdio_put :: "u32 \<Rightarrow> u32 \<Rightarrow> (emac_state, unit) op" where
  "mdio_put reg data =
     seq_op (mac_write MDIO_ADDR 4 (0x20 OR reg))
    (seq_op (mac_write MDIO_WR 4 data) (mac_write MDIO_CTRL 4 1))"

definition mdio_get :: "u32 \<Rightarrow> (emac_state, u32) op" where
  "mdio_get reg =
     seq_op (mac_write MDIO_ADDR 4 (0x420 OR reg))
    (seq_op (mac_write MDIO_CTRL 4 1) (mac_read MDIO_RD 4))"

lemma mdio_fields:
  "mdio_phyaddr 32 = Suc 0" "mdio_phyaddr 1056 = Suc 0" "mdio_phyaddr 1057 = Suc 0"
  "mdio_regnum 32 = 0" "mdio_regnum 1056 = 0" "mdio_regnum 1057 = Suc 0"
  "mdio_op 32 = 0" "mdio_op 1056 = 1" "mdio_op 1057 = 1"
  by (simp_all add: mdio_phyaddr_def mdio_regnum_def mdio_op_def)

lemma phy_regs_again [simp]:
  "mii_inited (set_emac_reg off v s) = mii_inited s" "mii_inited (emac_print msg s) = mii_inited s"
  "mii_inited (set_phy_reg phy reg w s) = mii_inited s" "mii_inited (mii_init s)"
  "mii_inited s \<Longrightarrow> mii_init s = s"
  by (simp_all add: set_emac_reg_def emac_print_def set_phy_reg_def mii_init_def Let_def)

lemma reset_bit: "(ucast data :: u16) AND BMCR_RESET \<noteq> 0 \<longleftrightarrow> bit (data :: u32) 15"
proof -
  have "(0x8000 :: int) = 2 ^ 15" by simp
  then have top: "bit (0x8000 :: int) n \<longleftrightarrow> n = 15" for n
    by (simp only: bit_exp_iff) auto
  have "(ucast data :: u16) AND BMCR_RESET = (if bit data 15 then BMCR_RESET else 0)"
    by (rule bit_word_eqI) (auto simp: BMCR_RESET_def top bit_simps)
  then show ?thesis by (simp add: BMCR_RESET_def)
qed

text \<open>One transaction of each kind, in a state where the address register is set.\<close>

lemma mdio_put_run:
  "\<exists>t. mdio_put 0 data s = (Inr (), t) \<and> mii_inited t
    \<and> phy_regs t 1 0 = (if bit data 15 then phy_regs (mii_init s) 1 0 else ucast data)
    \<and> phy_regs t 1 1 = (if bit data 15
        then phy_regs (mii_init s) 1 1 OR (BMSR_ANEGCOMPLETE OR BMSR_LSTATUS) else phy_regs (mii_init s) 1 1)"
  by (simp add: mdio_put_def op_simps mac_write_mdio_addr mac_write_mdio_ctrl mac_write_mdio_wr
      mii_transaction_def mdio_fields mii_write_def Let_def reset_bit ACTIVE_PHY_def MII_BMCR_def MII_BMSR_def)

lemma mdio_get_run:
  assumes "reg \<in> {0, 1}" "mii_inited s"
  shows "\<exists>t. mdio_get reg s = (Inr (ucast (phy_regs s 1 (unat reg))), t)"
  using assms
  by (auto simp: mdio_get_def op_simps mac_write_mdio_addr mac_write_mdio_ctrl mac_read_mdio
      mii_transaction_def mdio_fields mii_read_def Let_def)

lemma ping_mac_frame [simp]:
  "ping_mac (set_emac_reg off v s) = ping_mac s" "ping_mac (emac_print msg s) = ping_mac s"
  by (simp_all add: set_emac_reg_def emac_print_def)

text \<open>
  C27: What is written to the control register of the active PHY over MDIO is read back; a write
  with the reset bit leaves the register alone and instead raises link and negotiation-complete
  in the status register.
\<close>

theorem mdio_write_read:
  "\<exists>t u. mdio_put 0 data s = (Inr (), t)
    \<and> (if bit data 15
       then mdio_get 0 t = (Inr (ucast (phy_regs (mii_init s) 1 0)), u)
         \<and> (\<exists>v w. mdio_get 1 t = (Inr v, w) \<and> bit v 2 \<and> bit v 5)
       else mdio_get 0 t = (Inr (take_bit 16 data), u))"
proof -
  obtain t where t: "mdio_put 0 data s = (Inr (), t)" "mii_inited t"
    "phy_regs t 1 0 = (if bit data 15 then phy_regs (mii_init s) 1 0 else ucast data)"
    "phy_regs t 1 1 = (if bit data 15
        then phy_regs (mii_init s) 1 1 OR (BMSR_ANEGCOMPLETE OR BMSR_LSTATUS) else phy_regs (mii_init s) 1 1)"
    using mdio_put_run [of data s] by blast
  obtain u where u: "mdio_get 0 t = (Inr (ucast (phy_regs t 1 0)), u)"
    using mdio_get_run [of 0 t] t(2) by auto
  obtain w where w: "mdio_get 1 t = (Inr (ucast (phy_regs t 1 1)), w)"
    using mdio_get_run [of 1 t] t(2) by auto
  have "bit (ucast (phy_regs t 1 1) :: u32) 2" "bit (ucast (phy_regs t 1 1) :: u32) 5" if "bit data 15"
    using that t(4) by (simp_all add: bit_simps BMSR_ANEGCOMPLETE_def BMSR_LSTATUS_def)
  moreover have "(ucast (ucast data :: u16) :: u32) = take_bit 16 data"
    by (rule bit_word_eqI) (auto simp: bit_simps)
  ultimately show ?thesis using t(1,3) u w by auto
qed

text \<open>
  C28: Programming the address of the ping buffer copies as many bytes as the length register
  says, whatever that is: up to six of them become the address and the request bits are
  cleared, any more are written past its end.
\<close>

theorem mac_address_programmed:
  assumes "bit data 1" "n = emac_reg TX_PING_TPLR s"
  shows "if unat n \<le> 6
    then \<exists>t. mac_write TX_PING_TSR 4 data s = (Inr (), t)
      \<and> (\<forall>j < unat n. ping_mac t j = ucast (drop_bit (8 * (j mod 4)) (emac_regs s (j div 4))))
      \<and> (\<forall>j \<ge> unat n. ping_mac t j = ping_mac s j)
      \<and> emac_reg TX_PING_TSR t = data AND NOT XEL_TSR_PROG_MAC_ADDR
    else \<exists>t. mac_write TX_PING_TSR 4 data s = (Inl (Ub Out_of_bounds), t)"
proof -
  have "bit (data AND XEL_TSR_PROGRAM_MASK) 1"
    using assms(1) by (simp add: XEL_TSR_PROGRAM_MASK_def bit_simps)
  then have prog: "data AND XEL_TSR_PROGRAM_MASK \<noteq> 0" by auto
  have "TX_PING_TSR < MAC_SIZE \<and> TX_PING_TSR + 4 \<le> MAC_SIZE" by (simp add: emac_offset_defs)
  then show ?thesis
    using prog assms(2)
    by (auto simp: mac_write_def check_mac_def op_simps copy_mac_addr_def ENET_ADDR_LENGTH_def)
qed

theorem mac_address_programmed_witness:
  "\<exists>t. mac_write TX_PING_TSR 4 3 (set_emac_reg TX_PING_TPLR 1500 emac_init) = (Inl (Ub Out_of_bounds), t)"
  using mac_address_programmed [of 3 1500 "set_emac_reg TX_PING_TPLR 1500 emac_init"] by simp

end
