(* ===== verification/Video.thy ===== *)
theory Video
  imports Ram
begin

text \<open>
  The frame buffer \<^verbatim>\<open>src/dev/video.c\<close>: a RAM device holding 16-bit pixels of a
  400 by 300 screen, and the periodic copy of every pixel to a 2 by 2 block of the window.
  \<open>pixels\<close> is the surface memory that SDL hands out, indexed by row and column; \<open>flips\<close>
  counts the calls of \<^verbatim>\<open>SDL_Flip\<close>.
\<close>

unbundle bit_operations_syntax

definition VGA_BASE :: u32 where "VGA_BASE = 0x10400000"
definition VGA_SIZE :: u32 where "VGA_SIZE = 0x100000"
definition SCR_W :: nat where "SCR_W = 400"
definition SCR_H :: nat where "SCR_H = 300"
definition WINDOW_W :: nat where "WINDOW_W = SCR_W * 2"
definition WINDOW_H :: nat where "WINDOW_H = SCR_H * 2"
definition VMEM_SIZE :: u32 where "VMEM_SIZE = of_nat (4 * WINDOW_H * WINDOW_W)"

lemma video_consts [simp]:
  "VGA_BASE = 0x10400000" "VGA_SIZE = 0x100000" "SCR_W = 400" "SCR_H = 300"
  "WINDOW_W = 800" "WINDOW_H = 600" "VMEM_SIZE = 1920000"
  by (simp_all add: VGA_BASE_def VGA_SIZE_def SCR_W_def SCR_H_def WINDOW_W_def WINDOW_H_def
      VMEM_SIZE_def)

record video_state =
  vmem :: bytes
  pixels :: "nat \<Rightarrow> nat \<Rightarrow> u32"
  flips :: nat

section \<open>Memory accesses\<close>

definition check_vga :: "u32 \<Rightarrow> u32 \<Rightarrow> (video_state, unit) op" where
  "check_vga addr len = check_op Cpu_assert (addr < VMEM_SIZE \<and> addr + len \<le> VMEM_SIZE)"

definition vga_read :: "u32 \<Rightarrow> u32 \<Rightarrow> (video_state, u32) op" where
  "vga_read addr len =
     seq_op (check_vga addr len)
    (bind_op (gets_op vmem) (\<lambda>buf.
     lift_op (read_masked_word (unat VMEM_SIZE) buf addr len)))"

definition vga_write :: "u32 \<Rightarrow> u32 \<Rightarrow> u32 \<Rightarrow> (video_state, unit) op" where
  "vga_write addr len data =
     seq_op (check_vga addr len)
    (bind_op (gets_op vmem) (\<lambda>buf.
     bind_op (lift_op (write_masked_word (unat VMEM_SIZE) buf addr len data)) (\<lambda>buf'.
     mod_op (\<lambda>s. s\<lparr>vmem := buf'\<rparr>))))"

lemma vga_range_iff:
  "access_width len \<Longrightarrow> addr < 1920000 \<and> addr + len \<le> 1920000 \<longleftrightarrow> unat addr + unat len \<le> 1920000"
  using range_check_iff [of len "1920000" addr] by simp

interpretation vga_ram: ram_device vga_read vga_write vmem "unat VMEM_SIZE"
proof unfold_locales
  fix n a :: u32 and s
  assume n: "access_width n"
  then have le: "unat n \<le> 4" by (auto simp: access_width_def)
  note defs = vga_read_def vga_write_def check_vga_def op_simps vga_range_iff [OF n]
  show "unat a + 4 \<le> unat VMEM_SIZE \<Longrightarrow> vga_read a n s = (Inr (load_le (vmem s) (unat a) (unat n)), s)"
    using n le by (simp add: defs read_masked_word_inside)
  show "unat VMEM_SIZE < unat a + unat n \<Longrightarrow> vga_read a n s = (Inl Cpu_assert, s)"
    by (simp add: defs)
  fix d
  show "unat a + unat n \<le> unat VMEM_SIZE \<Longrightarrow> fst (vga_write a n d s) = Inr ()"
    using n by (simp add: defs write_masked_word_inside)
  show "unat a + unat n \<le> unat VMEM_SIZE \<Longrightarrow>
      vmem (snd (vga_write a n d s)) = store_le (vmem s) (unat a) (unat n) d"
    using n by (simp add: defs write_masked_word_inside)
  show "unat VMEM_SIZE < unat a + unat n \<Longrightarrow> vga_write a n d s = (Inl Cpu_assert, s)"
    by (simp add: defs)
qed

section \<open>Refreshing the window\<close>

definition RGB_M12_to_M32 :: "u32 \<Rightarrow> u32" where
  "RGB_M12_to_M32 color =
     0xFF000000
       OR push_bit (8 + 4) (color AND 0xF00)
       OR push_bit (4 + 4) (color AND 0x0F0)
       OR push_bit (0 + 4) (color AND 0x00F)"

definition draw_pixel :: "nat \<Rightarrow> nat \<Rightarrow> u32 \<Rightarrow> (video_state, unit) op" where
  "draw_pixel x y color =
     seq_op (check_op Assert_abort (x < WINDOW_W \<and> y < WINDOW_H))
    (mod_op (\<lambda>s. s\<lparr>pixels := (pixels s)(y := (pixels s y)(x := RGB_M12_to_M32 color))\<rparr>))"

text \<open>\<open>vmem_ptr[i][j]\<close>: the pixel in row \<open>i\<close>, column \<open>j\<close>, a little-endian halfword.\<close>

definition vmem_pixel :: "bytes \<Rightarrow> nat \<Rightarrow> nat \<Rightarrow> u32" where
  "vmem_pixel v i j = load_le v (2 * (i * SCR_W + j)) 2"

definition update_pixel :: "nat \<Rightarrow> nat \<Rightarrow> (video_state, unit) op" where
  "update_pixel i j =
     bind_op (gets_op (\<lambda>s. vmem_pixel (vmem s) i j)) (\<lambda>color.
     seq_op (draw_pixel (2 * j) (2 * i) color)
    (seq_op (draw_pixel (2 * j) (2 * i + 1) color)
    (seq_op (draw_pixel (2 * j + 1) (2 * i) color)
            (draw_pixel (2 * j + 1) (2 * i + 1) color))))"

definition update_screen :: "(video_state, unit) op" where
  "update_screen =
     seq_op (for_op [0..<SCR_H] (\<lambda>i. for_op [0..<SCR_W] (\<lambda>j. update_pixel i j)))
    (mod_op (\<lambda>s. s\<lparr>flips := flips s + 1\<rparr>))"

text \<open>
  The picture after some of the pixels of row \<open>i\<close> (columns in \<open>js\<close>), and after some of the
  rows (in \<open>is\<close>), have been copied on top of a picture \<open>p\<close>.
\<close>

definition row_drawn :: "bytes \<Rightarrow> nat \<Rightarrow> nat set \<Rightarrow> (nat \<Rightarrow> nat \<Rightarrow> u32) \<Rightarrow> nat \<Rightarrow> nat \<Rightarrow> u32" where
  "row_drawn v i js p y x =
     (if y div 2 = i \<and> x div 2 \<in> js then RGB_M12_to_M32 (vmem_pixel v i (x div 2)) else p y x)"

definition rows_drawn :: "bytes \<Rightarrow> nat set \<Rightarrow> (nat \<Rightarrow> nat \<Rightarrow> u32) \<Rightarrow> nat \<Rightarrow> nat \<Rightarrow> u32" where
  "rows_drawn v is p y x =
     (if y div 2 \<in> is \<and> x div 2 < SCR_W
      then RGB_M12_to_M32 (vmem_pixel v (y div 2) (x div 2)) else p y x)"

lemma div2_cases: "(z::nat) div 2 = k \<longleftrightarrow> z = 2 * k \<or> z = 2 * k + 1"
  by auto

lemma draw_block:
  assumes "i < SCR_H" "j < SCR_W" "pixels s = row_drawn (vmem s) i js p"
  shows "wp (update_pixel i j)
    (\<lambda>_ t. vmem t = vmem s \<and> flips t = flips s
       \<and> pixels t = row_drawn (vmem s) i (insert j js) p) (\<lambda>_ _. False) s"
  using assms
  by (simp add: update_pixel_def wp_simps draw_pixel_def fun_eq_iff row_drawn_def)
    (auto simp: div2_cases)

lemma draw_row:
  fixes s :: video_state
  assumes "i < SCR_H"
  shows "wp (for_op [0..<SCR_W] (update_pixel i))
    (\<lambda>_ t. vmem t = vmem s \<and> flips t = flips s
       \<and> pixels t = row_drawn (vmem s) i {0..<SCR_W} (pixels s)) (\<lambda>_ _. False) s"
proof -
  let ?I = "\<lambda>js t. vmem t = vmem s \<and> flips t = flips s
    \<and> pixels t = row_drawn (vmem s) i (set js) (pixels s)"
  have start: "?I [] s" by (simp add: row_drawn_def fun_eq_iff)
  have body: "wp (update_pixel i j) (\<lambda>_. ?I (js @ [j])) (\<lambda>_ _. False) t"
    if "?I js t" "j \<in> set [0..<SCR_W]" for js j t
    using that assms
    by (intro wp_mono [OF draw_block [of i j t "set js" "pixels s"]]) auto
  show ?thesis
    using wp_for_prefix [where I = ?I and xs = "[0..<SCR_W]", OF start body]
    by (simp del: video_consts)
qed

lemma row_into_rows:
  "row_drawn v i {0..<SCR_W} (rows_drawn v is p) = rows_drawn v (insert i is) p"
  by (auto simp: row_drawn_def rows_drawn_def fun_eq_iff)

lemma update_screen_wp:
  fixes s :: video_state
  shows "wp update_screen
    (\<lambda>_ t. vmem t = vmem s \<and> flips t = flips s + 1
       \<and> pixels t = rows_drawn (vmem s) {0..<SCR_H} (pixels s)) (\<lambda>_ _. False) s"
proof -
  let ?I = "\<lambda>is t. vmem t = vmem s \<and> flips t = flips s
    \<and> pixels t = rows_drawn (vmem s) (set is) (pixels s)"
  have start: "?I [] s" by (simp add: rows_drawn_def fun_eq_iff)
  have body: "wp (for_op [0..<SCR_W] (update_pixel i)) (\<lambda>_. ?I (is @ [i])) (\<lambda>_ _. False) t"
    if "?I is t" "i \<in> set [0..<SCR_H]" for "is" i t
    using that by (intro wp_mono [OF draw_row [of i t]]) (auto simp: row_into_rows simp del: video_consts)
  have "wp (for_op [0..<SCR_H] (\<lambda>i. for_op [0..<SCR_W] (update_pixel i)))
      (\<lambda>_. ?I [0..<SCR_H]) (\<lambda>_ _. False) s"
    using wp_for_prefix [where I = ?I and xs = "[0..<SCR_H]", OF start body]
    by (simp del: video_consts)
  then show ?thesis
    unfolding update_screen_def wp_seq
    by (rule wp_mono) (simp_all add: wp_mod del: video_consts)
qed

section \<open>Properties\<close>

text \<open>
  C34: A refresh never fails, copies every 16-bit pixel of video memory, as a 32-bit colour, to
  the two by two block of window pixels that stands for it, touches nothing outside the window
  and leaves video memory alone.
\<close>

theorem screen_refreshed:
  "\<exists>t. update_screen s = (Inr (), t) \<and> vmem t = vmem s \<and> flips t = flips s + 1
    \<and> (\<forall>x y. pixels t y x = (if y < WINDOW_H \<and> x < WINDOW_W
          then RGB_M12_to_M32 (load_le (vmem s) (2 * (y div 2 * 400 + x div 2)) 2) else pixels s y x))"
proof -
  obtain t where t: "update_screen s = (Inr (), t)" "vmem t = vmem s" "flips t = flips s + 1"
    "pixels t = rows_drawn (vmem s) {0..<SCR_H} (pixels s)"
    using wp_result [OF update_screen_wp [of s]] by auto
  then show ?thesis by (auto simp: rows_drawn_def vmem_pixel_def)
qed

end
