(* ===== verification/Monitor_State.thy ===== *)
theory Monitor_State
  imports Ram
begin

text \<open>
  The run state of the emulator (\<^verbatim>\<open>include/monitor.h\<close>) and the device that ends a run,
  the GPIO trap \<^verbatim>\<open>src/dev/gpio.c\<close>. \<open>mon_err\<close> is what has been written to
  \<^verbatim>\<open>stderr\<close>, \<open>mon_out\<close> what the processor's own messages wrote to \<^verbatim>\<open>stdout\<close>.
\<close>

unbundle bit_operations_syntax

datatype nemu_state_t = NEMU_STOP | NEMU_RUNNING | NEMU_END

definition MODE_GDB :: u32 where "MODE_GDB = 0"
definition MODE_BATCH :: u32 where "MODE_BATCH = push_bit 0 1"
definition MODE_DIFF :: u32 where "MODE_DIFF = push_bit 1 1 OR MODE_BATCH"
definition MODE_LOG :: u32 where "MODE_LOG = push_bit 2 1 OR MODE_BATCH"

lemma mode_consts [simp]:
  "MODE_GDB = 0" "MODE_BATCH = 1" "MODE_DIFF = 3" "MODE_LOG = 5"
  by (simp_all add: MODE_GDB_def MODE_BATCH_def MODE_DIFF_def MODE_LOG_def)

record monitor_state =
  nemu_state :: nemu_state_t
  work_mode :: u32
  mon_err :: "string list"
  mon_out :: "string list"

text \<open>\<^verbatim>\<open>operator |=\<close> on work modes.\<close>

definition mode_or :: "u32 \<Rightarrow> u32 \<Rightarrow> u32" where "mode_or mode extra = mode OR extra"

definition sigint_handler :: "monitor_state \<Rightarrow> monitor_state" where
  "sigint_handler s = s\<lparr>nemu_state := NEMU_STOP\<rparr>"

definition eprintf :: "string \<Rightarrow> (monitor_state, unit) op" where
  "eprintf msg = mod_op (\<lambda>s. s\<lparr>mon_err := mon_err s @ [msg]\<rparr>)"

section \<open>The trap device\<close>

definition GPIO_BASE :: u32 where "GPIO_BASE = 0x10000000"
definition GPIO_SIZE :: u32 where "GPIO_SIZE = 0x1000"

definition ANSI_WIDTHOR_RED :: string where "ANSI_WIDTHOR_RED = CHR 0x1B # ''[31m''"
definition ANSI_WIDTHOR_GREEN :: string where "ANSI_WIDTHOR_GREEN = CHR 0x1B # ''[32m''"
definition ANSI_WIDTHOR_RESET :: string where "ANSI_WIDTHOR_RESET = CHR 0x1B # ''[0m''"

definition check_gpio :: "u32 \<Rightarrow> u32 \<Rightarrow> (monitor_state, unit) op" where
  "check_gpio addr len = seq_op (check_op Cpu_assert (addr = 0)) (check_op Cpu_assert (len = 1))"

definition gpio_write :: "u32 \<Rightarrow> u32 \<Rightarrow> u32 \<Rightarrow> (monitor_state, unit) op" where
  "gpio_write addr len data =
     seq_op (check_gpio addr len)
    (seq_op
      (if (ucast data :: u8) = 0
       then eprintf (ANSI_WIDTHOR_GREEN @ ''HIT GOOD TRAP'' @ newline @ ANSI_WIDTHOR_RESET)
       else eprintf (ANSI_WIDTHOR_RED @ ''HIT BAD TRAP code: ''
              @ fmt_d (if (ucast data :: u8) = 0 then 1 else 0) @ newline @ ANSI_WIDTHOR_RESET))
    (seq_op (mod_op (\<lambda>s. s\<lparr>nemu_state := NEMU_END\<rparr>))
    (bind_op (gets_op work_mode) (\<lambda>mode.
     if mode AND MODE_BATCH \<noteq> 0 then raise (Exit 0) else ok ()))))"

lemma gpio_write_trap:
  "gpio_write 0 1 data s =
    (if odd (work_mode s) then Inl (Exit 0) else Inr (),
     s\<lparr>nemu_state := NEMU_END, mon_err := mon_err s @
       [if (ucast data :: u8) = 0
        then ANSI_WIDTHOR_GREEN @ ''HIT GOOD TRAP'' @ newline @ ANSI_WIDTHOR_RESET
        else ANSI_WIDTHOR_RED @ ''HIT BAD TRAP code: 0'' @ newline @ ANSI_WIDTHOR_RESET]\<rparr>)"
  by (simp add: gpio_write_def check_gpio_def eprintf_def op_simps and_one_eq odd_iff_mod_2_eq_one
      fmt_d_def dec_nat.simps hex_digit_def)

end
