(* ===== verification/Iq.thy ===== *)
theory Iq
  imports Prelude
begin

text \<open>
  The instruction queue \<^verbatim>\<open>src/cpu/iq.c\<close>: the last eight program counters with the
  instruction fetched from each, kept in a circular array and printed by a failing
  \<^verbatim>\<open>CPUAssert\<close>. \<open>iq_list\<close> is the abstract view, oldest entry first.
\<close>

record iq_element =
  iq_pc :: u32
  iq_instr :: u32
  instr_enq :: bool

record iq_state =
  pc_ptr :: nat
  instr_ptr :: nat
  iq :: "nat \<Rightarrow> iq_element"

definition NR_INSTR :: nat where "NR_INSTR = 8"

definition iq_init :: iq_state where
  "iq_init = \<lparr>pc_ptr = 0, instr_ptr = 0, iq = (\<lambda>_. \<lparr>iq_pc = 0, iq_instr = 0, instr_enq = False\<rparr>)\<rparr>"

definition instr_enqueue_pc :: "u32 \<Rightarrow> iq_state \<Rightarrow> iq_state" where
  "instr_enqueue_pc pc q =
     (let q = q\<lparr>instr_ptr := pc_ptr q\<rparr>;
          q = q\<lparr>iq := (iq q)(pc_ptr q := (iq q (pc_ptr q))\<lparr>iq_pc := pc\<rparr>)\<rparr>;
          q = q\<lparr>iq := (iq q)(pc_ptr q := (iq q (pc_ptr q))\<lparr>instr_enq := False\<rparr>)\<rparr>
      in q\<lparr>pc_ptr := (pc_ptr q + 1) mod NR_INSTR\<rparr>)"

definition instr_enqueue_instr :: "u32 \<Rightarrow> iq_state \<Rightarrow> iq_state" where
  "instr_enqueue_instr instr q =
     (let q = q\<lparr>iq := (iq q)(instr_ptr q := (iq q (instr_ptr q))\<lparr>instr_enq := True\<rparr>)\<rparr>
      in q\<lparr>iq := (iq q)(instr_ptr q := (iq q (instr_ptr q))\<lparr>iq_instr := instr\<rparr>)\<rparr>)"

definition get_current_instr :: "iq_state \<Rightarrow> u32" where
  "get_current_instr q =
     (if instr_enq (iq q (instr_ptr q)) then iq_instr (iq q (instr_ptr q)) else 0)"

section \<open>Printing\<close>

definition iq_line :: "iq_element \<Rightarrow> string" where
  "iq_line e = (if instr_enq e
     then ''0x'' @ fmt_08x (iq_pc e) @ '': '' @ fmt_08x (iq_instr e) @ newline
     else ''0x'' @ fmt_08x (iq_pc e) @ '': xxxxxxxx'' @ newline)"

text \<open>The \<^verbatim>\<open>do ... while\<close> loop; \<open>None\<close> would be a loop that never comes back to \<open>pc_ptr\<close>.\<close>

partial_function (option) iq_walk :: "iq_state \<Rightarrow> nat \<Rightarrow> string list \<Rightarrow> string list option" where
  "iq_walk q i out =
     (let out = out @ [iq_line (iq q i)];
          i = (i + 1) mod NR_INSTR
      in if i \<noteq> pc_ptr q then iq_walk q i out else Some out)"

definition print_instr_queue :: "iq_state \<Rightarrow> string list option" where
  "print_instr_queue q =
     iq_walk q (pc_ptr q) [''last executed '' @ fmt_d (int NR_INSTR) @ '' instrs:'' @ newline]"

section \<open>The abstract view\<close>

definition iq_wf :: "iq_state \<Rightarrow> bool" where
  "iq_wf q \<longleftrightarrow> pc_ptr q < NR_INSTR \<and> instr_ptr q < NR_INSTR"

definition iq_list :: "iq_state \<Rightarrow> iq_element list" where
  "iq_list q = map (\<lambda>k. iq q ((pc_ptr q + k) mod NR_INSTR)) [0..<NR_INSTR]"

text \<open>After a program counter has been queued, its entry is the last one.\<close>

definition iq_synced :: "iq_state \<Rightarrow> bool" where
  "iq_synced q \<longleftrightarrow> iq_wf q \<and> pc_ptr q = (instr_ptr q + 1) mod NR_INSTR"

lemma nr_cases:
  assumes "(n::nat) < 8"
  obtains "n = 0" | "n = 1" | "n = 2" | "n = 3" | "n = 4" | "n = 5" | "n = 6" | "n = 7"
proof -
  from assms have "n \<in> {0, 1, 2, 3, 4, 5, 6, 7}" by auto
  with that show ?thesis by auto
qed

lemma two_fold: "Suc (Suc 0) = 2"
  by simp

lemma upt_8: "[0..<8] = [0, 1, 2, 3, 4, 5, 6, 7 :: nat]"
  by (simp add: upt_rec)

lemma iq_walk_lines:
  "iq_wf q \<Longrightarrow> iq_walk q (pc_ptr q) out = Some (out @ map iq_line (iq_list q))"
  unfolding iq_wf_def NR_INSTR_def
  by (elim conjE, erule nr_cases [of "pc_ptr q"])
    (simp_all add: two_fold iq_walk.simps NR_INSTR_def iq_list_def upt_8)

lemma enqueue_pc_synced: "iq_wf q \<Longrightarrow> iq_synced (instr_enqueue_pc pc q)"
  by (simp add: iq_wf_def iq_synced_def instr_enqueue_pc_def NR_INSTR_def)

lemma enqueue_instr_synced: "iq_synced q \<Longrightarrow> iq_synced (instr_enqueue_instr i q)"
  by (simp add: iq_wf_def iq_synced_def instr_enqueue_instr_def)

lemma enqueue_pc_list:
  "iq_wf q \<Longrightarrow> iq_list (instr_enqueue_pc pc q) =
     tl (iq_list q) @ [(hd (iq_list q))\<lparr>iq_pc := pc, instr_enq := False\<rparr>]"
  unfolding iq_wf_def NR_INSTR_def
  by (elim conjE, erule nr_cases [of "pc_ptr q"])
    (simp_all add: two_fold NR_INSTR_def iq_list_def upt_8 instr_enqueue_pc_def)

lemma enqueue_instr_list:
  "iq_synced q \<Longrightarrow> iq_list (instr_enqueue_instr i q) =
     butlast (iq_list q) @ [(last (iq_list q))\<lparr>iq_instr := i, instr_enq := True\<rparr>]"
  unfolding iq_synced_def iq_wf_def NR_INSTR_def
  by (elim conjE, erule nr_cases [of "instr_ptr q"])
    (simp_all add: two_fold NR_INSTR_def iq_list_def upt_8 instr_enqueue_instr_def)

lemma iq_list_length [simp]: "length (iq_list q) = 8"
  by (simp add: iq_list_def NR_INSTR_def)

text \<open>Both halves of one instruction: a full entry replaces the oldest one.\<close>

definition iq_record :: "u32 \<Rightarrow> u32 \<Rightarrow> iq_state \<Rightarrow> iq_state" where
  "iq_record pc i q = instr_enqueue_instr i (instr_enqueue_pc pc q)"

lemma iq_record_list:
  assumes "iq_wf q"
  shows "iq_list (iq_record pc i q) =
      tl (iq_list q) @ [\<lparr>iq_pc = pc, iq_instr = i, instr_enq = True\<rparr>]"
    and "iq_wf (iq_record pc i q)"
  using assms enqueue_pc_synced [OF assms, of pc] enqueue_instr_synced [of "instr_enqueue_pc pc q" i]
  by (simp_all add: iq_record_def enqueue_pc_list enqueue_instr_list iq_synced_def)

lemma iq_record_history:
  assumes "iq_wf q"
  shows "iq_list (fold (\<lambda>(pc, i). iq_record pc i) es q) =
      drop (length es) (iq_list q @ map (\<lambda>(pc, i). \<lparr>iq_pc = pc, iq_instr = i, instr_enq = True\<rparr>) es)
    \<and> iq_wf (fold (\<lambda>(pc, i). iq_record pc i) es q)"
  using assms
proof (induction es arbitrary: q)
  case Nil
  then show ?case by simp
next
  case (Cons e es)
  obtain pc i where e: "e = (pc, i)" by (cases e)
  have ne: "iq_list q \<noteq> []" using iq_list_length [of q] by (metis list.size(3) zero_neq_numeral)
  with Cons.IH [of "iq_record pc i q"] iq_record_list [OF Cons.prems, of pc i]
  show ?case by (simp add: e drop_Suc)
qed

section \<open>Properties\<close>

text \<open>
  Whatever ran before, the report of a crash ends, and lists the last eight instructions in
  the order of their execution.
\<close>

lemma crash_history:
  assumes "iq_wf q" "8 \<le> length es"
  shows "print_instr_queue (fold (\<lambda>(pc, i). iq_record pc i) es q) =
    Some ((''last executed 8 instrs:'' @ newline)
      # map (\<lambda>(pc, i). ''0x'' @ fmt_08x pc @ '': '' @ fmt_08x i @ newline) (drop (length es - 8) es))"
proof -
  let ?q = "fold (\<lambda>(pc, i). iq_record pc i) es q"
  let ?e = "\<lambda>(pc, i). \<lparr>iq_pc = pc, iq_instr = i, instr_enq = True\<rparr>"
  have "iq_list ?q = map ?e (drop (length es - 8) es)" "iq_wf ?q"
    using iq_record_history [OF assms(1), of es] assms(2) by (simp_all add: drop_map)
  moreover have "map iq_line (map ?e xs) = map (\<lambda>(pc, i). ''0x'' @ fmt_08x pc @ '': '' @ fmt_08x i @ newline) xs" for xs
    by (auto simp: iq_line_def)
  moreover have "''last executed '' @ fmt_d (int NR_INSTR) @ '' instrs:'' @ newline = ''last executed 8 instrs:'' @ newline"
    by (simp add: fmt_d_def dec_nat.simps hex_digit_def NR_INSTR_def)
  ultimately show ?thesis
    using iq_walk_lines [of ?q] by (simp add: print_instr_queue_def)
qed

end
