(* ===== verification/Tracer.thy ===== *)
theory Tracer
  imports Prelude
begin

text \<open>
  The assembly tracer of \<^verbatim>\<open>src/cpu/cpu-exec.c\<close> (compiled in by the Makefile's
  \<^verbatim>\<open>DEBUG\<close> and \<^verbatim>\<open>ENABLE_ASM_TRACER\<close>): a 512-byte buffer and a write pointer
  into it. The pointer is a C global without initialiser, so it starts as the null
  pointer, \<open>None\<close>; after the first flush it is an offset into the buffer.
  \<open>trace_out\<close> is what the tracer printed.
\<close>

record tracer_state =
  asm_buf :: string
  asm_buf_p :: "nat option"
  trace_out :: "string list"

definition ASM_BUF_SIZE :: nat where "ASM_BUF_SIZE = 512"

definition tracer_init :: tracer_state where
  "tracer_init = \<lparr>asm_buf = replicate ASM_BUF_SIZE nul, asm_buf_p = None, trace_out = []\<rparr>"

definition trace_print :: "string \<Rightarrow> tracer_state \<Rightarrow> tracer_state" where
  "trace_print msg s = s\<lparr>trace_out := trace_out s @ [msg]\<rparr>"

text \<open>
  \<open>trace_append\<close> receives the text that the format directive produces;
  \<^verbatim>\<open>vsprintf\<close> writes it and a terminating zero at the write pointer.
\<close>

definition trace_append :: "string \<Rightarrow> (tracer_state, nat) op" where
  "trace_append msg =
     bind_op (gets_op asm_buf_p) (\<lambda>ptr. case ptr of
       None \<Rightarrow> raise (Ub Null_pointer)
     | Some p \<Rightarrow>
         let len = length msg
         in if ASM_BUF_SIZE < p + len + 1 then raise (Ub Out_of_bounds)
         else seq_op (mod_op (\<lambda>s. s\<lparr>asm_buf := take p (asm_buf s) @ msg @ [nul]
                                 @ drop (p + len + 1) (asm_buf s), asm_buf_p := Some (p + len)\<rparr>))
             (seq_op (mod_op (trace_print newline))
             (seq_op (check_op Assert_abort (p + len \<le> ASM_BUF_SIZE))
             (ok len))))"

definition c_string :: "string \<Rightarrow> string" where
  "c_string buf = takeWhile (\<lambda>c. c \<noteq> nul) buf"

definition trace_flush :: "tracer_state \<Rightarrow> tracer_state" where
  "trace_flush s = trace_print (c_string (asm_buf s) @ newline) (s\<lparr>asm_buf_p := Some 0\<rparr>)"

section \<open>The text in the buffer\<close>

text \<open>The buffer holds the text \<open>tx\<close> since the last flush, with the pointer at its end.\<close>

definition tracer_at :: "string \<Rightarrow> tracer_state \<Rightarrow> bool" where
  "tracer_at tx s \<longleftrightarrow> length (asm_buf s) = ASM_BUF_SIZE \<and> asm_buf_p s = Some (length tx)
     \<and> length tx < ASM_BUF_SIZE \<and> take (length tx) (asm_buf s) = tx \<and> nul \<notin> set tx"

definition tracer_ended :: "string \<Rightarrow> tracer_state \<Rightarrow> bool" where
  "tracer_ended tx s \<longleftrightarrow> tracer_at tx s \<and> asm_buf s ! length tx = nul"

lemma trace_append_run:
  assumes "tracer_at tx s" "nul \<notin> set msg" "length tx + length msg < ASM_BUF_SIZE"
  obtains t where "trace_append msg s = (Inr (length msg), t)" and "tracer_ended (tx @ msg) t"
    and "trace_out t = trace_out s @ [newline]"
proof -
  let ?t = "trace_print newline (s\<lparr>asm_buf := take (length tx) (asm_buf s) @ msg @ [nul]
     @ drop (length tx + length msg + 1) (asm_buf s), asm_buf_p := Some (length tx + length msg)\<rparr>)"
  have run: "trace_append msg s = (Inr (length msg), ?t)"
    using assms by (simp add: trace_append_def op_simps tracer_at_def Let_def)
  have "tracer_ended (tx @ msg) ?t"
    using assms by (auto simp: tracer_ended_def tracer_at_def trace_print_def nth_append)
  with run that show thesis by (simp add: trace_print_def)
qed

lemma c_string_prefix:
  assumes "nul \<notin> set tx" "take (length tx) buf = tx" "length tx < length buf"
    and "buf ! length tx = nul"
  shows "c_string buf = tx"
proof -
  have "buf = tx @ nul # drop (Suc (length tx)) buf"
    using assms by (metis append_take_drop_id Cons_nth_drop_Suc)
  moreover have "takeWhile (\<lambda>c. c \<noteq> nul) (tx @ nul # zs) = tx" for zs
    using assms(1) by (induction tx) auto
  ultimately show ?thesis unfolding c_string_def by metis
qed

lemma trace_flush_run:
  assumes "tracer_ended tx s"
  shows "tracer_at [] (trace_flush s)" and "trace_out (trace_flush s) = trace_out s @ [tx @ newline]"
  using assms c_string_prefix [of tx "asm_buf s"]
  by (auto simp: tracer_ended_def tracer_at_def trace_flush_def trace_print_def ASM_BUF_SIZE_def)

lemma trace_append_null: "asm_buf_p s = None \<Longrightarrow> trace_append msg s = (Inl (Ub Null_pointer), s)"
  by (simp add: trace_append_def op_simps)

end
