(* ===== verification/Machine.thy ===== *)
theory Machine
  imports Ram Serial Keyboard Emac Video Monitor_State Iq Tracer
begin

text \<open>
  The global state of the emulator: the processor (\<^verbatim>\<open>CPU_state\<close> of
  \<^verbatim>\<open>include/cpu/reg.h\<close>), the static variables of every device, and the
  processor's bookkeeping. An operation of a component acts on the machine through
  \<open>zoom\<close>.

  The 32 registers are indexed by 5-bit words and the 4096 control registers by 12-bit
  words, the types of the instruction fields that select them, so an index is never out
  of range.
\<close>

record CPU_state =
  gpr :: "5 word \<Rightarrow> u32"
  csr :: "12 word \<Rightarrow> u32"
  hi :: u32
  lo :: u32
  pc :: u32

record machine =
  m_cpu :: CPU_state
  m_ddr :: ddr_state
  m_bram :: bram_state
  m_vga :: video_state
  m_uart :: serial_state
  m_kb :: keyboard_state
  m_mac :: emac_state
  m_mon :: monitor_state
  m_iq :: iq_state
  m_trace :: tracer_state
  ninstr :: u32
  jiffy :: u64
  nemu_start_time :: u64

text \<open>What \<^verbatim>\<open>gettimeofday\<close> delivers.\<close>

record timeval =
  tv_sec :: u64
  tv_usec :: u64

definition CPU_INIT_PC :: u32 where "CPU_INIT_PC = 0xbfc00000"

definition on_ddr :: "(ddr_state, 'a) op \<Rightarrow> (machine, 'a) op" where
  "on_ddr = zoom m_ddr (\<lambda>c s. s\<lparr>m_ddr := c\<rparr>)"

definition on_bram :: "(bram_state, 'a) op \<Rightarrow> (machine, 'a) op" where
  "on_bram = zoom m_bram (\<lambda>c s. s\<lparr>m_bram := c\<rparr>)"

definition on_vga :: "(video_state, 'a) op \<Rightarrow> (machine, 'a) op" where
  "on_vga = zoom m_vga (\<lambda>c s. s\<lparr>m_vga := c\<rparr>)"

definition on_uart :: "(serial_state, 'a) op \<Rightarrow> (machine, 'a) op" where
  "on_uart = zoom m_uart (\<lambda>c s. s\<lparr>m_uart := c\<rparr>)"

definition on_mac :: "(emac_state, 'a) op \<Rightarrow> (machine, 'a) op" where
  "on_mac = zoom m_mac (\<lambda>c s. s\<lparr>m_mac := c\<rparr>)"

definition on_mon :: "(monitor_state, 'a) op \<Rightarrow> (machine, 'a) op" where
  "on_mon = zoom m_mon (\<lambda>c s. s\<lparr>m_mon := c\<rparr>)"

definition on_trace :: "(tracer_state, 'a) op \<Rightarrow> (machine, 'a) op" where
  "on_trace = zoom m_trace (\<lambda>c s. s\<lparr>m_trace := c\<rparr>)"

lemmas on_defs = on_ddr_def on_bram_def on_vga_def on_uart_def on_mac_def on_mon_def on_trace_def

text \<open>The state before \<^verbatim>\<open>main\<close>: zeroed statics, no image loaded.\<close>

definition machine_init :: machine where
  "machine_init = \<lparr>
     m_cpu = \<lparr>gpr = (\<lambda>_. 0), csr = (\<lambda>_. 0), hi = 0, lo = 0, pc = 0\<rparr>,
     m_ddr = \<lparr>ddr = (\<lambda>_. 0), ddr_mapped_size = 0\<rparr>,
     m_bram = \<lparr>bram = (\<lambda>_. 0), bram_mapped_size = 0, bram_mapped = False\<rparr>,
     m_vga = \<lparr>vmem = (\<lambda>_. 0), pixels = (\<lambda>_ _. 0), flips = 0\<rparr>,
     m_uart = serial_init,
     m_kb = keyboard_init,
     m_mac = emac_init,
     m_mon = \<lparr>nemu_state = NEMU_STOP, work_mode = MODE_GDB, mon_err = [], mon_out = []\<rparr>,
     m_iq = iq_init,
     m_trace = tracer_init,
     ninstr = 0,
     jiffy = 0,
     nemu_start_time = 0\<rparr>"

text \<open>
  The indices of the circular arrays are in range: the invariant that every operation
  keeps, so that the model's total arrays never stand for an access out of range.
\<close>

definition machine_wf :: "machine \<Rightarrow> bool" where
  "machine_wf s \<longleftrightarrow> serial_wf (m_uart s) \<and> keyboard_wf (m_kb s) \<and> iq_wf (m_iq s)"

lemma machine_init_wf: "machine_wf machine_init"
  by (simp add: machine_wf_def machine_init_def serial_wf_def serial_init_def keyboard_wf_def
      keyboard_init_def iq_wf_def iq_init_def SERIAL_QUEUE_LEN_def KEYBOARD_QUEUE_LEN_def
      NR_INSTR_def)

text \<open>What a device access leaves alone: the processor and its bookkeeping.\<close>

definition core :: "machine \<Rightarrow> CPU_state \<times> keyboard_state \<times> iq_state \<times> tracer_state \<times> u32 \<times> u64
    \<times> u64" where
  "core s = (m_cpu s, m_kb s, m_iq s, m_trace s, ninstr s, jiffy s, nemu_start_time s)"

end
