(* ===== verification/Bus.thy ===== *)
theory Bus
  imports Machine
begin

text \<open>
  Memory-mapped access, \<^verbatim>\<open>src/memory.c\<close> and \<^verbatim>\<open>include/memory.h\<close>: the
  segment translation of addresses, the table of regions with their handlers, the search
  in it, and the read, write, map and peek entry points.

  A table entry holds the handlers as the C table holds function pointers; a null pointer
  is \<open>None\<close>. The locale \<open>mmio_device\<close> is what the bus relies on for every entry.
\<close>

unbundle bit_operations_syntax

section \<open>Address translation\<close>

definition UNCACHED_BASE :: u32 where "UNCACHED_BASE = 0xA0000000"
definition UNCACHED_END :: u32 where "UNCACHED_END = 0xC0000000"
definition UNMAPPED_BASE :: u32 where "UNMAPPED_BASE = 0x80000000"
definition UNMAPPED_END :: u32 where "UNMAPPED_END = 0xC0000000"

definition is_unmapped :: "u32 \<Rightarrow> bool" where
  "is_unmapped addr \<longleftrightarrow> UNMAPPED_BASE \<le> addr \<and> addr < UNMAPPED_END"

definition is_uncached :: "u32 \<Rightarrow> bool" where
  "is_uncached addr \<longleftrightarrow> UNCACHED_BASE \<le> addr \<and> addr < UNCACHED_END"

definition iomap :: "u32 \<Rightarrow> u32" where
  "iomap vaddr = vaddr AND 0x1FFFFFFF"

definition prot_addr :: "u32 \<Rightarrow> u32" where
  "prot_addr addr = (if is_unmapped addr then iomap addr else addr)"

lemma iomap_take_bit: "iomap a = take_bit 29 a"
  by (simp add: iomap_def take_bit_eq_mask mask_eq_exp_minus_1)

lemma unat_iomap: "unat (iomap a) = unat a mod 0x20000000"
proof -
  have "unat (iomap a) = take_bit 29 (unat a)"
    by (simp only: iomap_take_bit unsigned_take_bit_eq)
  then show ?thesis by (simp add: take_bit_eq_mod)
qed

lemma unat_prot_addr:
  "unat (prot_addr a) =
    (if 0x80000000 \<le> unat a \<and> unat a < 0xC0000000 then unat a mod 0x20000000 else unat a)"
  by (auto simp: prot_addr_def is_unmapped_def UNMAPPED_BASE_def UNMAPPED_END_def unat_iomap
      word_le_nat_alt word_less_nat_alt)

section \<open>The region table\<close>

definition BADP_ADDR :: u32 where "BADP_ADDR = 0x1fe96000"
definition BADP_SIZE :: u32 where "BADP_SIZE = 0x1000"

datatype mem_ptr = Ddr_ptr nat | Bram_ptr nat

record mmap_region =
  region_start :: u32
  region_end :: u32
  region_read :: "u32 \<Rightarrow> u32 \<Rightarrow> (machine, u32) op"
  region_write :: "u32 \<Rightarrow> u32 \<Rightarrow> u32 \<Rightarrow> (machine, unit) op"
  region_map :: "(u32 \<Rightarrow> u32 \<Rightarrow> (machine, mem_ptr) op) option"
  region_peek :: "(u32 \<Rightarrow> u32 \<Rightarrow> (machine, u32) op) option"

definition badp_read :: "u32 \<Rightarrow> u32 \<Rightarrow> (machine, u32) op" where
  "badp_read addr len = ok 0"

definition badp_write :: "u32 \<Rightarrow> u32 \<Rightarrow> u32 \<Rightarrow> (machine, unit) op" where
  "badp_write addr len data = ok ()"

text \<open>
  The handlers of a region that cannot be accessed. As for every \<^verbatim>\<open>CPUAssert\<close>, the fault is where the
  condition fails; the report that follows is in theory \<open>Run\<close>.
\<close>

definition invalid_read :: "u32 \<Rightarrow> u32 \<Rightarrow> (machine, u32) op" where
  "invalid_read addr len = raise Cpu_assert"

definition invalid_write :: "u32 \<Rightarrow> u32 \<Rightarrow> u32 \<Rightarrow> (machine, unit) op" where
  "invalid_write addr len data = raise Cpu_assert"

definition badp_region :: mmap_region where
  "badp_region = \<lparr>region_start = BADP_ADDR, region_end = BADP_ADDR + BADP_SIZE,
     region_read = badp_read, region_write = badp_write,
     region_map = None, region_peek = Some badp_read\<rparr>"

definition ddr_region :: mmap_region where
  "ddr_region = \<lparr>region_start = DDR_BASE, region_end = DDR_BASE + DDR_SIZE,
     region_read = (\<lambda>a n. on_ddr (ddr_read a n)), region_write = (\<lambda>a n d. on_ddr (ddr_write a n d)),
     region_map = Some (\<lambda>a n. bind_op (on_ddr (ddr_map a n)) (\<lambda>i. ok (Ddr_ptr i))),
     region_peek = Some (\<lambda>a n. on_ddr (ddr_read a n))\<rparr>"

definition bram_region :: mmap_region where
  "bram_region = \<lparr>region_start = BRAM_BASE, region_end = BRAM_BASE + BRAM_SIZE,
     region_read = (\<lambda>a n. on_bram (bram_read a n)), region_write = (\<lambda>a n d. on_bram (bram_write a n d)),
     region_map = Some (\<lambda>a n. bind_op (on_bram (bram_map a n)) (\<lambda>i. ok (Bram_ptr i))),
     region_peek = Some (\<lambda>a n. on_bram (bram_read a n))\<rparr>"

definition gpio_region :: mmap_region where
  "gpio_region = \<lparr>region_start = GPIO_BASE, region_end = GPIO_BASE + GPIO_SIZE,
     region_read = invalid_read, region_write = (\<lambda>a n d. on_mon (gpio_write a n d)),
     region_map = None, region_peek = Some invalid_read\<rparr>"

definition serial_region :: mmap_region where
  "serial_region = \<lparr>region_start = SERIAL_ADDR, region_end = SERIAL_ADDR + SERIAL_SIZE,
     region_read = (\<lambda>a n. on_uart (serial_read a n)), region_write = (\<lambda>a n d. on_uart (serial_write a n d)),
     region_map = None, region_peek = Some (\<lambda>a n. on_uart (serial_peek a n))\<rparr>"

definition mac_region :: mmap_region where
  "mac_region = \<lparr>region_start = MAC_ADDR, region_end = MAC_ADDR + MAC_SIZE,
     region_read = (\<lambda>a n. on_mac (mac_read a n)), region_write = (\<lambda>a n d. on_mac (mac_write a n d)),
     region_map = None, region_peek = Some (\<lambda>a n. on_mac (mac_read a n))\<rparr>"

definition vga_region :: mmap_region where
  "vga_region = \<lparr>region_start = VGA_BASE, region_end = VGA_BASE + VGA_SIZE,
     region_read = (\<lambda>a n. on_vga (vga_read a n)), region_write = (\<lambda>a n d. on_vga (vga_write a n d)),
     region_map = None, region_peek = None\<rparr>"

definition mmap_table :: "mmap_region list" where
  "mmap_table =
    [badp_region, ddr_region, bram_region, gpio_region, serial_region, mac_region, vga_region]"

definition NR_REGION :: nat where
  "NR_REGION = length mmap_table"

section \<open>The entry points\<close>

fun find_region_from :: "nat \<Rightarrow> mmap_region list \<Rightarrow> u32 \<Rightarrow> int" where
  "find_region_from i [] addr = - 1"
| "find_region_from i (r # rs) addr =
     (if region_start r \<le> addr \<and> addr < region_end r then int i
      else find_region_from (i + 1) rs addr)"

definition find_region :: "u32 \<Rightarrow> int" where
  "find_region addr = find_region_from 0 mmap_table addr"

definition paddr_map :: "u32 \<Rightarrow> u32 \<Rightarrow> (machine, mem_ptr) op" where
  "paddr_map addr len =
     seq_op (check_op Assert_abort (is_unmapped addr))
    (let idx = find_region (iomap addr)
     in seq_op (check_op Assert_abort (idx \<noteq> - 1))
       (case region_map (mmap_table ! nat idx) of
          None \<Rightarrow> raise Assert_abort
        | Some map_h \<Rightarrow> map_h (iomap addr - region_start (mmap_table ! nat idx)) len))"

definition vaddr_read_safe :: "u32 \<Rightarrow> u32 \<Rightarrow> (machine, u32) op" where
  "vaddr_read_safe addr len =
     (let addr = prot_addr addr; idx = find_region addr
      in if idx = - 1 then ok 0
         else region_read (mmap_table ! nat idx) (addr - region_start (mmap_table ! nat idx)) len)"

definition vaddr_write_safe :: "u32 \<Rightarrow> u32 \<Rightarrow> u32 \<Rightarrow> (machine, unit) op" where
  "vaddr_write_safe addr len data =
     (let addr = prot_addr addr; idx = find_region addr
      in if idx = - 1 then ok ()
         else region_write (mmap_table ! nat idx) (addr - region_start (mmap_table ! nat idx)) len data)"

definition vaddr_read :: "u32 \<Rightarrow> u32 \<Rightarrow> (machine, u32) op" where
  "vaddr_read addr len =
     (let addr = prot_addr addr; idx = find_region addr
      in seq_op (check_op Cpu_assert (idx \<noteq> - 1))
        (region_read (mmap_table ! nat idx) (addr - region_start (mmap_table ! nat idx)) len))"

definition paddr_peek :: "u32 \<Rightarrow> u32 \<Rightarrow> (machine, u32) op" where
  "paddr_peek addr len =
     (let idx = find_region addr
      in seq_op (check_op Cpu_assert (idx \<noteq> - 1))
        (case region_peek (mmap_table ! nat idx) of
           None \<Rightarrow> raise (Ub Null_pointer)
         | Some peek_h \<Rightarrow> peek_h (addr - region_start (mmap_table ! nat idx)) len))"

definition vaddr_write :: "u32 \<Rightarrow> u32 \<Rightarrow> u32 \<Rightarrow> (machine, unit) op" where
  "vaddr_write addr len data =
     (let addr = prot_addr addr; idx = find_region addr
      in seq_op (check_op Cpu_assert (idx \<noteq> - 1))
        (region_write (mmap_table ! nat idx) (addr - region_start (mmap_table ! nat idx)) len data))"

definition region_collide :: "u32 \<Rightarrow> u32 \<Rightarrow> u32 \<Rightarrow> u32 \<Rightarrow> bool" where
  "region_collide x y a b \<longleftrightarrow> (x \<le> a \<and> a < y) \<or> (x < b \<and> b \<le> y) \<or> (a \<le> x \<and> y \<le> b)"

definition init_mmio :: "(machine, unit) op" where
  "init_mmio =
     for_op [0..<NR_REGION] (\<lambda>i. for_op [i + 1..<NR_REGION] (\<lambda>j.
       check_op Assert_abort (\<not> region_collide
         (region_start (mmap_table ! i)) (region_end (mmap_table ! i))
         (region_start (mmap_table ! j)) (region_end (mmap_table ! j)))))"

section \<open>The regions\<close>

lemmas region_defs = badp_region_def ddr_region_def bram_region_def gpio_region_def
  serial_region_def mac_region_def vga_region_def

lemma region_bounds [simp]:
  "region_start badp_region = 0x1fe96000" "region_end badp_region = 0x1fe97000"
  "region_start ddr_region = 0" "region_end ddr_region = 0x8000000"
  "region_start bram_region = 0x1fc00000" "region_end bram_region = 0x1fd00000"
  "region_start gpio_region = 0x10000000" "region_end gpio_region = 0x10001000"
  "region_start serial_region = 0x1fe50000" "region_end serial_region = 0x1fe50010"
  "region_start mac_region = 0x1ff00000" "region_end mac_region = 0x1ff10000"
  "region_start vga_region = 0x10400000" "region_end vga_region = 0x10500000"
  by (simp_all add: region_defs BADP_ADDR_def BADP_SIZE_def GPIO_BASE_def GPIO_SIZE_def
      SERIAL_ADDR_def SERIAL_SIZE_def MAC_ADDR_def MAC_SIZE_def)

lemma find_region_eq:
  "find_region a =
    (if 0x1fe96000 \<le> unat a \<and> unat a < 0x1fe97000 then 0
     else if unat a < 0x8000000 then 1
     else if 0x1fc00000 \<le> unat a \<and> unat a < 0x1fd00000 then 2
     else if 0x10000000 \<le> unat a \<and> unat a < 0x10001000 then 3
     else if 0x1fe50000 \<le> unat a \<and> unat a < 0x1fe50010 then 4
     else if 0x1ff00000 \<le> unat a \<and> unat a < 0x1ff10000 then 5
     else if 0x10400000 \<le> unat a \<and> unat a < 0x10500000 then 6
     else - 1)"
  by (simp add: find_region_def mmap_table_def word_le_nat_alt word_less_nat_alt)

lemma mmap_table_nth [simp]:
  "mmap_table ! 0 = badp_region" "mmap_table ! Suc 0 = ddr_region" "mmap_table ! 2 = bram_region"
  "mmap_table ! 3 = gpio_region" "mmap_table ! 4 = serial_region" "mmap_table ! 5 = mac_region"
  "mmap_table ! 6 = vga_region"
  by (simp_all add: mmap_table_def)

lemma NR_REGION_eq [simp]: "NR_REGION = 7"
  by (simp add: NR_REGION_def mmap_table_def)

text \<open>The region an address falls into, as the search finds it.\<close>

definition region_at :: "u32 \<Rightarrow> mmap_region option" where
  "region_at a = (if find_region a = - 1 then None else Some (mmap_table ! nat (find_region a)))"

lemma vaddr_read_region:
  "vaddr_read a n = (case region_at (prot_addr a) of None \<Rightarrow> raise Cpu_assert
     | Some r \<Rightarrow> region_read r (prot_addr a - region_start r) n)"
  by (simp add: vaddr_read_def region_at_def Let_def check_op_def seq_op_def)

lemma vaddr_write_region:
  "vaddr_write a n d = (case region_at (prot_addr a) of None \<Rightarrow> raise Cpu_assert
     | Some r \<Rightarrow> region_write r (prot_addr a - region_start r) n d)"
  by (simp add: vaddr_write_def region_at_def Let_def check_op_def seq_op_def)

lemma region_at_eq:
  "region_at a =
    (if 0x1fe96000 \<le> unat a \<and> unat a < 0x1fe97000 then Some badp_region
     else if unat a < 0x8000000 then Some ddr_region
     else if 0x1fc00000 \<le> unat a \<and> unat a < 0x1fd00000 then Some bram_region
     else if 0x10000000 \<le> unat a \<and> unat a < 0x10001000 then Some gpio_region
     else if 0x1fe50000 \<le> unat a \<and> unat a < 0x1fe50010 then Some serial_region
     else if 0x1ff00000 \<le> unat a \<and> unat a < 0x1ff10000 then Some mac_region
     else if 0x10400000 \<le> unat a \<and> unat a < 0x10500000 then Some vga_region
     else None)"
  unfolding region_at_def find_region_eq by simp

lemma region_at_cases:
  obtains (none) "region_at a = None"
  | (badp) "region_at a = Some badp_region" "0x1fe96000 \<le> unat a" "unat a < 0x1fe97000"
  | (ddr) "region_at a = Some ddr_region" "unat a < 0x8000000"
  | (bram) "region_at a = Some bram_region" "0x1fc00000 \<le> unat a" "unat a < 0x1fd00000"
  | (gpio) "region_at a = Some gpio_region" "0x10000000 \<le> unat a" "unat a < 0x10001000"
  | (serial) "region_at a = Some serial_region" "0x1fe50000 \<le> unat a" "unat a < 0x1fe50010"
  | (mac) "region_at a = Some mac_region" "0x1ff00000 \<le> unat a" "unat a < 0x1ff10000"
  | (vga) "region_at a = Some vga_region" "0x10400000 \<le> unat a" "unat a < 0x10500000"
  using region_at_eq [of a] by (auto split: if_splits)

lemma region_at_ddr: "unat a < 0x8000000 \<Longrightarrow> region_at a = Some ddr_region"
  by (simp add: region_at_eq)

lemma region_at_bram: "0x1fc00000 \<le> unat a \<Longrightarrow> unat a < 0x1fd00000 \<Longrightarrow> region_at a = Some bram_region"
  by (simp add: region_at_eq)

lemma region_at_set: "region_at a = Some r \<Longrightarrow> r \<in> set mmap_table"
  by (cases rule: region_at_cases [of a]) (simp_all add: mmap_table_def)

section \<open>What the bus relies on\<close>

text \<open>
  Every handler leaves the processor and its bookkeeping alone and keeps the indices of
  the circular arrays in range.
\<close>

locale mmio_device =
  fixes rd :: "u32 \<Rightarrow> u32 \<Rightarrow> (machine, u32) op"
    and wr :: "u32 \<Rightarrow> u32 \<Rightarrow> u32 \<Rightarrow> (machine, unit) op"
  assumes rd_core: "core (snd (rd a n s)) = core s"
    and wr_core: "core (snd (wr a n d s)) = core s"
    and rd_uart_wf: "serial_wf (m_uart s) \<Longrightarrow> serial_wf (m_uart (snd (rd a n s)))"
    and wr_uart_wf: "serial_wf (m_uart s) \<Longrightarrow> serial_wf (m_uart (snd (wr a n d s)))"
begin

lemma rd_wf: "keeps machine_wf (rd a n)"
  using rd_core [of a n] rd_uart_wf by (auto simp: keeps_def machine_wf_def core_def)

lemma wr_wf: "keeps machine_wf (wr a n d)"
  using wr_core [of a n d] wr_uart_wf by (auto simp: keeps_def machine_wf_def core_def)

end

interpretation badp_io: mmio_device badp_read badp_write
  by unfold_locales (simp_all add: badp_read_def badp_write_def op_simps)

interpretation ddr_io: mmio_device "\<lambda>a n. on_ddr (ddr_read a n)" "\<lambda>a n d. on_ddr (ddr_write a n d)"
  by unfold_locales (simp_all add: on_ddr_def op_simps core_def)

interpretation bram_io: mmio_device "\<lambda>a n. on_bram (bram_read a n)" "\<lambda>a n d. on_bram (bram_write a n d)"
  by unfold_locales (simp_all add: on_bram_def op_simps core_def)

interpretation gpio_io: mmio_device invalid_read "\<lambda>a n d. on_mon (gpio_write a n d)"
  by unfold_locales (simp_all add: on_mon_def invalid_read_def op_simps core_def)

interpretation serial_io: mmio_device "\<lambda>a n. on_uart (serial_read a n)" "\<lambda>a n d. on_uart (serial_write a n d)"
  by unfold_locales
    (use serial_read_wf serial_write_wf in \<open>simp_all add: on_uart_def op_simps core_def keeps_def\<close>)

interpretation mac_io: mmio_device "\<lambda>a n. on_mac (mac_read a n)" "\<lambda>a n d. on_mac (mac_write a n d)"
  by unfold_locales (simp_all add: on_mac_def op_simps core_def)

interpretation vga_io: mmio_device "\<lambda>a n. on_vga (vga_read a n)" "\<lambda>a n d. on_vga (vga_write a n d)"
  by unfold_locales (simp_all add: on_vga_def op_simps core_def)

lemma mmap_table_devices: "r \<in> set mmap_table \<Longrightarrow> mmio_device (region_read r) (region_write r)"
  by (auto simp: mmap_table_def region_defs badp_io.mmio_device_axioms ddr_io.mmio_device_axioms
      bram_io.mmio_device_axioms gpio_io.mmio_device_axioms serial_io.mmio_device_axioms
      mac_io.mmio_device_axioms vga_io.mmio_device_axioms)

lemma vaddr_read_core: "core (snd (vaddr_read a n s)) = core s"
  using mmio_device.rd_core [OF mmap_table_devices [OF region_at_set]]
  by (simp add: vaddr_read_region raise_def split: option.split)

lemma vaddr_write_core: "core (snd (vaddr_write a n d s)) = core s"
  using mmio_device.wr_core [OF mmap_table_devices [OF region_at_set]]
  by (simp add: vaddr_write_region raise_def split: option.split)

lemma vaddr_read_wf: "keeps machine_wf (vaddr_read a n)"
  using mmio_device.rd_wf [OF mmap_table_devices [OF region_at_set]]
  by (simp add: vaddr_read_region keeps_raise split: option.split)

lemma vaddr_write_wf: "keeps machine_wf (vaddr_write a n d)"
  using mmio_device.wr_wf [OF mmap_table_devices [OF region_at_set]]
  by (simp add: vaddr_write_region keeps_raise split: option.split)

section \<open>Properties\<close>

text \<open>
  The kernel's cached and uncached windows are two views of one physical address space:
  an access through \<open>0x80000000 + x\<close> and one through \<open>0xA0000000 + x\<close> are the same
  operation, on every device.
\<close>

lemma segments_alias:
  assumes "unat x < 0x20000000"
  shows "vaddr_read (0x80000000 + x) n = vaddr_read (0xA0000000 + x) n
    \<and> vaddr_write (0x80000000 + x) n d = vaddr_write (0xA0000000 + x) n d
    \<and> prot_addr (0x80000000 + x) = x"
proof -
  have "unat (0x80000000 + x) = 0x80000000 + unat x" "unat (0xA0000000 + x) = 0xA0000000 + unat x"
    using assms by (simp_all add: unat_word_ariths)
  then have "unat (prot_addr (0x80000000 + x)) = unat x" "unat (prot_addr (0xA0000000 + x)) = unat x"
    using assms by (simp_all add: unat_prot_addr mod_if)
  then have "prot_addr (0x80000000 + x) = x" "prot_addr (0xA0000000 + x) = x"
    by (simp_all add: word_unat_eq_iff)
  then show ?thesis
    unfolding vaddr_read_region [abs_def] vaddr_write_region [abs_def] by (simp only: simp_thms)
qed

lemma collide_overlap:
  fixes x y a b :: u32
  assumes "x < y" "a < b"
  shows "region_collide x y a b \<longleftrightarrow> (\<exists>z. x \<le> z \<and> z < y \<and> a \<le> z \<and> z < b)"
proof
  assume "region_collide x y a b"
  then have "x \<le> max x a \<and> max x a < y \<and> a \<le> max x a \<and> max x a < b"
    using assms unfolding region_collide_def by (auto simp: max_def)
  then show "\<exists>z. x \<le> z \<and> z < y \<and> a \<le> z \<and> z < b" by blast
next
  assume "\<exists>z. x \<le> z \<and> z < y \<and> a \<le> z \<and> z < b"
  then show "region_collide x y a b"
    using assms unfolding region_collide_def by fastforce
qed

definition in_region :: "u32 \<Rightarrow> mmap_region \<Rightarrow> bool" where
  "in_region a r \<longleftrightarrow> region_start r \<le> a \<and> a < region_end r"

lemma table_collisions:
  assumes "i < j" "j < NR_REGION"
  shows "\<not> region_collide (region_start (mmap_table ! i)) (region_end (mmap_table ! i))
    (region_start (mmap_table ! j)) (region_end (mmap_table ! j))"
proof -
  have "sorted_wrt (\<lambda>r q. \<not> region_collide (region_start r) (region_end r) (region_start q) (region_end q))
      mmap_table"
    by (simp add: mmap_table_def region_collide_def)
  then show ?thesis using assms by (simp add: sorted_wrt_iff_nth_less NR_REGION_def del: NR_REGION_eq)
qed

lemma table_nonempty: "r \<in> set mmap_table \<Longrightarrow> region_start r < region_end r"
  by (auto simp: mmap_table_def)

lemma in_region_unique:
  assumes "i < NR_REGION" "j < NR_REGION" "in_region a (mmap_table ! i)" "in_region a (mmap_table ! j)"
  shows "i = j"
proof (rule ccontr)
  assume "i \<noteq> j"
  have False if "k < l" "l < NR_REGION" "in_region a (mmap_table ! k)" "in_region a (mmap_table ! l)" for k l
    using table_collisions [OF that(1,2)] that
      collide_overlap [OF table_nonempty table_nonempty, of "mmap_table ! k" "mmap_table ! l"]
    by (auto simp: in_region_def NR_REGION_def simp del: NR_REGION_eq)
  with assms \<open>i \<noteq> j\<close> show False by (metis linorder_neqE_nat)
qed

lemma find_region_from_first:
  "(find_region_from n rs a = - 1 \<and> (\<forall>r \<in> set rs. \<not> in_region a r))
   \<or> (\<exists>k < length rs. find_region_from n rs a = int (n + k) \<and> in_region a (rs ! k))"
proof (induction n rs a rule: find_region_from.induct)
  case (1 n a)
  then show ?case by simp
next
  case (2 n r rs a)
  show ?case
  proof (cases "in_region a r")
    case True
    then show ?thesis by (auto simp: in_region_def)
  next
    case False
    then have step: "find_region_from n (r # rs) a = find_region_from (n + 1) rs a"
      by (auto simp: in_region_def)
    from 2 False consider "find_region_from (n + 1) rs a = - 1" "\<forall>q \<in> set rs. \<not> in_region a q"
      | k where "k < length rs" "find_region_from (n + 1) rs a = int (n + 1 + k)" "in_region a (rs ! k)"
      by (auto simp: in_region_def)
    then show ?thesis
    proof cases
      case 1
      with False step show ?thesis by simp
    next
      case (2 k)
      then show ?thesis unfolding step by (intro disjI2 exI [of _ "Suc k"]) simp
    qed
  qed
qed

section \<open>Properties of the table\<close>

text \<open>
  The search in the region table is correct for every address: it returns \<open>-1\<close> exactly
  when no entry contains the address, and otherwise the index of the only entry that does.
\<close>

lemma find_region_correct:
  "(find_region a = - 1 \<longleftrightarrow> \<not> (\<exists>r \<in> set mmap_table. region_start r \<le> a \<and> a < region_end r))
   \<and> (\<forall>i < NR_REGION. find_region a = int i
        \<longleftrightarrow> region_start (mmap_table ! i) \<le> a \<and> a < region_end (mmap_table ! i))"
proof -
  have len: "length mmap_table = NR_REGION" by (simp add: NR_REGION_def del: NR_REGION_eq)
  from find_region_from_first [of 0 mmap_table a]
  consider "find_region a = - 1" "\<forall>r \<in> set mmap_table. \<not> in_region a r"
    | k where "k < NR_REGION" "find_region a = int k" "in_region a (mmap_table ! k)"
    unfolding find_region_def len by auto
  then show ?thesis
    unfolding in_region_def [symmetric]
  proof cases
    case 1
    then show "(find_region a = - 1 \<longleftrightarrow> \<not> (\<exists>r \<in> set mmap_table. in_region a r))
      \<and> (\<forall>i < NR_REGION. find_region a = int i \<longleftrightarrow> in_region a (mmap_table ! i))"
      using len by (auto simp del: NR_REGION_eq)
  next
    case (2 k)
    then have "mmap_table ! k \<in> set mmap_table" by (simp add: len del: NR_REGION_eq)
    with 2 have "\<exists>r \<in> set mmap_table. in_region a r" by blast
    moreover have "k = i \<longleftrightarrow> in_region a (mmap_table ! i)" if "i < NR_REGION" for i
      using 2 that in_region_unique [of k i a] by blast
    ultimately show "(find_region a = - 1 \<longleftrightarrow> \<not> (\<exists>r \<in> set mmap_table. in_region a r))
      \<and> (\<forall>i < NR_REGION. find_region a = int i \<longleftrightarrow> in_region a (mmap_table ! i))"
      unfolding 2(2) of_nat_eq_iff by auto
  qed
qed

lemma init_mmio_run: "init_mmio s = (Inr (), s)"
proof -
  have run: "for_op xs (\<lambda>i. for_op (ys i) (\<lambda>j. check_op Assert_abort (P i j))) s = (Inr (), s)"
    if "\<forall>i \<in> set xs. \<forall>j \<in> set (ys i). P i j" for xs :: "nat list" and ys :: "nat \<Rightarrow> nat list" and P and s :: machine
  proof -
    have inner: "for_op js (\<lambda>j. check_op Assert_abort (Q j)) s = (Inr (), s)"
      if "\<forall>j \<in> set js. Q j" for js :: "nat list" and Q
      using that by (induction js) (auto simp: op_simps)
    show ?thesis using that by (induction xs) (auto simp: op_simps inner)
  qed
  show ?thesis
    unfolding init_mmio_def by (rule run) (use table_collisions in \<open>simp del: NR_REGION_eq\<close>)
qed

text \<open>The regions of the table are pairwise disjoint.\<close>

lemma init_mmio_passes:
  "init_mmio s = (Inr (), s)
   \<and> (\<forall>i j. i < j \<and> j < NR_REGION \<longrightarrow> \<not> (\<exists>a. in_region a (mmap_table ! i) \<and> in_region a (mmap_table ! j)))"
proof
  show "init_mmio s = (Inr (), s)" by (rule init_mmio_run)
  show "\<forall>i j. i < j \<and> j < NR_REGION \<longrightarrow>
      \<not> (\<exists>a. in_region a (mmap_table ! i) \<and> in_region a (mmap_table ! j))"
    using in_region_unique by (metis less_irrefl less_trans)
qed

text \<open>
  \<open>paddr_map\<close> hands out a pointer only into DDR or block RAM, only for an address of the
  unmapped window, and only when the whole range lies in the device (lengths below two
  gigabytes).
\<close>

lemma paddr_map_ram:
  assumes "unat len < 0x80000000" "paddr_map addr len s = (Inr p, t)"
  shows "is_unmapped addr \<and> (case p of
      Ddr_ptr i \<Rightarrow> i = unat (iomap addr) \<and> i < 0x8000000 \<and> i + unat len \<le> 0x8000000
    | Bram_ptr i \<Rightarrow> i + 0x1fc00000 = unat (iomap addr) \<and> i < 0x100000 \<and> i + unat len \<le> 0x100000)"
proof -
  note addr_defs = ddr_map_def bram_map_def check_ddr_def check_bram_def
  have room: "unat i + unat len \<le> unat sz" if "i < sz" "i + len \<le> sz" "unat sz \<le> 0x8000000" for i sz :: u32
  proof -
    have "unat i + unat len < 2 ^ LENGTH(32)" using that assms(1) by (simp add: word_less_nat_alt)
    then have "unat (i + len) = unat i + unat len" by (simp add: unat_word_ariths)
    with that(2) show ?thesis by (simp add: word_le_nat_alt)
  qed
  have un: "is_unmapped addr" and idx: "find_region (iomap addr) \<noteq> - 1"
    using assms(2) by (auto simp: paddr_map_def op_simps Let_def split: if_splits)
  define r where "r = mmap_table ! nat (find_region (iomap addr))"
  have run: "(case region_map r of None \<Rightarrow> raise Assert_abort
      | Some h \<Rightarrow> h (iomap addr - region_start r) len) s = (Inr p, t)"
    using assms(2) un idx by (simp add: paddr_map_def op_simps Let_def r_def split: option.splits)
  have "region_at (iomap addr) = Some r"
    using idx by (simp add: region_at_def r_def)
  then show ?thesis
  proof (cases rule: region_at_cases [of "iomap addr"])
    case ddr
    with run \<open>region_at (iomap addr) = Some r\<close> room [of "iomap addr" "0x8000000"] un show ?thesis
      by (auto simp: ddr_region_def addr_defs op_simps on_ddr_def word_less_nat_alt split: if_splits)
  next
    case bram
    moreover from bram have "unat (iomap addr - 0x1fc00000) + 0x1fc00000 = unat (iomap addr)"
      by (simp add: unat_sub word_le_nat_alt)
    ultimately show ?thesis
      using run \<open>region_at (iomap addr) = Some r\<close> room [of "iomap addr - 0x1fc00000" "0x100000"] un
      by (auto simp: bram_region_def addr_defs op_simps on_bram_def word_less_nat_alt split: if_splits)
  qed (use run in \<open>auto simp: region_defs op_simps\<close>)
qed

end
