(* ===== verification/Load_Store.thy ===== *)
theory Load_Store
  imports Bus
begin

text \<open>
  The processor's memory accesses, \<^verbatim>\<open>load_mem\<close>, \<^verbatim>\<open>store_mem\<close> and
  \<^verbatim>\<open>instr_fetch\<close> of \<^verbatim>\<open>src/cpu/cpu-exec.c\<close>: an inlined fast path into the
  RAM arrays in front of the bus.

  The abstract specification is one flat byte memory, \<open>phys\<close>: DDR and block RAM at their
  physical addresses. The lemmas show that an access inside RAM is an access to \<open>phys\<close>,
  that the fast path agrees with the bus, and that aligned accesses stay inside arrays.
\<close>

unbundle bit_operations_syntax

section \<open>The operations\<close>

text \<open>
  A failing guard (\<open>Cpu_assert\<close>) starts the report of \<^verbatim>\<open>CPUAssert\<close>, which \<open>reported\<close> of theory \<open>Run\<close>
  adds to a run of the processor.
\<close>

definition load_mem :: "u32 \<Rightarrow> u32 \<Rightarrow> (machine, u32) op" where
  "load_mem addr len =
     seq_op (check_op Cpu_assert (0x1000 \<le> addr))
    (let pa = prot_addr addr
     in if DDR_BASE \<le> pa \<and> pa < DDR_BASE + DDR_SIZE then
          bind_op (gets_op (\<lambda>s. ddr (m_ddr s))) (\<lambda>buf.
          lift_op (read_handler (unat DDR_SIZE) buf (unat (pa - DDR_BASE)) len))
        else if BRAM_BASE \<le> pa \<and> pa < BRAM_BASE + BRAM_SIZE then
          bind_op (gets_op (\<lambda>s. bram (m_bram s))) (\<lambda>buf.
          lift_op (read_handler (unat BRAM_SIZE) buf (unat (pa - BRAM_BASE)) len))
        else vaddr_read addr len)"

definition store_mem :: "u32 \<Rightarrow> u32 \<Rightarrow> u32 \<Rightarrow> (machine, unit) op" where
  "store_mem addr len data =
     seq_op (check_op Cpu_assert (0x1000 \<le> addr))
    (let pa = prot_addr addr
     in if DDR_BASE \<le> pa \<and> pa < DDR_BASE + DDR_SIZE then
          bind_op (gets_op (\<lambda>s. ddr (m_ddr s))) (\<lambda>buf.
          bind_op (lift_op (write_handler (unat DDR_SIZE) buf (unat (pa - DDR_BASE)) len data)) (\<lambda>buf'.
          mod_op (\<lambda>s. s\<lparr>m_ddr := (m_ddr s)\<lparr>ddr := buf'\<rparr>\<rparr>)))
        else vaddr_write addr len data)"

definition instr_fetch :: "u32 \<Rightarrow> (machine, u32) op" where
  "instr_fetch addr = load_mem addr 4"

section \<open>The flat memory\<close>

definition phys :: "machine \<Rightarrow> bytes" where
  "phys s p = (if p < 0x8000000 then ddr (m_ddr s) p
     else if 0x1fc00000 \<le> p \<and> p < 0x1fd00000 then bram (m_bram s) (p - 0x1fc00000)
     else 0)"

text \<open>Everything but the RAM arrays.\<close>

definition rest :: "machine \<Rightarrow> CPU_state \<times> video_state \<times> serial_state \<times> keyboard_state
    \<times> emac_state \<times> monitor_state \<times> iq_state \<times> tracer_state \<times> u32 \<times> u64 \<times> u64" where
  "rest s = (m_cpu s, m_vga s, m_uart s, m_kb s, m_mac s, m_mon s, m_iq s, m_trace s, ninstr s, jiffy s,
     nemu_start_time s)"

text \<open>An address is aligned as the processor checks it.\<close>

definition aligned :: "u32 \<Rightarrow> u32 \<Rightarrow> bool" where
  "aligned align addr \<longleftrightarrow> addr AND (align - 1) = 0"

lemma access_width_pos: "access_width n \<Longrightarrow> 0 < unat n \<and> unat n \<le> 4"
  by (auto simp: access_width_def)

lemma unat_mod_pow: "take_bit k (w::u32) = 0 \<longleftrightarrow> unat w mod 2 ^ k = 0"
  by (metis take_bit_eq_mod unat_eq_zero unsigned_take_bit_eq)

lemma aligned_iff:
  assumes "access_width n"
  shows "aligned n a \<longleftrightarrow> unat a mod unat n = 0"
  using assms
proof (cases rule: access_width_cases)
  case byte
  then show ?thesis by (simp add: aligned_def)
next
  case half
  have "a AND 1 = take_bit 1 a" by (simp add: take_bit_eq_mask mask_eq_exp_minus_1)
  with half show ?thesis using unat_mod_pow [of 1 a] by (simp add: aligned_def)
next
  case word
  have "a AND 3 = take_bit 2 a" by (simp add: take_bit_eq_mask mask_eq_exp_minus_1)
  with word show ?thesis using unat_mod_pow [of 2 a] by (simp add: aligned_def)
qed

lemma unat_sub_base: "(b::u32) \<le> a \<Longrightarrow> unat (a - b) = unat a - unat b"
  by (rule unat_sub)

lemma base_le: "0x1fc00000 \<le> unat (a::u32) \<longleftrightarrow> 0x1fc00000 \<le> a"
  by (simp add: word_le_nat_alt)

section \<open>Accesses inside RAM\<close>

lemma load_mem_ddr:
  assumes "access_width n" "0x1000 \<le> a" "unat (prot_addr a) < 0x8000000"
  shows "load_mem a n s =
    (if 0x8000000 < unat (prot_addr a) + unat n then Inl (Ub Out_of_bounds)
     else Inr (load_le (ddr (m_ddr s)) (unat (prot_addr a)) (unat n)), s)"
  using assms by (simp add: load_mem_def op_simps Let_def word_less_nat_alt read_handler_spec)

lemma load_mem_bram:
  assumes "access_width n" "0x1000 \<le> a"
    and "0x1fc00000 \<le> unat (prot_addr a)" "unat (prot_addr a) < 0x1fd00000"
  shows "load_mem a n s =
    (if 0x1fd00000 < unat (prot_addr a) + unat n then Inl (Ub Out_of_bounds)
     else Inr (load_le (bram (m_bram s)) (unat (prot_addr a) - 0x1fc00000) (unat n)), s)"
  using assms
  by (auto simp: load_mem_def op_simps Let_def word_less_nat_alt word_le_nat_alt read_handler_spec
      unat_sub_base)

lemma load_mem_bus:
  assumes "0x1000 \<le> a" "0x8000000 \<le> unat (prot_addr a)"
    and "\<not> (0x1fc00000 \<le> unat (prot_addr a) \<and> unat (prot_addr a) < 0x1fd00000)"
  shows "load_mem a n s = vaddr_read a n s"
  using assms
  by (auto simp: load_mem_def op_simps Let_def word_less_nat_alt word_le_nat_alt)

lemma store_mem_ddr:
  assumes "access_width n" "0x1000 \<le> a" "unat (prot_addr a) < 0x8000000"
  shows "store_mem a n d s =
    (if 0x8000000 < unat (prot_addr a) + unat n then (Inl (Ub Out_of_bounds), s)
     else (Inr (), s\<lparr>m_ddr := (m_ddr s)\<lparr>ddr :=
       store_le (ddr (m_ddr s)) (unat (prot_addr a)) (unat n) d\<rparr>\<rparr>))"
  using assms by (simp add: store_mem_def op_simps Let_def word_less_nat_alt write_handler_spec)

lemma store_mem_bus:
  assumes "0x1000 \<le> a" "0x8000000 \<le> unat (prot_addr a)"
  shows "store_mem a n d s = vaddr_write a n d s"
  using assms by (simp add: store_mem_def op_simps Let_def word_less_nat_alt)

lemma access_low: "a < 0x1000 \<Longrightarrow> load_mem a n s = (Inl Cpu_assert, s)"
  "a < 0x1000 \<Longrightarrow> store_mem a n d s = (Inl Cpu_assert, s)"
  by (simp_all add: load_mem_def store_mem_def op_simps flip: not_le)

lemma store_mem_bram:
  assumes "access_width n" "0x1000 \<le> a"
    and "0x1fc00000 \<le> unat (prot_addr a)" "unat (prot_addr a) + unat n \<le> 0x1fd00000"
  shows "\<exists>t. store_mem a n d s = (Inr (), s\<lparr>m_bram := t\<rparr>)
    \<and> bram t = store_le (bram (m_bram s)) (unat (prot_addr a) - 0x1fc00000) (unat n) d"
proof -
  let ?i = "prot_addr a - 0x1fc00000"
  have i: "unat ?i = unat (prot_addr a) - 0x1fc00000"
    using assms(3) by (simp add: unat_sub_base word_le_nat_alt)
  have lt: "unat (prot_addr a) < 0x1fd00000"
    using assms(4) access_width_pos [OF assms(1)] by simp
  obtain t where "bram_write ?i n d (m_bram s) = (Inr (), t)"
    and "bram t = store_le (bram (m_bram s)) (unat ?i) (unat n) d"
    by (rule bram_ram.wr_inside [OF assms(1), of ?i d "m_bram s"]) (use i assms in simp_all)
  then show ?thesis
    using assms lt i
    by (auto simp: store_mem_bus vaddr_write_region region_at_bram bram_region_def on_bram_def op_simps)
qed

lemma load_mem_ram:
  assumes "access_width n" "0x1000 \<le> a" "in_ram (unat (prot_addr a)) (unat n)"
  shows "load_mem a n s = (Inr (load_le (phys s) (unat (prot_addr a)) (unat n)), s)"
proof (cases "unat (prot_addr a) < 0x8000000")
  case True
  then have "load_le (phys s) (unat (prot_addr a)) (unat n)
      = load_le (ddr (m_ddr s)) (unat (prot_addr a)) (unat n)"
    using assms(3) by (intro load_le_cong) (simp add: phys_def in_ram_def)
  with True assms show ?thesis by (simp add: load_mem_ddr in_ram_def)
next
  case False
  let ?p = "unat (prot_addr a) - 0x1fc00000"
  have ge: "0x1fc00000 \<le> unat (prot_addr a)" "unat (prot_addr a) + unat n \<le> 0x1fd00000"
    using False assms(3) access_width_pos [OF assms(1)] by (auto simp: in_ram_def)
  have shift: "load_le (\<lambda>q. m (q - b)) (b + i) k = load_le m i k" for m b i k
    by (induction k arbitrary: i) (simp_all flip: add_Suc_right)
  have "load_le (phys s) (unat (prot_addr a)) (unat n)
      = load_le (\<lambda>q. bram (m_bram s) (q - 0x1fc00000)) (unat (prot_addr a)) (unat n)"
    using ge by (intro load_le_cong) (simp add: phys_def)
  also have "\<dots> = load_le (bram (m_bram s)) ?p (unat n)"
    using shift [of "bram (m_bram s)" "0x1fc00000" ?p "unat n"] ge(1) by simp
  finally show ?thesis
    using assms ge access_width_pos [OF assms(1)] by (simp add: load_mem_bram)
qed

lemma store_mem_ram:
  assumes "access_width n" "0x1000 \<le> a" "in_ram (unat (prot_addr a)) (unat n)"
  shows "\<exists>t. store_mem a n d s = (Inr (), t)
    \<and> phys t = store_le (phys s) (unat (prot_addr a)) (unat n) d \<and> rest t = rest s"
proof (cases "unat (prot_addr a) < 0x8000000")
  case True
  with assms have "unat (prot_addr a) + unat n \<le> 0x8000000" by (simp add: in_ram_def)
  with True assms show ?thesis
    by (auto simp: store_mem_ddr phys_def store_le_def fun_eq_iff rest_def)
next
  case False
  have ge: "0x1fc00000 \<le> unat (prot_addr a)" "unat (prot_addr a) + unat n \<le> 0x1fd00000"
    using False assms(3) access_width_pos [OF assms(1)] by (auto simp: in_ram_def)
  obtain t where "store_mem a n d s = (Inr (), s\<lparr>m_bram := t\<rparr>)"
    and t: "bram t = store_le (bram (m_bram s)) (unat (prot_addr a) - 0x1fc00000) (unat n) d"
    using store_mem_bram [OF assms(1,2) ge] by blast
  moreover have "phys (s\<lparr>m_bram := t\<rparr>) = store_le (phys s) (unat (prot_addr a)) (unat n) d"
    using ge by (auto simp: phys_def t store_le_def fun_eq_iff)
  ultimately show ?thesis by (auto simp: rest_def)
qed

section \<open>Frame, invariant and range\<close>

lemma load_mem_core: "core (snd (load_mem a n s)) = core s"
  using vaddr_read_core [of a n s] by (simp add: load_mem_def op_simps Let_def)

lemma store_mem_core: "core (snd (store_mem a n d s)) = core s"
  using vaddr_write_core [of a n d s]
  by (simp add: store_mem_def op_simps Let_def core_def split: sum.split)

lemma load_mem_wf: "keeps machine_wf (load_mem a n)"
  unfolding load_mem_def Let_def by (intro keeps_rules vaddr_read_wf)

lemma store_mem_wf: "keeps machine_wf (store_mem a n d)"
  unfolding store_mem_def Let_def
  by (intro keeps_rules vaddr_write_wf) (simp add: machine_wf_def)

lemma aligned_room:
  assumes "access_width n" "aligned n a" "unat (prot_addr a) < b" "b mod 4 = 0"
  shows "unat (prot_addr a) + unat n \<le> b"
proof -
  from assms(1) have dvd: "unat n dvd 4" by (auto simp: access_width_def)
  have "unat n dvd unat a" using assms(1,2) by (simp add: aligned_iff dvd_eq_mod_eq_0)
  moreover have "unat n dvd (0x20000000::nat)" using dvd dvd_trans [of "unat n" 4] by simp
  ultimately have "unat n dvd unat (prot_addr a)" by (simp add: unat_prot_addr dvd_mod)
  moreover have "unat n dvd b" using dvd assms(4) by (meson dvd_eq_mod_eq_0 dvd_trans)
  ultimately obtain i j where "unat (prot_addr a) = unat n * i" "b = unat n * j"
    by (auto elim!: dvdE)
  moreover from this assms(3) have "i < j" by (simp add: mult_less_cancel1)
  then have "unat n * Suc i \<le> unat n * j" by (intro mult_le_mono) simp_all
  ultimately show ?thesis by simp
qed

section \<open>Properties\<close>

lemma vaddr_read_ddr:
  assumes "unat (prot_addr a) < 0x8000000"
  shows "vaddr_read a n s = on_ddr (ddr_read (prot_addr a) n) s"
  using assms by (simp add: vaddr_read_region region_at_ddr ddr_region_def)

lemma vaddr_read_bram:
  assumes "0x1fc00000 \<le> unat (prot_addr a)" "unat (prot_addr a) < 0x1fd00000"
  shows "vaddr_read a n s = on_bram (bram_read (prot_addr a - 0x1fc00000) n) s"
  using assms by (simp add: vaddr_read_region region_at_bram bram_region_def)

lemma vaddr_write_ddr:
  assumes "unat (prot_addr a) < 0x8000000"
  shows "vaddr_write a n d s = on_ddr (ddr_write (prot_addr a) n d) s"
  using assms by (simp add: vaddr_write_region region_at_ddr ddr_region_def)

lemma ddr_write_inside:
  assumes "access_width n" "unat a + unat n \<le> 0x8000000"
  shows "ddr_write a n d c = (Inr (), c\<lparr>ddr := store_le (ddr c) (unat a) (unat n) d\<rparr>)"
  using assms ddr_range_iff [OF assms(1), of a]
  by (simp add: ddr_write_def check_ddr_def op_simps write_masked_word_inside)

lemma load_le_phys:
  "p + k \<le> 0x8000000 \<Longrightarrow> load_le (phys s) p k = load_le (ddr (m_ddr s)) p k"
  "0x1fc00000 \<le> p \<Longrightarrow> p + k \<le> 0x1fd00000 \<Longrightarrow>
    load_le (phys s) p k = load_le (bram (m_bram s)) (p - 0x1fc00000) k"
proof -
  show "p + k \<le> 0x8000000 \<Longrightarrow> load_le (phys s) p k = load_le (ddr (m_ddr s)) p k"
    by (intro load_le_cong) (simp add: phys_def)
  assume p: "0x1fc00000 \<le> p" "p + k \<le> 0x1fd00000"
  have shift: "load_le (\<lambda>q. m (q - b)) (b + i) k = load_le m i k" for m b i k
    by (induction k arbitrary: i) (simp_all flip: add_Suc_right)
  have "load_le (phys s) p k = load_le (\<lambda>q. bram (m_bram s) (q - 0x1fc00000)) p k"
    using p by (intro load_le_cong) (simp add: phys_def)
  also have "\<dots> = load_le (bram (m_bram s)) (p - 0x1fc00000) k"
    using shift [of "bram (m_bram s)" "0x1fc00000" "p - 0x1fc00000" k] p(1) by simp
  finally show "load_le (phys s) p k = load_le (bram (m_bram s)) (p - 0x1fc00000) k" .
qed

text \<open>A read of RAM over the bus, whatever the address: the guard page is a check of the fast path.\<close>

lemma vaddr_read_ram:
  assumes n: "access_width n" and r: "in_ram (unat (prot_addr a)) 4"
  shows "vaddr_read a n s = (Inr (load_le (phys s) (unat (prot_addr a)) (unat n)), s)"
proof -
  let ?p = "unat (prot_addr a)"
  have le: "unat n \<le> 4" using n by (auto simp: access_width_def)
  from r consider "?p + 4 \<le> 0x8000000" | "0x1fc00000 \<le> ?p" "?p + 4 \<le> 0x1fd00000"
    by (auto simp: in_ram_def)
  then show ?thesis
  proof cases
    case 1
    with le show ?thesis
      using ddr_ram.rd_inside [OF n, of "prot_addr a" "m_ddr s"]
      by (simp add: vaddr_read_ddr on_ddr_def op_simps load_le_phys(1))
  next
    case 2
    then have "unat (prot_addr a - 0x1fc00000) = ?p - 0x1fc00000"
      by (simp add: unat_sub word_le_nat_alt)
    with 2 le show ?thesis
      using bram_ram.rd_inside [OF n, of "prot_addr a - 0x1fc00000" "m_bram s"]
      by (simp add: vaddr_read_bram on_bram_def op_simps load_le_phys(2))
  qed
qed

text \<open>
  C4: The inlined fast path of the processor is an optimisation only: above the guard page, a
  load or store of an access width inside RAM (loads: with four bytes left in the device,
  which is what the bus path reads) does exactly what the same access through the bus does,
  and everything outside RAM goes through the bus.
\<close>

theorem fast_path_is_bus:
  assumes "access_width n" "0x1000 \<le> a"
  shows "(in_ram (unat (prot_addr a)) 4 \<longrightarrow> load_mem a n s = vaddr_read a n s)
    \<and> (in_ram (unat (prot_addr a)) (unat n) \<longrightarrow> store_mem a n d s = vaddr_write a n d s)
    \<and> (\<not> in_ram (unat (prot_addr a)) 1 \<longrightarrow>
        load_mem a n s = vaddr_read a n s \<and> store_mem a n d s = vaddr_write a n d s)"
proof (intro conjI impI)
  let ?p = "unat (prot_addr a)"
  have n: "0 < unat n" "unat n \<le> 4" using access_width_pos [OF assms(1)] by simp_all
  show "load_mem a n s = vaddr_read a n s" if r: "in_ram ?p 4"
    using r n(2) load_mem_ram [OF assms] vaddr_read_ram [OF assms(1) r] by (auto simp: in_ram_def)
  show "store_mem a n d s = vaddr_write a n d s" if r: "in_ram ?p (unat n)"
  proof (cases "?p < 0x8000000")
    case True
    with r have fit: "?p + unat n \<le> 0x8000000" by (simp add: in_ram_def)
    then show ?thesis
      using n ddr_write_inside [OF assms(1), of "prot_addr a" d "m_ddr s"]
      by (simp add: store_mem_ddr [OF assms True] vaddr_write_ddr [OF True] on_ddr_def op_simps)
  next
    case False
    then show ?thesis by (simp add: store_mem_bus [OF assms(2)])
  qed
  show "load_mem a n s = vaddr_read a n s" "store_mem a n d s = vaddr_write a n d s"
    if "\<not> in_ram ?p 1"
    using that assms(2) by (auto simp: in_ram_def intro: load_mem_bus store_mem_bus)
qed

theorem fast_path_is_bus_witness:
  "load_mem 0x80002000 4 machine_init = vaddr_read 0x80002000 4 machine_init"
  using fast_path_is_bus [of 4 "0x80002000" machine_init 0]
  by (simp add: unat_prot_addr in_ram_def)

text \<open>The last bytes of DDR: the fast path reads them, the bus reads past the array.\<close>

lemma last_byte_differs:
  "load_mem 0x87FFFFFF 1 s = (Inr (ucast (ddr (m_ddr s) 0x7FFFFFF)), s)
   \<and> vaddr_read 0x87FFFFFF 1 s = (Inl (Ub Out_of_bounds), s)"
proof -
  have p: "unat (prot_addr 0x87FFFFFF) = 0x7FFFFFF" by (simp add: unat_prot_addr)
  then have q: "prot_addr 0x87FFFFFF = 0x7FFFFFF" by (simp add: word_unat_eq_iff)
  have "load_mem 0x87FFFFFF 1 s = (Inr (ucast (ddr (m_ddr s) 0x7FFFFFF)), s)"
    using p by (simp add: load_mem_ddr)
  moreover have "vaddr_read 0x87FFFFFF 1 s = (Inl (Ub Out_of_bounds), s)"
    using p by (simp add: vaddr_read_ddr q on_ddr_def op_simps ddr_read_def check_ddr_def
        read_masked_word_def)
  ultimately show ?thesis by simp
qed

text \<open>
  C5: A load returns what the last store to the same physical bytes wrote, through whichever
  window each of them goes.
\<close>

theorem store_load_roundtrip:
  assumes "access_width n" "0x1000 \<le> a" "0x1000 \<le> b" "prot_addr a = prot_addr b"
    and "in_ram (unat (prot_addr a)) (unat n)"
  shows "\<exists>t. store_mem a n d s = (Inr (), t) \<and> load_mem b n t = (Inr (take_bit (8 * unat n) d), t)"
proof -
  obtain t where t: "store_mem a n d s = (Inr (), t)"
    and m: "phys t = store_le (phys s) (unat (prot_addr a)) (unat n) d"
    using store_mem_ram [OF assms(1,2,5)] by blast
  have "unat n \<le> 4" using access_width_pos [OF assms(1)] by simp
  then have "load_mem b n t = (Inr (take_bit (8 * unat n) d), t)"
    using load_mem_ram [OF assms(1,3)] assms(4,5) by (simp add: m load_store_same)
  with t show ?thesis by blast
qed

theorem store_load_roundtrip_witness:
  "\<exists>t. store_mem 0x80004000 4 7 machine_init = (Inr (), t) \<and> load_mem 0xA0004000 4 t = (Inr 7, t)"
proof -
  have "prot_addr 0x80004000 = prot_addr 0xA0004000"
    by (simp add: word_unat_eq_iff unat_prot_addr)
  then show ?thesis
    using store_load_roundtrip [of 4 "0x80004000" "0xA0004000" 7 machine_init]
    by (simp add: unat_prot_addr in_ram_def take_bit_word_eq_self)
qed

text \<open>
  C21: A store changes no other bytes: a load of a disjoint range of RAM returns the same value
  before and after it.
\<close>

theorem store_frame:
  assumes "access_width n" "access_width k" "0x1000 \<le> a" "0x1000 \<le> b"
    and "in_ram (unat (prot_addr a)) (unat n)" "in_ram (unat (prot_addr b)) (unat k)"
    and "unat (prot_addr b) + unat k \<le> unat (prot_addr a)
      \<or> unat (prot_addr a) + unat n \<le> unat (prot_addr b)"
  shows "\<exists>t. store_mem a n d s = (Inr (), t) \<and> fst (load_mem b k t) = fst (load_mem b k s)"
proof -
  obtain t where t: "store_mem a n d s = (Inr (), t)"
    and m: "phys t = store_le (phys s) (unat (prot_addr a)) (unat n) d"
    using store_mem_ram [OF assms(1,3,5)] by blast
  have "fst (load_mem b k t) = fst (load_mem b k s)"
    using assms(7) by (simp add: load_mem_ram [OF assms(2,4,6)] m load_store_other)
  with t show ?thesis by blast
qed

theorem store_frame_witness:
  "\<exists>t. store_mem 0x80004000 4 7 machine_init = (Inr (), t)
     \<and> fst (load_mem 0x9FC00000 2 t) = fst (load_mem 0x9FC00000 2 machine_init)"
  by (rule store_frame) (simp_all add: unat_prot_addr in_ram_def)

section \<open>Faults of an access\<close>

text \<open>
  An aligned access can end the emulator in three ways only: its own assertion, the exit of the
  trap device in the batch modes, and, outside the C language, the copy of a MAC address with a
  transmit length above six.
\<close>

definition mac_overrun :: "emac_state \<Rightarrow> bool" where
  "mac_overrun m \<longleftrightarrow>
     emac_reg TX_PING_TSR m AND XEL_TSR_PROGRAM_MASK \<noteq> 0 \<and> 6 < unat (emac_reg TX_PING_TPLR m)
   \<or> emac_reg TX_PONG_TSR m AND XEL_TSR_PROG_MAC_ADDR \<noteq> 0 \<and> 6 < unat (emac_reg TX_PONG_TPLR m)"

definition access_fault :: "fault \<Rightarrow> machine \<Rightarrow> bool" where
  "access_fault e s \<longleftrightarrow> e = Cpu_assert
     \<or> e = Exit 0 \<and> odd (work_mode (m_mon s)) \<and> nemu_state (m_mon s) = NEMU_END
     \<or> e = Ub Out_of_bounds \<and> mac_overrun (m_mac s)"

lemma device_read_faults:
  "wp (serial_read a n) (\<lambda>_ _. True) (\<lambda>e _. e = Cpu_assert) c"
  "wp (mac_read a n) (\<lambda>_ _. True) (\<lambda>e _. e = Cpu_assert) m"
  by (simp_all add: serial_read_def serial_peek_def check_serial_def mac_read_def check_mac_def wp_simps)

lemma device_write_faults:
  "wp (serial_write a n d) (\<lambda>_ _. True) (\<lambda>e _. e = Cpu_assert) c"
  "wp (gpio_write a n d) (\<lambda>_ _. True) (\<lambda>e t. e = Cpu_assert
     \<or> e = Exit 0 \<and> odd (work_mode t) \<and> nemu_state t = NEMU_END) g"
  "wp (mac_write a n d) (\<lambda>_ _. True) (\<lambda>e t. e = Cpu_assert \<or> e = Ub Out_of_bounds \<and> mac_overrun t) m"
proof -
  show "wp (serial_write a n d) (\<lambda>_ _. True) (\<lambda>e _. e = Cpu_assert) c"
    by (simp add: serial_write_def check_serial_def wp_simps)
  show "wp (gpio_write a n d) (\<lambda>_ _. True) (\<lambda>e t. e = Cpu_assert
      \<or> e = Exit 0 \<and> odd (work_mode t) \<and> nemu_state t = NEMU_END) g"
    by (simp add: gpio_write_def check_gpio_def eprintf_def wp_simps and_one_eq odd_iff_mod_2_eq_one)
  define E where "E = (\<lambda>e t. e = Cpu_assert \<or> e = Ub Out_of_bounds \<and> mac_overrun t)"
  have mii: "wp mii_transaction (\<lambda>_. wp (mod_op f) (\<lambda>_ _. True) E) E u" for f u
    by (simp add: mii_transaction_def mii_write_def wp_simps Let_def E_def)
  have over: "E (Ub Out_of_bounds) t \<longleftrightarrow> mac_overrun t" "E Cpu_assert t" for t
    by (simp_all add: E_def)
  have "wp (mac_write a n d) (\<lambda>_ _. True) E m"
    by (simp add: mac_write_def check_mac_def wp_simps copy_mac_addr_def mii over mac_overrun_def
        ENET_ADDR_LENGTH_def)
  then show "wp (mac_write a n d) (\<lambda>_ _. True)
      (\<lambda>e t. e = Cpu_assert \<or> e = Ub Out_of_bounds \<and> mac_overrun t) m"
    unfolding E_def .
qed

text \<open>Faults of one component's operation are faults of the machine.\<close>

lemma wp_on:
  "wp m (\<lambda>_ _. True) (\<lambda>e _. e = Cpu_assert) c \<Longrightarrow> wp m (\<lambda>_ _. True) (\<lambda>e c. access_fault e (f c)) c"
  by (erule wp_mono) (simp_all add: access_fault_def)

lemma aligned_load_faults:
  assumes "access_width n" "aligned n a"
  shows "wp (load_mem a n) (\<lambda>_ _. True) (\<lambda>e _. e = Cpu_assert) s"
proof (cases "a < 0x1000")
  case True
  then show ?thesis by (simp add: access_low wp_def)
next
  case False
  let ?p = "unat (prot_addr a)"
  from False have low: "0x1000 \<le> a" by simp
  consider "?p < 0x8000000" | "0x1fc00000 \<le> ?p" "?p < 0x1fd00000"
    | "0x8000000 \<le> ?p" "\<not> (0x1fc00000 \<le> ?p \<and> ?p < 0x1fd00000)" by linarith
  then show ?thesis
  proof cases
    case 1
    then show ?thesis
      using aligned_room [OF assms, of "0x8000000"] by (simp add: load_mem_ddr [OF assms(1) low] wp_def)
  next
    case 2
    then show ?thesis
      using aligned_room [OF assms, of "0x1fd00000"] by (simp add: load_mem_bram [OF assms(1) low] wp_def)
  next
    case 3
    have vga: "wp (vga_read (prot_addr a - 0x10400000) n) (\<lambda>_ _. True) (\<lambda>e _. e = Cpu_assert) c"
      if "0x10400000 \<le> ?p" "?p < 0x10500000" for c
    proof -
      have "unat (prot_addr a - 0x10400000) + 4 \<le> unat VMEM_SIZE"
        using that by (simp add: unat_sub word_le_nat_alt)
      from vga_ram.rd_inside [OF assms(1) this] show ?thesis by (simp add: wp_def)
    qed
    have "wp (vaddr_read a n) (\<lambda>_ _. True) (\<lambda>e _. e = Cpu_assert) s"
      unfolding vaddr_read_region
      by (cases rule: region_at_cases [of "prot_addr a"])
        (use 3 vga device_read_faults in \<open>simp_all add: region_defs wp_simps badp_read_def
          invalid_read_def on_defs\<close>)
    then show ?thesis by (simp add: wp_def load_mem_bus [OF low 3])
  qed
qed

lemma aligned_store_faults:
  assumes "access_width n" "aligned n a"
  shows "wp (store_mem a n d) (\<lambda>_ _. True) access_fault s"
proof (cases "a < 0x1000")
  case True
  then show ?thesis by (simp add: access_low wp_def access_fault_def)
next
  case False
  then have low: "0x1000 \<le> a" by simp
  show ?thesis
  proof (cases "unat (prot_addr a) < 0x8000000")
    case True
    then show ?thesis
      using aligned_room [OF assms True] by (simp add: store_mem_ddr [OF assms(1) low] wp_def)
  next
    case False
    have gpio: "wp (gpio_write b n d) (\<lambda>_ _. True) (\<lambda>e c. access_fault e (s\<lparr>m_mon := c\<rparr>)) (m_mon s)" for b
      by (rule wp_mono [OF device_write_faults(2)]) (auto simp: access_fault_def)
    have mac: "wp (mac_write b n d) (\<lambda>_ _. True) (\<lambda>e c. access_fault e (s\<lparr>m_mac := c\<rparr>)) (m_mac s)" for b
      by (rule wp_mono [OF device_write_faults(3)]) (auto simp: access_fault_def)
    have "wp (vaddr_write a n d) (\<lambda>_ _. True) access_fault s"
      unfolding vaddr_write_region
      by (cases rule: region_at_cases [of "prot_addr a"])
        (use False gpio mac wp_on [OF bram_ram.wr_faults [OF assms(1)]] wp_on [OF vga_ram.wr_faults [OF assms(1)]]
          wp_on [OF device_write_faults(1)] in \<open>simp_all add: region_defs wp_simps badp_write_def
          invalid_write_def on_defs access_fault_def\<close>)
    then show ?thesis using False by (simp add: wp_def store_mem_bus [OF low])
  qed
qed

text \<open>
  C29: A byte stored to the GPIO trap ends the run: zero reports a good trap; any other code a bad
  one, printed as code 0 whatever it was; the state becomes \<open>NEMU_END\<close>, and in the batch modes
  the emulator exits at once.
\<close>

theorem trap_store:
  "store_mem 0x10000000 1 d s =
    (if odd (work_mode (m_mon s)) then Inl (Exit 0) else Inr (),
     s\<lparr>m_mon := (m_mon s)\<lparr>nemu_state := NEMU_END, mon_err := mon_err (m_mon s) @
       [if take_bit 8 d = 0
        then ANSI_WIDTHOR_GREEN @ ''HIT GOOD TRAP'' @ newline @ ANSI_WIDTHOR_RESET
        else ANSI_WIDTHOR_RED @ ''HIT BAD TRAP code: 0'' @ newline @ ANSI_WIDTHOR_RESET]\<rparr>\<rparr>)"
proof -
  have "unat (prot_addr 0x10000000) = 0x10000000" by (simp add: unat_prot_addr)
  then have pa: "prot_addr 0x10000000 = 0x10000000" by (simp add: word_unat_eq_iff)
  have "region_at 0x10000000 = Some gpio_region" by (simp add: region_at_eq)
  moreover have "unat (ucast d :: u8) = unat (take_bit 8 d)"
    by (simp add: unsigned_ucast_eq unsigned_take_bit_eq)
  then have "(ucast d :: u8) = 0 \<longleftrightarrow> take_bit 8 d = 0"
    by (metis unat_eq_zero)
  ultimately show ?thesis
    by (simp add: store_mem_bus pa vaddr_write_region gpio_region_def on_mon_def op_simps GPIO_BASE_def gpio_write_trap)
qed

end
