(* ===== verification/Exec.thy ===== *)
theory Exec
  imports Load_Store Inst
begin

text \<open>
  Instruction execution: the handlers and dispatch tables of
  \<^verbatim>\<open>src/cpu/exec-handlers.h\<close>. The tables of label addresses are lists of
  handlers, and \<^verbatim>\<open>goto *table[i]\<close> is the call of the handler at \<open>i\<close>.
\<close>

unbundle bit_operations_syntax

section \<open>Registers and tracing\<close>

definition regs :: "string list" where
  "regs =
    [''zero'', ''at'', ''v0'', ''v1'', ''a0'', ''a1'', ''a2'', ''a3'',
     ''t0'', ''t1'', ''t2'', ''t3'', ''t4'', ''t5'', ''t6'', ''t7'',
     ''s0'', ''s1'', ''s2'', ''s3'', ''s4'', ''s5'', ''s6'', ''s7'',
     ''t8'', ''t9'', ''k0'', ''k1'', ''gp'', ''sp'', ''fp'', ''ra'']"

definition reg_name :: "5 word \<Rightarrow> string" where
  "reg_name r = regs ! unat r"

definition get_gpr :: "5 word \<Rightarrow> machine \<Rightarrow> u32" where
  "get_gpr r s = gpr (m_cpu s) r"

definition set_gpr :: "5 word \<Rightarrow> u32 \<Rightarrow> machine \<Rightarrow> machine" where
  "set_gpr r v s = s\<lparr>m_cpu := (m_cpu s)\<lparr>gpr := (gpr (m_cpu s))(r := v)\<rparr>\<rparr>"

definition get_csr :: "12 word \<Rightarrow> machine \<Rightarrow> u32" where
  "get_csr i s = csr (m_cpu s) i"

definition set_csr :: "12 word \<Rightarrow> u32 \<Rightarrow> machine \<Rightarrow> machine" where
  "set_csr i v s = s\<lparr>m_cpu := (m_cpu s)\<lparr>csr := (csr (m_cpu s))(i := v)\<rparr>\<rparr>"

definition get_pc :: "machine \<Rightarrow> u32" where
  "get_pc s = pc (m_cpu s)"

definition set_pc :: "u32 \<Rightarrow> machine \<Rightarrow> machine" where
  "set_pc v s = s\<lparr>m_cpu := (m_cpu s)\<lparr>pc := v\<rparr>\<rparr>"

abbreviation src1 :: "u32 \<Rightarrow> machine \<Rightarrow> u32" where "src1 w \<equiv> get_gpr (inst_rs1 w)"
abbreviation src2 :: "u32 \<Rightarrow> machine \<Rightarrow> u32" where "src2 w \<equiv> get_gpr (inst_rs2 w)"

definition trace :: "string \<Rightarrow> (machine, unit) op" where
  "trace msg = bind_op (on_trace (trace_append msg)) (\<lambda>_. ok ())"

text \<open>The operand formats \<open>%s,%s,%s\<close>, \<open>%s,%s,%d\<close>, \<open>%s,%d(%s)\<close> and \<open>%s,%x\<close>.\<close>

definition asm_rrr :: "string \<Rightarrow> u32 \<Rightarrow> string" where
  "asm_rrr name w = name @ tab @ reg_name (inst_rd w) @ '','' @ reg_name (inst_rs1 w)
     @ '','' @ reg_name (inst_rs2 w)"

definition asm_rri :: "string \<Rightarrow> u32 \<Rightarrow> int \<Rightarrow> string" where
  "asm_rri name w imm = name @ tab @ reg_name (inst_rd w) @ '','' @ reg_name (inst_rs1 w)
     @ '','' @ fmt_d imm"

definition asm_mem :: "string \<Rightarrow> 5 word \<Rightarrow> int \<Rightarrow> u32 \<Rightarrow> string" where
  "asm_mem name r off w = name @ tab @ reg_name r @ '','' @ fmt_d off
     @ ''('' @ reg_name (inst_rs1 w) @ '')''"

definition asm_ux :: "string \<Rightarrow> u32 \<Rightarrow> string" where
  "asm_ux name w = name @ tab @ reg_name (inst_rd w) @ '','' @ fmt_x (ucast (U_imm_31_12 w))"

section \<open>Invalid instructions\<close>

definition exec_inv :: "u32 \<Rightarrow> (machine, unit) op" where
  "exec_inv w =
     bind_op (gets_op get_pc) (\<lambda>pc.
     on_mon (mod_op (\<lambda>s. s\<lparr>mon_out := mon_out s @
       [''invalid opcode(pc = 0x'' @ fmt_08x pc @ ''): '' @ fmt_02x (ucast w) @ '' ''
          @ fmt_02x (ucast (drop_bit 8 w)) @ '' '' @ fmt_02x (ucast (drop_bit 16 w)) @ '' ''
          @ fmt_02x (ucast (drop_bit 24 w)) @ '' ...'' @ newline],
       nemu_state := NEMU_END\<rparr>)))"

section \<open>Register to register\<close>

text \<open>The comparison operators yield the integers 0 and 1.\<close>

definition c_bool :: "bool \<Rightarrow> u32" where
  "c_bool b = (if b then 1 else 0)"

definition exec_add :: "u32 \<Rightarrow> (machine, unit) op" where
  "exec_add w =
     seq_op (mod_op (\<lambda>s. set_gpr (inst_rd w) (src1 w s + src2 w s) s))
    (trace (asm_rrr ''add'' w))"

definition exec_sub :: "u32 \<Rightarrow> (machine, unit) op" where
  "exec_sub w =
     seq_op (mod_op (\<lambda>s. set_gpr (inst_rd w) (src1 w s - src2 w s) s))
    (trace (asm_rrr ''sub'' w))"

definition exec_and :: "u32 \<Rightarrow> (machine, unit) op" where
  "exec_and w =
     seq_op (mod_op (\<lambda>s. set_gpr (inst_rd w) (src1 w s AND src2 w s) s))
    (trace (asm_rrr ''and'' w))"

definition exec_or :: "u32 \<Rightarrow> (machine, unit) op" where
  "exec_or w =
     seq_op (mod_op (\<lambda>s. set_gpr (inst_rd w) (src1 w s OR src2 w s) s))
    (trace (asm_rrr ''or'' w))"

definition exec_xor :: "u32 \<Rightarrow> (machine, unit) op" where
  "exec_xor w =
     seq_op (mod_op (\<lambda>s. set_gpr (inst_rd w) (src1 w s XOR src2 w s) s))
    (trace (asm_rrr ''xor'' w))"

definition exec_slt :: "u32 \<Rightarrow> (machine, unit) op" where
  "exec_slt w =
     seq_op (mod_op (\<lambda>s. set_gpr (inst_rd w) (c_bool (sint (src1 w s) < sint (src2 w s))) s))
    (trace (asm_rrr ''slt'' w))"

definition exec_sltu :: "u32 \<Rightarrow> (machine, unit) op" where
  "exec_sltu w =
     seq_op (mod_op (\<lambda>s. set_gpr (inst_rd w) (c_bool (src1 w s < src2 w s)) s))
    (trace (asm_rrr ''sltu'' w))"

definition exec_sll :: "u32 \<Rightarrow> (machine, unit) op" where
  "exec_sll w =
     seq_op (mod_op (\<lambda>s. set_gpr (inst_rd w) (push_bit (unat (src2 w s AND 0x1f)) (src1 w s)) s))
    (trace (asm_rrr ''sll'' w))"

definition exec_srl :: "u32 \<Rightarrow> (machine, unit) op" where
  "exec_srl w =
     seq_op (mod_op (\<lambda>s. set_gpr (inst_rd w) (drop_bit (unat (src2 w s AND 0x1f)) (src1 w s)) s))
    (trace (asm_rrr ''srl'' w))"

definition exec_sra :: "u32 \<Rightarrow> (machine, unit) op" where
  "exec_sra w =
     seq_op (mod_op (\<lambda>s. set_gpr (inst_rd w) (signed_drop_bit (unat (src2 w s AND 0x1f)) (src1 w s)) s))
    (trace (asm_rrr ''sra'' w))"

definition exec_mul :: "u32 \<Rightarrow> (machine, unit) op" where
  "exec_mul w =
     seq_op (mod_op (\<lambda>s. set_gpr (inst_rd w) (ucast ((scast (src1 w s) :: u64) * scast (src2 w s))) s))
    (trace (asm_rrr ''mul'' w))"

definition exec_mulh :: "u32 \<Rightarrow> (machine, unit) op" where
  "exec_mulh w =
     seq_op (mod_op (\<lambda>s. set_gpr (inst_rd w) (ucast (signed_drop_bit 32 ((scast (src1 w s) :: u64) * scast (src2 w s)))) s))
    (trace (asm_rrr ''mulh'' w))"

definition exec_mulhu :: "u32 \<Rightarrow> (machine, unit) op" where
  "exec_mulhu w =
     seq_op (mod_op (\<lambda>s. set_gpr (inst_rd w) (ucast (drop_bit 32 ((ucast (src1 w s) :: u64) * ucast (src2 w s)))) s))
    (trace (asm_rrr ''mulhu'' w))"

definition exec_mulhsu :: "u32 \<Rightarrow> (machine, unit) op" where
  "exec_mulhsu w =
     seq_op (mod_op (\<lambda>s. set_gpr (inst_rd w) (ucast (signed_drop_bit 32 ((scast (src1 w s) :: u64) * ucast (src2 w s)))) s))
    (trace (asm_rrr ''mulhsu'' w))"

section \<open>Division\<close>

text \<open>
  Division by zero and the overflowing signed division are undefined in C (on the
  emulator's host they raise \<^verbatim>\<open>SIGFPE\<close>).
\<close>

definition check_divisor :: "bool \<Rightarrow> u32 \<Rightarrow> u32 \<Rightarrow> (machine, unit) op" where
  "check_divisor sgnd a b =
     (if b = 0 then raise (Ub Division_by_zero)
      else if sgnd \<and> sint a = - (2 ^ 31) \<and> sint b = - 1 then raise (Ub Division_overflow)
      else ok ())"

definition exec_div :: "u32 \<Rightarrow> (machine, unit) op" where
  "exec_div w =
     seq_op (bind_op (gets_op (\<lambda>s. (src1 w s, src2 w s))) (\<lambda>(a, b). check_divisor True a b))
    (seq_op (mod_op (\<lambda>s. set_gpr (inst_rd w) (word_of_int (sint (src1 w s) sdiv sint (src2 w s))) s))
    (trace (asm_rrr ''div'' w)))"

definition exec_rem :: "u32 \<Rightarrow> (machine, unit) op" where
  "exec_rem w =
     seq_op (bind_op (gets_op (\<lambda>s. (src1 w s, src2 w s))) (\<lambda>(a, b). check_divisor True a b))
    (seq_op (mod_op (\<lambda>s. set_gpr (inst_rd w) (word_of_int (sint (src1 w s) smod sint (src2 w s))) s))
    (trace (asm_rrr ''rem'' w)))"

definition exec_divu :: "u32 \<Rightarrow> (machine, unit) op" where
  "exec_divu w =
     seq_op (bind_op (gets_op (\<lambda>s. (src1 w s, src2 w s))) (\<lambda>(a, b). check_divisor False a b))
    (seq_op (mod_op (\<lambda>s. set_gpr (inst_rd w) (src1 w s div src2 w s) s))
    (trace (asm_rrr ''divu'' w)))"

definition exec_remu :: "u32 \<Rightarrow> (machine, unit) op" where
  "exec_remu w =
     seq_op (bind_op (gets_op (\<lambda>s. (src1 w s, src2 w s))) (\<lambda>(a, b). check_divisor False a b))
    (seq_op (mod_op (\<lambda>s. set_gpr (inst_rd w) (src1 w s mod src2 w s) s))
    (trace (asm_rrr ''remu'' w)))"

section \<open>Jumps and upper immediates\<close>

definition exec_jalr :: "u32 \<Rightarrow> (machine, unit) op" where
  "exec_jalr w =
     seq_op (mod_op (\<lambda>s. set_gpr (inst_rd w) (get_pc s + 4) s))
    (seq_op (mod_op (\<lambda>s. set_pc (src1 w s) s))
    (trace (''jalr'' @ tab @ reg_name (inst_rd w))))"

definition exec_jal :: "u32 \<Rightarrow> (machine, unit) op" where
  "exec_jal w =
     seq_op (mod_op (\<lambda>s. set_gpr (inst_rd w) (get_pc s + 4) s))
    (mod_op (\<lambda>s. set_pc (get_pc s + push_bit 12 (U_simm_31_12 w)) s))"

definition exec_lui :: "u32 \<Rightarrow> (machine, unit) op" where
  "exec_lui w =
     seq_op (mod_op (\<lambda>s. set_gpr (inst_rd w) (push_bit 12 (ucast (U_imm_31_12 w))) s))
    (trace (asm_ux ''lui'' w))"

definition exec_auipc :: "u32 \<Rightarrow> (machine, unit) op" where
  "exec_auipc w =
     seq_op (mod_op (\<lambda>s. set_gpr (inst_rd w) (get_pc s + push_bit 12 (ucast (U_imm_31_12 w))) s))
    (trace (asm_ux ''auipc'' w))"

section \<open>Register and immediate\<close>

definition exec_addi :: "u32 \<Rightarrow> (machine, unit) op" where
  "exec_addi w =
     seq_op (mod_op (\<lambda>s. set_gpr (inst_rd w) (src1 w s + I_simm_11_0 w) s))
    (trace (asm_rri ''addi'' w (sint (I_simm_11_0 w))))"

definition exec_slli :: "u32 \<Rightarrow> (machine, unit) op" where
  "exec_slli w =
     seq_op (mod_op (\<lambda>s. set_gpr (inst_rd w) (push_bit (unat (I_shamt w)) (src1 w s)) s))
    (trace (asm_rri ''slli'' w (int (unat (I_shamt w)))))"

definition exec_srli :: "u32 \<Rightarrow> (machine, unit) op" where
  "exec_srli w =
     seq_op (mod_op (\<lambda>s. set_gpr (inst_rd w) (drop_bit (unat (I_shamt w)) (src1 w s)) s))
    (trace (asm_rri ''srli'' w (int (unat (I_shamt w)))))"

definition exec_srai :: "u32 \<Rightarrow> (machine, unit) op" where
  "exec_srai w =
     seq_op (mod_op (\<lambda>s. set_gpr (inst_rd w) (signed_drop_bit (unat (I_shamt w)) (src1 w s)) s))
    (trace (asm_rri ''srai'' w (int (unat (I_shamt w)))))"

definition exec_andi :: "u32 \<Rightarrow> (machine, unit) op" where
  "exec_andi w =
     seq_op (mod_op (\<lambda>s. set_gpr (inst_rd w) (src1 w s AND I_simm_11_0 w) s))
    (trace (asm_rri ''andi'' w (sint (I_simm_11_0 w))))"

definition exec_ori :: "u32 \<Rightarrow> (machine, unit) op" where
  "exec_ori w =
     seq_op (mod_op (\<lambda>s. set_gpr (inst_rd w) (src1 w s OR I_simm_11_0 w) s))
    (trace (asm_rri ''ori'' w (sint (I_simm_11_0 w))))"

definition exec_xori :: "u32 \<Rightarrow> (machine, unit) op" where
  "exec_xori w =
     seq_op (mod_op (\<lambda>s. set_gpr (inst_rd w) (src1 w s XOR I_simm_11_0 w) s))
    (trace (asm_rri ''xori'' w (sint (I_simm_11_0 w))))"

definition exec_sltiu :: "u32 \<Rightarrow> (machine, unit) op" where
  "exec_sltiu w =
     seq_op (mod_op (\<lambda>s. set_gpr (inst_rd w) (c_bool (src1 w s < ucast (I_imm_11_0 w))) s))
    (trace (asm_rri ''sltiu'' w (sint (I_simm_11_0 w))))"

definition exec_slti :: "u32 \<Rightarrow> (machine, unit) op" where
  "exec_slti w =
     seq_op (mod_op (\<lambda>s. set_gpr (inst_rd w) (c_bool (sint (src1 w s) < sint (I_simm_11_0 w))) s))
    (trace (asm_rri ''slti'' w (sint (I_simm_11_0 w))))"

section \<open>Stores and loads\<close>

text \<open>
  The alignment check, a \<^verbatim>\<open>CPUAssert\<close>: the fault is the moment at which it fails, and the report
  that the macro then prints is \<open>cpu_assert_report\<close> of theory \<open>Run\<close>.
\<close>

definition check_aligned_addr :: "u32 \<Rightarrow> u32 \<Rightarrow> (machine, unit) op" where
  "check_aligned_addr align addr = check_op Cpu_assert (addr AND (align - 1) = 0)"

definition exec_sw :: "u32 \<Rightarrow> (machine, unit) op" where
  "exec_sw w =
     bind_op (gets_op (\<lambda>s. (src1 w s + STORE_SIMM w, src2 w s))) (\<lambda>(addr, data).
     seq_op (check_aligned_addr 4 addr)
    (seq_op (store_mem addr 4 data)
    (trace (asm_mem ''sw'' (inst_rs2 w) (sint (STORE_SIMM w)) w))))"

definition exec_sh :: "u32 \<Rightarrow> (machine, unit) op" where
  "exec_sh w =
     bind_op (gets_op (\<lambda>s. (src1 w s + STORE_SIMM w, src2 w s))) (\<lambda>(addr, data).
     seq_op (check_aligned_addr 2 addr)
    (seq_op (store_mem addr 2 data)
    (trace (asm_mem ''sh'' (inst_rs2 w) (sint (STORE_SIMM w)) w))))"

definition exec_sb :: "u32 \<Rightarrow> (machine, unit) op" where
  "exec_sb w =
     bind_op (gets_op (\<lambda>s. (src1 w s + STORE_SIMM w, src2 w s))) (\<lambda>(addr, data).
     seq_op (check_aligned_addr 1 addr)
    (seq_op (store_mem addr 1 data)
    (trace (asm_mem ''sb'' (inst_rs2 w) (sint (STORE_SIMM w)) w))))"

definition exec_lw :: "u32 \<Rightarrow> (machine, unit) op" where
  "exec_lw w =
     bind_op (gets_op (\<lambda>s. src1 w s + I_simm_11_0 w)) (\<lambda>addr.
     seq_op (check_aligned_addr 4 addr)
    (bind_op (load_mem addr 4) (\<lambda>v.
     seq_op (mod_op (set_gpr (inst_rd w) (v)))
    (trace (asm_mem ''lw'' (inst_rd w) (sint (I_simm_11_0 w)) w)))))"

definition exec_lb :: "u32 \<Rightarrow> (machine, unit) op" where
  "exec_lb w =
     bind_op (gets_op (\<lambda>s. src1 w s + I_simm_11_0 w)) (\<lambda>addr.
     seq_op (check_aligned_addr 1 addr)
    (bind_op (load_mem addr 1) (\<lambda>v.
     seq_op (mod_op (set_gpr (inst_rd w) (scast (ucast v :: u8))))
    (trace (asm_mem ''lb'' (inst_rd w) (sint (I_simm_11_0 w)) w)))))"

definition exec_lbu :: "u32 \<Rightarrow> (machine, unit) op" where
  "exec_lbu w =
     bind_op (gets_op (\<lambda>s. src1 w s + I_simm_11_0 w)) (\<lambda>addr.
     seq_op (check_aligned_addr 1 addr)
    (bind_op (load_mem addr 1) (\<lambda>v.
     seq_op (mod_op (set_gpr (inst_rd w) (v)))
    (trace (asm_mem ''lbu'' (inst_rd w) (sint (I_simm_11_0 w)) w)))))"

definition exec_lh :: "u32 \<Rightarrow> (machine, unit) op" where
  "exec_lh w =
     bind_op (gets_op (\<lambda>s. src1 w s + I_simm_11_0 w)) (\<lambda>addr.
     seq_op (check_aligned_addr 2 addr)
    (bind_op (load_mem addr 2) (\<lambda>v.
     seq_op (mod_op (set_gpr (inst_rd w) (scast (ucast v :: u16))))
    (trace (asm_mem ''lh'' (inst_rd w) (sint (I_simm_11_0 w)) w)))))"

definition exec_lhu :: "u32 \<Rightarrow> (machine, unit) op" where
  "exec_lhu w =
     bind_op (gets_op (\<lambda>s. src1 w s + I_simm_11_0 w)) (\<lambda>addr.
     seq_op (check_aligned_addr 2 addr)
    (bind_op (load_mem addr 2) (\<lambda>v.
     seq_op (mod_op (set_gpr (inst_rd w) (v)))
    (trace (asm_mem ''lhu'' (inst_rd w) (sint (I_simm_11_0 w)) w)))))"

section \<open>Branches\<close>

definition branch_if :: "bool \<Rightarrow> u32 \<Rightarrow> machine \<Rightarrow> machine" where
  "branch_if taken w s = (if taken then set_pc (get_pc s + push_bit 1 (BRANCH_SIMM w)) s else s)"

definition exec_beq :: "u32 \<Rightarrow> (machine, unit) op" where
  "exec_beq w = mod_op (\<lambda>s. branch_if (src1 w s = src2 w s) w s)"

definition exec_bne :: "u32 \<Rightarrow> (machine, unit) op" where
  "exec_bne w = mod_op (\<lambda>s. branch_if (src1 w s = src2 w s) w s)"

definition exec_blt :: "u32 \<Rightarrow> (machine, unit) op" where
  "exec_blt w = mod_op (\<lambda>s. branch_if (sint (src1 w s) < sint (src2 w s)) w s)"

definition exec_bge :: "u32 \<Rightarrow> (machine, unit) op" where
  "exec_bge w = mod_op (\<lambda>s. branch_if (sint (src1 w s) \<ge> sint (src2 w s)) w s)"

definition exec_bltu :: "u32 \<Rightarrow> (machine, unit) op" where
  "exec_bltu w = mod_op (\<lambda>s. branch_if (src1 w s < src2 w s) w s)"

definition exec_bgeu :: "u32 \<Rightarrow> (machine, unit) op" where
  "exec_bgeu w = mod_op (\<lambda>s. branch_if (src1 w s \<ge> src2 w s) w s)"

section \<open>System\<close>

definition exec_fence :: "u32 \<Rightarrow> (machine, unit) op" where
  "exec_fence w = ok ()"

definition exec_ecall_ebreak :: "u32 \<Rightarrow> (machine, unit) op" where
  "exec_ecall_ebreak w = raise Assert_abort"

definition exec_csrrci :: "u32 \<Rightarrow> (machine, unit) op" where
  "exec_csrrci w = mod_op (\<lambda>s.
     if inst_rs1 w \<noteq> 0 then
       let s = set_gpr (inst_rd w) (get_csr (I_imm_11_0 w) s) s
       in set_csr (I_imm_11_0 w) (get_csr (I_imm_11_0 w) s AND NOT (ucast (inst_rs1 w))) s
     else s)"

definition exec_csrrsi :: "u32 \<Rightarrow> (machine, unit) op" where
  "exec_csrrsi w = mod_op (\<lambda>s.
     if inst_rs1 w \<noteq> 0 then
       let s = set_gpr (inst_rd w) (get_csr (I_imm_11_0 w) s) s
       in set_csr (I_imm_11_0 w) (get_csr (I_imm_11_0 w) s OR ucast (inst_rs1 w)) s
     else s)"

definition exec_csrrwi :: "u32 \<Rightarrow> (machine, unit) op" where
  "exec_csrrwi w = mod_op (\<lambda>s.
     if get_gpr (inst_rd w) s \<noteq> 0 then
       let s = set_gpr (inst_rd w) (get_csr (I_imm_11_0 w) s) s
       in set_csr (I_imm_11_0 w) (ucast (inst_rs1 w)) s
     else s)"

definition exec_csrrc :: "u32 \<Rightarrow> (machine, unit) op" where
  "exec_csrrc w = mod_op (\<lambda>s.
     let s = set_gpr (inst_rd w) (get_csr (I_imm_11_0 w) s) s
     in set_csr (I_imm_11_0 w) (get_csr (I_imm_11_0 w) s AND NOT (src1 w s)) s)"

definition exec_csrrs :: "u32 \<Rightarrow> (machine, unit) op" where
  "exec_csrrs w = mod_op (\<lambda>s.
     let s = set_gpr (inst_rd w) (get_csr (I_imm_11_0 w) s) s
     in set_csr (I_imm_11_0 w) (get_csr (I_imm_11_0 w) s OR src1 w s) s)"

definition exec_csrrw :: "u32 \<Rightarrow> (machine, unit) op" where
  "exec_csrrw w = mod_op (\<lambda>s.
     if get_gpr (inst_rd w) s \<noteq> 0 then
       let s = set_gpr (inst_rd w) (get_csr (I_imm_11_0 w) s) s
       in set_csr (I_imm_11_0 w) (src1 w s) s
     else s)"

section \<open>Dispatch\<close>

type_synonym handler = "u32 \<Rightarrow> (machine, unit) op"

definition branch_table :: "handler list" where
  "branch_table =
    [exec_beq, exec_bne, exec_inv, exec_inv,
     exec_blt, exec_bge, exec_bltu, exec_bgeu]"

definition load_table :: "handler list" where
  "load_table =
    [exec_lb, exec_lh, exec_lw, exec_inv,
     exec_lbu, exec_lhu, exec_inv, exec_inv]"

definition store_table :: "handler list" where
  "store_table =
    [exec_sb, exec_sh, exec_sw, exec_inv,
     exec_inv, exec_inv, exec_inv, exec_inv]"

definition alui_table_0 :: "handler list" where
  "alui_table_0 =
    [exec_addi, exec_slli, exec_slti, exec_sltiu,
     exec_xori, exec_srli, exec_ori, exec_andi]"

definition alui_table_32 :: "handler list" where
  "alui_table_32 =
    [exec_inv, exec_inv, exec_inv, exec_inv,
     exec_inv, exec_srai, exec_inv, exec_inv]"

definition alu_table_0 :: "handler list" where
  "alu_table_0 =
    [exec_add, exec_sll, exec_slt, exec_sltu,
     exec_xor, exec_srl, exec_or, exec_and]"

definition alu_table_1 :: "handler list" where
  "alu_table_1 =
    [exec_mul, exec_mulh, exec_mulhsu, exec_mulhu,
     exec_div, exec_divu, exec_rem, exec_remu]"

definition alu_table_32 :: "handler list" where
  "alu_table_32 =
    [exec_sub, exec_inv, exec_inv, exec_inv,
     exec_inv, exec_sra, exec_inv, exec_inv]"

definition csr_table :: "handler list" where
  "csr_table =
    [exec_ecall_ebreak, exec_csrrw, exec_csrrs, exec_csrrc,
     exec_inv, exec_csrrwi, exec_csrrsi, exec_csrrci]"

definition exec_branch :: handler where
  "exec_branch w = (branch_table ! unat (inst_func3 w)) w"

definition exec_load :: handler where
  "exec_load w = (load_table ! unat (inst_func3 w)) w"

definition exec_store :: handler where
  "exec_store w = (store_table ! unat (inst_func3 w)) w"

definition exec_alui :: handler where
  "exec_alui w =
     (if inst_func7 w = 0 then (alui_table_0 ! unat (inst_func3 w)) w
      else if inst_func7 w = 1 then (alui_table_32 ! unat (inst_func3 w)) w
      else exec_inv w)"

definition exec_alu :: handler where
  "exec_alu w =
     (if inst_func7 w = 0 then (alu_table_0 ! unat (inst_func3 w)) w
      else if inst_func7 w = 1 then (alu_table_1 ! unat (inst_func3 w)) w
      else if inst_func7 w = 32 then (alu_table_32 ! unat (inst_func3 w)) w
      else exec_inv w)"

definition exec_csr :: handler where
  "exec_csr w = (csr_table ! unat (inst_func3 w)) w"

definition opcode_table :: "handler list" where
  "opcode_table =
    [exec_load, exec_inv, exec_inv, exec_fence,
     exec_alui, exec_auipc, exec_inv, exec_inv,
     exec_store, exec_inv, exec_inv, exec_inv,
     exec_alu, exec_lui, exec_inv, exec_inv,
     exec_inv, exec_inv, exec_inv, exec_inv,
     exec_inv, exec_inv, exec_inv, exec_inv,
     exec_branch, exec_inv, exec_inv, exec_jalr,
     exec_csr, exec_jal, exec_inv, exec_inv]"

definition exec_inst :: handler where
  "exec_inst w =
     seq_op (check_op Assert_abort (inst_op w AND 0x3 = 0x3))
    ((opcode_table ! unat (drop_bit 2 (inst_op w))) w)"

section \<open>The texts handed to the tracer\<close>

lemma reg_name_short: "short_text 4 (reg_name r)"
proof -
  have "unat r < 2 ^ LENGTH(5)" by (rule unsigned_less)
  then have "reg_name r \<in> set regs" unfolding reg_name_def by (intro nth_mem) (simp add: regs_def)
  moreover have "\<forall>n \<in> set regs. short_text 4 n" by (simp add: regs_def short_text_def)
  ultimately show ?thesis by blast
qed

lemma asm_short:
  assumes "short_text 6 name"
  shows "short_text 40 (asm_rrr name w)" "short_text 40 (asm_ux name w)"
    and "\<bar>i\<bar> < 10 ^ 10 \<Longrightarrow> short_text 40 (asm_rri name w i)"
    and "\<bar>i\<bar> < 10 ^ 10 \<Longrightarrow> short_text 40 (asm_mem name r i w)"
  using assms reg_name_short [of "inst_rd w"] reg_name_short [of "inst_rs1 w"]
    reg_name_short [of "inst_rs2 w"] reg_name_short [of r]
    short_fmt(1) [of "ucast (U_imm_31_12 w)"] short_fmt_d [of i]
  by (auto simp: asm_rrr_def asm_ux_def asm_rri_def asm_mem_def short_text_def)

end
