(* ===== verification/Run.thy ===== *)
theory Run
  imports Exec
begin

text \<open>
  The execution loop of \<^verbatim>\<open>src/cpu/cpu-exec.c\<close> and the failure report of
  \<^verbatim>\<open>include/debug.h\<close>: one iteration of the loop (\<open>cpu_step\<close>), the loop itself,
  \<open>cpu_exec\<close>, \<open>init_cpu\<close>, the register dump and the dump of a failing
  \<^verbatim>\<open>CPUAssert\<close>.
\<close>

unbundle bit_operations_syntax

section \<open>The register dump\<close>

text \<open>A line of four registers, \<open>$t0:0x%08x  $t1:0x%08x  ...\<close>.\<close>

definition reg_field :: "machine \<Rightarrow> string \<times> 5 word \<Rightarrow> string" where
  "reg_field s = (\<lambda>(name, r). ''$'' @ name @ '':0x'' @ fmt_08x (get_gpr r s))"

definition reg_line :: "machine \<Rightarrow> (string \<times> 5 word) list \<Rightarrow> string" where
  "reg_line s rs = reg_field s (hd rs) @ concat (map (\<lambda>r. ''  '' @ reg_field s r) (tl rs)) @ newline"

definition dump_rows :: "(string \<times> 5 word) list list" where
  "dump_rows =
    [[(''0 '', 0), (''at'', 1), (''v0'', 2), (''v1'', 3)],
     [(''a0'', 4), (''a1'', 5), (''a2'', 6), (''a3'', 7)],
     [(''t0'', 8), (''t1'', 9), (''t2'', 10), (''t3'', 11)],
     [(''t4'', 12), (''t5'', 13), (''t6'', 14), (''t7'', 15)],
     [(''s0'', 16), (''s1'', 17), (''s2'', 18), (''s3'', 19)],
     [(''s4'', 20), (''s5'', 21), (''s6'', 22), (''s7'', 23)],
     [(''t8'', 24), (''t9'', 25), (''k0'', 26), (''k1'', 27)],
     [(''gp'', 28), (''sp'', 29), (''fp'', 30), (''ra'', 31)]]"

definition register_lines :: "u32 \<Rightarrow> machine \<Rightarrow> string list" where
  "register_lines instr s =
    [''$pc:    0x'' @ fmt_08x (pc (m_cpu s)) @ ''    $hi:    0x'' @ fmt_08x (hi (m_cpu s))
       @ ''    $lo:    0x'' @ fmt_08x (lo (m_cpu s)) @ newline,
     ''$ninstr: 0x'' @ fmt_08x (ninstr s) @ ''                     $instr: 0x'' @ fmt_08x instr
       @ newline] @ map (reg_line s) dump_rows"

definition print_registers :: "u32 \<Rightarrow> (machine, unit) op" where
  "print_registers instr =
     bind_op (gets_op (register_lines instr)) (\<lambda>ls.
     seq_op (on_mon (mod_op (\<lambda>m. m\<lparr>mon_err := mon_err m @ ls\<rparr>)))
    (mod_op (\<lambda>s. s\<lparr>ninstr := ninstr s + 1\<rparr>)))"

section \<open>The loop\<close>

definition on_iq :: "(iq_state \<Rightarrow> iq_state) \<Rightarrow> (machine, unit) op" where
  "on_iq f = mod_op (\<lambda>s. s\<lparr>m_iq := f (m_iq s)\<rparr>)"

definition cpu_step :: "(machine, unit) op" where
  "cpu_step =
     bind_op (gets_op get_pc) (\<lambda>pc.
     seq_op (on_iq (instr_enqueue_pc pc))
    (seq_op (trace (fmt_8x pc @ '':    ''))
    (seq_op (check_op Assert_abort (pc AND 0x3 = 0))
    (bind_op (instr_fetch pc) (\<lambda>inst.
     seq_op (on_iq (instr_enqueue_instr inst))
    (seq_op (trace (fmt_08x inst @ ''    ''))
    (seq_op (on_trace (mod_op trace_flush))
    (seq_op (exec_inst inst)
    (seq_op (bind_op (gets_op (\<lambda>s. work_mode (m_mon s))) (\<lambda>mode.
              if mode = MODE_LOG then print_registers inst else ok ()))
    (mod_op (\<lambda>s. set_pc (get_pc s + 4) s)))))))))))"

text \<open>The counter is a \<^verbatim>\<open>uint64_t\<close> that only counts down to zero: a natural number.\<close>

primrec cpu_loop :: "nat \<Rightarrow> (machine, unit) op" where
  "cpu_loop 0 = on_mon (mod_op (\<lambda>s.
     if nemu_state s = NEMU_RUNNING then s\<lparr>nemu_state := NEMU_STOP\<rparr> else s))"
| "cpu_loop (Suc n) =
     seq_op cpu_step
    (bind_op (gets_op (\<lambda>s. nemu_state (m_mon s))) (\<lambda>st.
     if st \<noteq> NEMU_RUNNING then ok () else cpu_loop n))"

definition ended_message :: string where
  "ended_message =
     ''Program execution has ended. To restart the program, exit NEMU and run again.'' @ newline"

definition cpu_exec :: "u64 \<Rightarrow> (machine, unit) op" where
  "cpu_exec n =
     bind_op (gets_op (\<lambda>s. nemu_state (m_mon s))) (\<lambda>st.
     if st = NEMU_END then on_mon (mod_op (\<lambda>s. s\<lparr>mon_out := mon_out s @ [ended_message]\<rparr>))
     else seq_op (on_mon (mod_op (\<lambda>s. s\<lparr>nemu_state := NEMU_RUNNING\<rparr>)))
         (cpu_loop (unat n)))"

text \<open>
  The wall clock in microseconds; \<open>now\<close> is what \<^verbatim>\<open>gettimeofday\<close> delivers. The sum is computed
  in \<^verbatim>\<open>long\<close>, which a date of this geological era does not overflow, and the difference in
  \<^verbatim>\<open>uint64_t\<close>.
\<close>

definition get_current_time :: "timeval \<Rightarrow> (machine, u64) op" where
  "get_current_time now =
     gets_op (\<lambda>s. tv_sec now * 1000000 + tv_usec now - nemu_start_time s)"

definition init_cpu :: "timeval \<Rightarrow> u32 \<Rightarrow> (machine, int) op" where
  "init_cpu now entry =
     bind_op (get_current_time now) (\<lambda>t.
     seq_op (mod_op (\<lambda>s. s\<lparr>nemu_start_time := t\<rparr>))
    (seq_op (mod_op (set_pc entry)) (ok 0)))"

definition time_us :: "timeval \<Rightarrow> u64" where
  "time_us now = tv_sec now * 1000000 + tv_usec now"

lemma init_cpu_run:
  "init_cpu now entry s =
    (Inr 0, set_pc entry (s\<lparr>nemu_start_time := time_us now - nemu_start_time s\<rparr>))"
  by (simp add: init_cpu_def get_current_time_def time_us_def op_simps)

text \<open>From a start at zero, the clock then counts the microseconds since \<open>init_cpu\<close>.\<close>

lemma clock_counts:
  assumes "init_cpu now entry s = (Inr x, t)" "nemu_start_time s = 0"
  shows "get_current_time later t = (Inr (time_us later - time_us now), t)"
  using assms by (auto simp: init_cpu_run get_current_time_def op_simps time_us_def set_pc_def)

definition signal_exception :: "int \<Rightarrow> (machine, unit) op" where
  "signal_exception code = raise Assert_abort"

section \<open>The report of a failing CPUAssert\<close>

text \<open>
  The texts of an assertion: where it stands, its condition as the preprocessor spells it, and
  its message with the arguments filled in.
\<close>

record assertion =
  as_file :: string
  as_line :: nat
  as_func :: string
  as_cond :: string
  as_text :: string

definition assertion_failed :: "assertion \<Rightarrow> string" where
  "assertion_failed a =
     ''nemu: '' @ as_file a @ '':'' @ fmt_d (int (as_line a)) @ '': '' @ as_func a
       @ '': Assertion `'' @ as_cond a @ CHR 0x27 # '' failed'' @ newline"

definition assertion_message :: "assertion \<Rightarrow> string" where
  "assertion_message a = CHR 0x1B # ''[1;31m'' @ as_text a @ CHR 0x1B # ''[0m'' @ newline"

text \<open>
  The assertion that fails when the word at an address cannot be read over the bus: the range
  check of a memory, \<^verbatim>\<open>invalid_read\<close>, or the default case of a device. Their messages name the
  offset in the region.
\<close>

definition out_side :: "string \<Rightarrow> nat \<Rightarrow> string \<Rightarrow> string \<Rightarrow> string \<Rightarrow> u32 \<Rightarrow> assertion" where
  "out_side file line func bound name addr =
     \<lparr>as_file = file, as_line = line, as_func = func,
      as_cond = ''addr >= 0 && addr < '' @ bound @ '' && addr + len <= '' @ bound,
      as_text = ''address(0x'' @ fmt_08x addr @ '') is out side '' @ name\<rparr>"

definition fetch_assertion :: "u32 \<Rightarrow> assertion" where
  "fetch_assertion cpu_pc =
     (let p = prot_addr cpu_pc; idx = find_region p;
          addr = p - region_start (mmap_table ! nat idx)
      in if idx = 1 then out_side ''src/dev/ddr.c'' 27 ''ddr_read'' ''DDR_SIZE'' ''DDR'' addr
         else if idx = 2 then out_side ''src/dev/bram.c'' 30 ''bram_read'' ''BRAM_SIZE'' ''BRAM'' addr
         else if idx = 3 then
           \<lparr>as_file = ''src/memory.c'', as_line = 95, as_func = ''invalid_read'', as_cond = ''false'',
            as_text = ''invalid read at address(0x'' @ fmt_08x addr @ ''), pc(0x'' @ fmt_08x cpu_pc
              @ '')'' @ newline\<rparr>
         else if idx = 4 then
           \<lparr>as_file = ''src/dev/serial.c'', as_line = 169, as_func = ''serial_peek'', as_cond = ''false'',
            as_text = ''uart: address(0x'' @ fmt_08x addr @ '') is not readable''\<rparr>
         else if idx = 5 then
           (if addr + 4 \<le> MAC_SIZE then
              \<lparr>as_file = ''src/dev/mac.c'', as_line = 317, as_func = ''mac_read'', as_cond = ''false'',
               as_text = ''mac: address(0x'' @ fmt_08x addr @ '') is not readable''\<rparr>
            else out_side ''src/dev/mac.c'' 302 ''mac_read'' ''MAC_SIZE'' ''mac'' addr)
         else out_side ''src/dev/video.c'' 23 ''vga_read'' ''VMEM_SIZE'' ''DDR'' addr)"

text \<open>
  What the macro does from the failed condition to \<^verbatim>\<open>abort\<close>: the assertion, the instruction
  queue, the registers with the instruction word at the program counter, the message. That
  word is read through the bus, and the read can fail a \<^verbatim>\<open>CPUAssert\<close> itself, which starts a
  report of its own. \<open>None\<close> is a report that never ends.
\<close>

definition report :: "string list \<Rightarrow> machine \<Rightarrow> machine" where
  "report ls s = s\<lparr>m_mon := (m_mon s)\<lparr>mon_err := mon_err (m_mon s) @ ls\<rparr>\<rparr>"

definition dump_begin :: string where
  "dump_begin = ''=========== dump registers ========='' @ newline"

definition dump_end :: string where
  "dump_end = ''=========== dump    end ========='' @ newline"

partial_function (option) cpu_assert_report :: "assertion \<Rightarrow> machine \<Rightarrow> (fault \<times> machine) option" where
  "cpu_assert_report a s =
     (case print_instr_queue (m_iq s) of
        None \<Rightarrow> None
      | Some ls \<Rightarrow>
          let s = report (assertion_failed a # ls @ [dump_begin]) s
          in case vaddr_read_safe (get_pc s) 4 s of
               (Inr v, t) \<Rightarrow>
                 (let u = snd (print_registers v t)
                  in Some (Assert_abort, report [dump_end, assertion_message a] u))
             | (Inl Cpu_assert, t) \<Rightarrow> cpu_assert_report (fetch_assertion (get_pc t)) t
             | (Inl e, t) \<Rightarrow> Some (e, t))"

text \<open>
  The fault \<open>Cpu_assert\<close> of an operation is the moment at which its \<^verbatim>\<open>CPUAssert\<close> fails. The
  program then runs the report: \<open>site\<close> tells the assertion that failed in the state reached,
  and \<open>reported\<close> is the operation with the report.
\<close>

definition reported ::
  "(machine \<Rightarrow> assertion) \<Rightarrow> (machine, 'a) op \<Rightarrow> machine \<Rightarrow> ((fault + 'a) \<times> machine) option" where
  "reported site m s =
     (case m s of
        (Inl Cpu_assert, t) \<Rightarrow> map_option (\<lambda>(e, u). (Inl e, u)) (cpu_assert_report (site t) t)
      | (r, t) \<Rightarrow> Some (r, t))"

lemma report_frame [simp]:
  "m_iq (report ls s) = m_iq s" "m_ddr (report ls s) = m_ddr s" "get_pc (report ls s) = get_pc s"
  by (simp_all add: report_def get_pc_def)

section \<open>Properties\<close>

lemma queue_printed: "iq_wf q \<Longrightarrow> \<exists>ls. print_instr_queue q = Some ls"
  using iq_walk_lines [of q] by (simp add: print_instr_queue_def)

lemma vaddr_read_safe_region:
  "vaddr_read_safe a n u = (case region_at (prot_addr a) of None \<Rightarrow> ok 0 u
    | Some r \<Rightarrow> region_read r (prot_addr a - region_start r) n u)"
  by (simp add: vaddr_read_safe_def region_at_def Let_def)

lemma vaddr_read_safe_ram:
  assumes "in_ram (unat (prot_addr a)) 4"
  shows "vaddr_read_safe a 4 u = (Inr (load_le (phys u) (unat (prot_addr a)) 4), u)"
proof -
  obtain r where "region_at (prot_addr a) = Some r" using assms by (auto simp: in_ram_def region_at_eq)
  then show ?thesis
    using vaddr_read_ram [of 4 a u] assms
    by (simp add: vaddr_read_safe_region vaddr_read_region access_width_def)
qed

text \<open>A report whose read succeeds is one abort away from its end.\<close>

lemma report_read:
  assumes "print_instr_queue (m_iq s) = Some ls"
    and "vaddr_read_safe (get_pc s) 4 (report (assertion_failed a # ls @ [dump_begin]) s) = (Inr v, t)"
  shows "cpu_assert_report a s
    = Some (Assert_abort, report [dump_end, assertion_message a] (snd (print_registers v t)))"
  using assms by (subst cpu_assert_report.simps) (simp add: Let_def)

lemma report_in_ram:
  assumes "iq_wf (m_iq s)" "in_ram (unat (prot_addr (get_pc s))) 4"
  shows "\<exists>t. cpu_assert_report a s = Some (Assert_abort, t)"
proof -
  obtain ls where "print_instr_queue (m_iq s) = Some ls" using queue_printed [OF assms(1)] by blast
  from report_read [OF this vaddr_read_safe_ram [OF assms(2)]] show ?thesis by blast
qed

text \<open>
  The addresses whose word the bus refuses to read: the GPIO page, the transmit register of the
  UART, and the registers of the Ethernet controller that cannot be read. A report that starts
  with the program counter there starts over.
\<close>

definition mac_readable :: "u32 \<Rightarrow> bool" where
  "mac_readable off \<longleftrightarrow> off \<in> {TX_PING_TSR, TX_PONG_TSR, MDIO_RD, MDIO_CTRL}
     \<or> RX_PING \<le> off \<and> off \<le> RX_PING_BUF_END \<or> RX_PONG \<le> off \<and> off \<le> RX_PONG_BUF_END"

definition unreadable :: "u32 \<Rightarrow> bool" where
  "unreadable a \<longleftrightarrow>
     (let p = prot_addr a
      in 0x10000000 \<le> unat p \<and> unat p < 0x10001000
       \<or> p = 0x1fe50004
       \<or> 0x1ff00000 \<le> unat p \<and> unat p < 0x1ff10000 \<and> \<not> mac_readable (p - 0x1ff00000))"

lemma unreadable_fetch:
  assumes "unreadable a"
  shows "vaddr_read_safe a 4 u = (Inl Cpu_assert, u)"
proof -
  let ?p = "prot_addr a"
  consider "region_at ?p = Some gpio_region" | "region_at ?p = Some serial_region" "?p = 0x1fe50004"
    | "region_at ?p = Some mac_region" "\<not> mac_readable (?p - 0x1ff00000)"
    using assms by (auto simp: unreadable_def Let_def region_at_eq)
  then show ?thesis
  proof cases
    case 1
    then show ?thesis by (simp add: vaddr_read_safe_region gpio_region_def invalid_read_def op_simps)
  next
    case 2
    then show ?thesis
      by (simp add: vaddr_read_safe_region serial_region_def SERIAL_ADDR_def on_uart_def op_simps
          serial_read_def serial_peek_def check_serial_def serial_const_defs)
  next
    case 3
    then have "mac_read (?p - 0x1ff00000) 4 m = (Inl Cpu_assert, m)" for m
      by (auto simp: mac_read_def check_mac_def op_simps mac_readable_def)
    with 3(1) show ?thesis
      by (simp add: vaddr_read_safe_region mac_region_def MAC_ADDR_def on_mac_def op_simps)
  qed
qed

lemma report_of_unreadable:
  assumes "cpu_assert_report a u = Some y"
  shows "\<not> (iq_wf (m_iq u) \<and> unreadable (get_pc u))"
  using assms
proof (rule cpu_assert_report.raw_induct
    [rotated, where P = "\<lambda>a u y. \<not> (iq_wf (m_iq u) \<and> unreadable (get_pc u))"])
  fix f :: "assertion \<Rightarrow> machine \<Rightarrow> (fault \<times> machine) option" and a u y
  let ?r = "\<lambda>ls. report (assertion_failed a # ls @ [dump_begin]) u"
  assume IH: "\<And>a u y. f a u = Some y \<Longrightarrow> \<not> (iq_wf (m_iq u) \<and> unreadable (get_pc u))"
    and run: "(case print_instr_queue (m_iq u) of None \<Rightarrow> None
      | Some ls \<Rightarrow> let s = ?r ls in case vaddr_read_safe (get_pc s) 4 s of
           (Inr v, t) \<Rightarrow>
             (let u = snd (print_registers v t)
              in Some (Assert_abort, report [dump_end, assertion_message a] u))
         | (Inl Cpu_assert, t) \<Rightarrow> f (fetch_assertion (get_pc t)) t
         | (Inl e, t) \<Rightarrow> Some (e, t)) = Some y"
  show "\<not> (iq_wf (m_iq u) \<and> unreadable (get_pc u))"
  proof
    assume g: "iq_wf (m_iq u) \<and> unreadable (get_pc u)"
    then obtain ls where ls: "print_instr_queue (m_iq u) = Some ls" using queue_printed by blast
    have "f (fetch_assertion (get_pc u)) (?r ls) = Some y"
      using run ls g by (simp add: unreadable_fetch)
    from IH [OF this] g show False by simp
  qed
qed

text \<open>
  C35: Whatever assertion it is, the report of a failing \<^verbatim>\<open>CPUAssert\<close> ends in an abort when the
  program counter is in DDR, but never ends when it is in the GPIO page: reading the instruction
  there for the register dump fails a \<^verbatim>\<open>CPUAssert\<close> itself, whose report does the same. (The index of
  the instruction queue is in range.)
\<close>

theorem crash_report_ends:
  assumes "iq_wf (m_iq s)"
  shows "(unat (prot_addr (get_pc s)) + 4 \<le> 0x8000000
      \<longrightarrow> (\<exists>t. cpu_assert_report a s = Some (Assert_abort, t)))
    \<and> (0x10000000 \<le> unat (prot_addr (get_pc s)) \<and> unat (prot_addr (get_pc s)) < 0x10001000
      \<longrightarrow> cpu_assert_report a s = None)"
  using assms report_in_ram [of s a] report_of_unreadable [of a s]
  by (cases "cpu_assert_report a s") (auto simp: unreadable_def in_ram_def)

theorem crash_report_ends_witness:
  "cpu_assert_report (fetch_assertion 0) (set_pc 0x10000000 machine_init) = None"
proof -
  let ?s = "set_pc 0x10000000 machine_init"
  have "iq_wf (m_iq ?s)" by (simp add: set_pc_def machine_init_def iq_wf_def iq_init_def NR_INSTR_def)
  from crash_report_ends [OF this] show ?thesis by (simp add: get_pc_def set_pc_def unat_prot_addr)
qed

end
