(* ===== verification/Refine.thy ===== *)
theory Refine
  imports Isa Run
begin

text \<open>
  The execution loop implements the abstract processor of \<open>Isa\<close>.

  \<open>isa_of\<close> reads the abstract state off a machine. \<open>agrees s r t\<close> says that \<open>t\<close>, reached
  from \<open>s\<close>, is what the outcome \<open>r\<close> prescribes, and that nothing but the abstract state
  and the trace has changed; \<open>meets\<close> lifts it to operations. The handlers are
  grouped by their shape, one lemma per shape, then one lemma per dispatch table.
\<close>

unbundle bit_operations_syntax

section \<open>The abstract view\<close>

definition isa_of :: "machine \<Rightarrow> isa" where
  "isa_of s = \<lparr>i_gpr = gpr (m_cpu s), i_csr = csr (m_cpu s), i_pc = pc (m_cpu s), i_mem = phys s\<rparr>"

definition traced :: "machine \<Rightarrow> bool" where
  "traced s \<longleftrightarrow> (\<exists>tx. tracer_at tx (m_trace s) \<and> length tx \<le> 40)"

definition flushed :: "machine \<Rightarrow> bool" where
  "flushed s \<longleftrightarrow> tracer_at [] (m_trace s)"

text \<open>The devices, the keyboard queue and the run bookkeeping, which RAM-only code leaves alone.\<close>

definition surroundings :: "machine \<Rightarrow> video_state \<times> serial_state \<times> keyboard_state \<times> emac_state
    \<times> iq_state \<times> u32 \<times> u64" where
  "surroundings s = (m_vga s, m_uart s, m_kb s, m_mac s, m_iq s, ninstr s, jiffy s)"

definition agrees :: "machine \<Rightarrow> outcome \<Rightarrow> machine \<Rightarrow> bool" where
  "agrees s r t \<longleftrightarrow> surroundings t = surroundings s \<and> traced t
     \<and> (case r of
          Running i \<Rightarrow> isa_of t = i \<and> m_mon t = m_mon s
        | Ended i \<Rightarrow> isa_of t = i \<and> nemu_state (m_mon t) = NEMU_END
            \<and> work_mode (m_mon t) = work_mode (m_mon s)
        | _ \<Rightarrow> False)"

definition meets :: "(machine, unit) op \<Rightarrow> outcome \<Rightarrow> machine \<Rightarrow> bool" where
  "meets m r s \<longleftrightarrow> r \<noteq> Outside \<longrightarrow> wp m (\<lambda>_. agrees s r) (\<lambda>e _. r = Failed e) s"

lemma phys_frame [simp]:
  "phys (s\<lparr>m_cpu := c\<rparr>) = phys s" "phys (s\<lparr>m_trace := x\<rparr>) = phys s"
  "phys (s\<lparr>m_mon := y\<rparr>) = phys s" "phys (s\<lparr>m_iq := z\<rparr>) = phys s"
  "phys (s\<lparr>ninstr := k\<rparr>) = phys s"
  by (simp_all add: phys_def fun_eq_iff)

lemma isa_of_sel [simp]:
  "i_gpr (isa_of s) r = get_gpr r s" "i_csr (isa_of s) c = get_csr c s"
  "i_pc (isa_of s) = get_pc s" "i_mem (isa_of s) = phys s"
  by (simp_all add: isa_of_def get_gpr_def get_csr_def get_pc_def)

lemma isa_of_frame [simp]:
  "isa_of (s\<lparr>m_trace := x\<rparr>) = isa_of s" "isa_of (s\<lparr>m_mon := y\<rparr>) = isa_of s"
  "isa_of (s\<lparr>m_iq := z\<rparr>) = isa_of s" "isa_of (s\<lparr>ninstr := k\<rparr>) = isa_of s"
  by (simp_all add: isa_of_def)

lemma isa_of_set [simp]:
  "isa_of (set_gpr r v s) = set_reg r v (isa_of s)"
  "isa_of (set_csr c v s) = (isa_of s)\<lparr>i_csr := (i_csr (isa_of s))(c := v)\<rparr>"
  "isa_of (set_pc a s) = (isa_of s)\<lparr>i_pc := a\<rparr>"
  by (simp_all add: isa_of_def set_gpr_def set_csr_def set_pc_def set_reg_def phys_def fun_eq_iff)

lemma set_sel [simp]:
  "m_trace (set_gpr r v s) = m_trace s" "m_trace (set_csr c v s) = m_trace s"
  "m_trace (set_pc a s) = m_trace s"
  "m_mon (set_gpr r v s) = m_mon s" "m_mon (set_csr c v s) = m_mon s" "m_mon (set_pc a s) = m_mon s"
  "get_pc (set_gpr r v s) = get_pc s" "get_pc (set_pc a s) = a"
  "get_gpr q (set_pc a s) = get_gpr q s"
  by (simp_all add: set_gpr_def set_csr_def set_pc_def get_pc_def get_gpr_def)

lemma surroundings_frame [simp]:
  "surroundings (set_gpr r v s) = surroundings s" "surroundings (set_csr c v s) = surroundings s"
  "surroundings (set_pc a s) = surroundings s" "surroundings (s\<lparr>m_trace := x\<rparr>) = surroundings s"
  "surroundings (s\<lparr>m_mon := y\<rparr>) = surroundings s"
  by (simp_all add: surroundings_def set_gpr_def set_csr_def set_pc_def)

section \<open>Tracing\<close>

lemma traced_flushed: "flushed s \<Longrightarrow> traced s"
  by (auto simp: flushed_def traced_def)

lemma traced_frame [simp]:
  "traced (set_gpr r v s) = traced s" "traced (set_csr c v s) = traced s"
  "traced (set_pc a s) = traced s" "traced (s\<lparr>m_mon := y\<rparr>) = traced s"
  by (simp_all add: traced_def)

lemma wp_trace:
  assumes "tracer_at tx (m_trace s)" "short_text 40 msg" "length tx \<le> 100"
    and "\<And>u. tracer_ended (tx @ msg) u \<Longrightarrow> trace_out u = trace_out (m_trace s) @ [newline] \<Longrightarrow>
      Q () (s\<lparr>m_trace := u\<rparr>)"
  shows "wp (trace msg) Q E s"
proof -
  obtain u where "trace_append msg (m_trace s) = (Inr (length msg), u)"
    and "tracer_ended (tx @ msg) u" "trace_out u = trace_out (m_trace s) @ [newline]"
    by (rule trace_append_run [of tx "m_trace s" msg])
      (use assms(1-3) in \<open>simp_all add: short_text_def ASM_BUF_SIZE_def\<close>)
  with assms(4) show ?thesis
    by (simp add: trace_def on_trace_def wp_simps wp_run_iff)
qed

lemma wp_trace_flushed:
  assumes "flushed s" "short_text 40 msg"
    and "\<And>u. traced (s\<lparr>m_trace := u\<rparr>) \<Longrightarrow> Q () (s\<lparr>m_trace := u\<rparr>)"
  shows "wp (trace msg) Q E s"
  using assms(1,2)
  by (intro wp_trace [of "[]"] assms(3))
    (auto simp: flushed_def traced_def tracer_ended_def short_text_def)

lemma flushed_frame [simp]:
  "flushed (set_gpr r v s) = flushed s" "flushed (set_csr c v s) = flushed s"
  "flushed (set_pc a s) = flushed s"
  by (simp_all add: flushed_def)

section \<open>Shapes of handlers\<close>

text \<open>A state update followed by a line of the trace, and a bare state update.\<close>

lemma meets_update_trace:
  assumes "flushed s" "short_text 40 msg" "r = Running (isa_of (f s))"
    and "m_trace (f s) = m_trace s" "m_mon (f s) = m_mon s" "surroundings (f s) = surroundings s"
  shows "meets (seq_op (mod_op f) (trace msg)) r s"
  unfolding meets_def wp_simps
  by (rule impI, rule wp_trace_flushed)
    (use assms in \<open>simp_all add: agrees_def flushed_def\<close>)

lemma meets_update:
  assumes "flushed s" "r = Running (isa_of (f s))"
    and "m_trace (f s) = m_trace s" "m_mon (f s) = m_mon s" "surroundings (f s) = surroundings s"
  shows "meets (mod_op f) r s"
  using assms traced_flushed [of s] by (simp add: meets_def wp_simps agrees_def traced_def)

lemma meets_inv:
  assumes "flushed s"
  shows "meets (exec_inv w) (Ended (isa_of s)) s"
  using traced_flushed [OF assms]
  by (simp add: meets_def exec_inv_def wp_simps agrees_def on_mon_def)

text \<open>The arithmetic handlers, written with the integer semantics.\<close>

definition exec_rrr :: "string \<Rightarrow> alu_op \<Rightarrow> u32 \<Rightarrow> (machine, unit) op" where
  "exec_rrr name op w =
     seq_op (mod_op (\<lambda>s. set_gpr (inst_rd w) (alu op (src1 w s) (src2 w s)) s))
    (trace (asm_rrr name w))"

definition exec_rri :: "string \<Rightarrow> alu_op \<Rightarrow> u32 \<Rightarrow> int \<Rightarrow> u32 \<Rightarrow> (machine, unit) op" where
  "exec_rri name op v n w =
     seq_op (mod_op (\<lambda>s. set_gpr (inst_rd w) (alu op (src1 w s) v) s)) (trace (asm_rri name w n))"

lemma compare_alu [alu_words]:
  "c_bool (sint a < sint b) = alu Slt a b"
  "c_bool (a < b) = alu Sltu a b"
  by (simp_all add: c_bool_def alu.simps word_less_def)

lemma divide_alu [alu_words]:
  "word_of_int (sint a sdiv sint b) = alu Div a b"
  "word_of_int (sint a smod sint b) = alu Rem a b"
  by (simp_all add: alu.simps)

lemma rrr_handlers:
  "exec_add w = exec_rrr ''add'' Add w" "exec_sub w = exec_rrr ''sub'' Sub w"
  "exec_and w = exec_rrr ''and'' And w" "exec_or w = exec_rrr ''or'' Or w"
  "exec_xor w = exec_rrr ''xor'' Xor w" "exec_slt w = exec_rrr ''slt'' Slt w"
  "exec_sltu w = exec_rrr ''sltu'' Sltu w" "exec_sll w = exec_rrr ''sll'' Sll w"
  "exec_srl w = exec_rrr ''srl'' Srl w" "exec_sra w = exec_rrr ''sra'' Sra w"
  "exec_mul w = exec_rrr ''mul'' Mul w" "exec_mulh w = exec_rrr ''mulh'' Mulh w"
  "exec_mulhu w = exec_rrr ''mulhu'' Mulhu w" "exec_mulhsu w = exec_rrr ''mulhsu'' Mulhsu w"
  unfolding exec_rrr_def exec_sll_def exec_srl_def exec_sra_def shift_alu
  by (simp_all only: exec_add_def exec_sub_def exec_and_def exec_or_def exec_xor_def exec_slt_def
      exec_sltu_def exec_mul_def exec_mulh_def exec_mulhu_def exec_mulhsu_def alu_words)

lemma rri_handlers:
  "exec_addi w = exec_rri ''addi'' Add (I_simm_11_0 w) (sint (I_simm_11_0 w)) w"
  "exec_andi w = exec_rri ''andi'' And (I_simm_11_0 w) (sint (I_simm_11_0 w)) w"
  "exec_ori w = exec_rri ''ori'' Or (I_simm_11_0 w) (sint (I_simm_11_0 w)) w"
  "exec_xori w = exec_rri ''xori'' Xor (I_simm_11_0 w) (sint (I_simm_11_0 w)) w"
  "exec_slti w = exec_rri ''slti'' Slt (I_simm_11_0 w) (sint (I_simm_11_0 w)) w"
  "exec_sltiu w = exec_rri ''sltiu'' Sltu (ucast (I_imm_11_0 w)) (sint (I_simm_11_0 w)) w"
  "exec_slli w = exec_rri ''slli'' Sll (ucast (I_shamt w)) (int (unat (I_shamt w))) w"
  "exec_srli w = exec_rri ''srli'' Srl (ucast (I_shamt w)) (int (unat (I_shamt w))) w"
  "exec_srai w = exec_rri ''srai'' Sra (ucast (I_shamt w)) (int (unat (I_shamt w))) w"
  unfolding exec_rri_def
  by (simp_all only: exec_addi_def exec_andi_def exec_ori_def exec_xori_def exec_slti_def
      exec_sltiu_def exec_slli_def exec_srli_def exec_srai_def alu_words)

lemma alu_no_fault: "op \<notin> {Div, Divu, Rem, Remu} \<Longrightarrow> alu_fault op a b = None"
  by (auto simp: alu_fault.simps)

lemma meets_rrr:
  assumes "flushed s" "short_text 6 name" "op \<notin> {Div, Divu, Rem, Remu}"
  shows "meets (exec_rrr name op w) (isa_exec (Op op (inst_rd w) (inst_rs1 w) (inst_rs2 w)) (isa_of s)) s"
  unfolding exec_rrr_def
  by (rule meets_update_trace [OF assms(1) asm_short(1) [OF assms(2)]])
    (simp_all add: isa_alu_def alu_no_fault [OF assms(3)])

lemma meets_rri:
  assumes "flushed s" "short_text 6 name" "op \<notin> {Div, Divu, Rem, Remu}" "\<bar>n\<bar> < 10 ^ 10"
  shows "meets (exec_rri name op v n w) (isa_exec (Op_imm op (inst_rd w) (inst_rs1 w) v) (isa_of s)) s"
  unfolding exec_rri_def
  by (rule meets_update_trace [OF assms(1) asm_short(3) [OF assms(2,4)]])
    (simp_all add: isa_alu_def alu_no_fault [OF assms(3)])

text \<open>Division: the check comes first.\<close>

definition exec_rrr_div :: "string \<Rightarrow> alu_op \<Rightarrow> bool \<Rightarrow> u32 \<Rightarrow> (machine, unit) op" where
  "exec_rrr_div name op sgnd w =
     seq_op (bind_op (gets_op (\<lambda>s. (src1 w s, src2 w s))) (\<lambda>(a, b). check_divisor sgnd a b))
    (exec_rrr name op w)"

lemma div_handlers:
  "exec_div w = exec_rrr_div ''div'' Div True w" "exec_rem w = exec_rrr_div ''rem'' Rem True w"
  "exec_divu w = exec_rrr_div ''divu'' Divu False w" "exec_remu w = exec_rrr_div ''remu'' Remu False w"
  unfolding exec_rrr_div_def exec_rrr_def
  by (simp_all only: exec_div_def exec_rem_def exec_divu_def exec_remu_def alu_words)

lemma check_divisor_fault:
  "check_divisor True a b = (case alu_fault Div a b of Some u \<Rightarrow> raise (Ub u) | None \<Rightarrow> ok ())"
  "check_divisor True a b = (case alu_fault Rem a b of Some u \<Rightarrow> raise (Ub u) | None \<Rightarrow> ok ())"
  "check_divisor False a b = (case alu_fault Divu a b of Some u \<Rightarrow> raise (Ub u) | None \<Rightarrow> ok ())"
  "check_divisor False a b = (case alu_fault Remu a b of Some u \<Rightarrow> raise (Ub u) | None \<Rightarrow> ok ())"
  by (simp_all add: check_divisor_def alu_fault.simps)

lemma meets_div:
  assumes "flushed s" "short_text 6 name"
    and chk: "\<And>a b. check_divisor sgnd a b
        = (case alu_fault op a b of Some u \<Rightarrow> raise (Ub u) | None \<Rightarrow> ok ())"
  shows "meets (exec_rrr_div name op sgnd w)
    (isa_exec (Op op (inst_rd w) (inst_rs1 w) (inst_rs2 w)) (isa_of s)) s"
proof (cases "alu_fault op (src1 w s) (src2 w s)")
  case (Some u)
  then show ?thesis
    by (simp add: meets_def exec_rrr_div_def wp_simps chk isa_alu_def)
next
  case None
  have "meets (exec_rrr name op w) (Running (set_reg (inst_rd w) (alu op (src1 w s) (src2 w s)) (isa_of s))) s"
    unfolding exec_rrr_def
    by (rule meets_update_trace [OF assms(1) asm_short(1) [OF assms(2)]]) simp_all
  with None show ?thesis
    by (simp add: meets_def exec_rrr_div_def wp_simps chk isa_alu_def)
qed

section \<open>The dispatch tables\<close>

lemmas alu_tables = alu_table_0_def alu_table_1_def alu_table_32_def
lemmas alui_tables = alui_table_0_def alui_table_32_def

fun alu_name :: "alu_op \<Rightarrow> string" where
  "alu_name Add = ''add''" | "alu_name Sub = ''sub''" | "alu_name Sll = ''sll''"
| "alu_name Slt = ''slt''" | "alu_name Sltu = ''sltu''" | "alu_name Xor = ''xor''"
| "alu_name Srl = ''srl''" | "alu_name Sra = ''sra''" | "alu_name Or = ''or''"
| "alu_name And = ''and''" | "alu_name Mul = ''mul''" | "alu_name Mulh = ''mulh''"
| "alu_name Mulhsu = ''mulhsu''" | "alu_name Mulhu = ''mulhu''" | "alu_name Div = ''div''"
| "alu_name Divu = ''divu''" | "alu_name Rem = ''rem''" | "alu_name Remu = ''remu''"

lemma alu_name_short: "short_text 6 (alu_name op)"
  by (cases op) (simp_all add: short_text_def)

definition alu_handler :: "alu_op \<Rightarrow> handler" where
  "alu_handler op w =
     (if op \<in> {Div, Rem} then exec_rrr_div (alu_name op) op True w
      else if op \<in> {Divu, Remu} then exec_rrr_div (alu_name op) op False w
      else exec_rrr (alu_name op) op w)"

lemma exec_alu_decode:
  "exec_alu w = (case decode_op w of None \<Rightarrow> exec_inv w | Some op \<Rightarrow> alu_handler op w)"
proof -
  consider "inst_func7 w = 0" | "inst_func7 w = 1" | "inst_func7 w = 32"
    | "inst_func7 w \<notin> {0, 1, 32}" by auto
  then show ?thesis
    by cases (cases rule: func3_cases [of "inst_func3 w"];
        simp add: exec_alu_def decode_op_def alu_tables rrr_handlers div_handlers alu_handler_def)+
qed

lemma meets_alu:
  assumes "flushed s"
  shows "meets (exec_alu w) (case decode_op w of None \<Rightarrow> Ended (isa_of s)
    | Some op \<Rightarrow> isa_exec (Op op (inst_rd w) (inst_rs1 w) (inst_rs2 w)) (isa_of s)) s"
proof (cases "decode_op w")
  case None
  then show ?thesis by (simp add: exec_alu_decode meets_inv [OF assms])
next
  case (Some op)
  have "meets (alu_handler op w)
      (isa_exec (Op op (inst_rd w) (inst_rs1 w) (inst_rs2 w)) (isa_of s)) s"
  proof (cases "op \<in> {Div, Rem, Divu, Remu}")
    case True
    then show ?thesis
      using check_divisor_fault
      by (auto simp: alu_handler_def simp del: isa_exec.simps alu_name.simps
          intro!: meets_div [OF assms alu_name_short])
  next
    case False
    then show ?thesis
      using meets_rrr [OF assms alu_name_short [of op], of op] by (simp add: alu_handler_def)
  qed
  with Some show ?thesis by (simp add: exec_alu_decode)
qed

text \<open>The name that the trace shows for an immediate instruction, and its operand.\<close>

definition imm_name :: "alu_op \<Rightarrow> string" where
  "imm_name op =
     (case op of Add \<Rightarrow> ''addi'' | Sll \<Rightarrow> ''slli'' | Slt \<Rightarrow> ''slti'' | Sltu \<Rightarrow> ''sltiu''
      | Xor \<Rightarrow> ''xori'' | Srl \<Rightarrow> ''srli'' | Sra \<Rightarrow> ''srai'' | Or \<Rightarrow> ''ori'' | And \<Rightarrow> ''andi''
      | _ \<Rightarrow> [])"

definition imm_text :: "u32 \<Rightarrow> alu_op \<Rightarrow> int" where
  "imm_text w op =
     (if op \<in> {Sll, Srl, Sra} then int (unat (I_shamt w)) else sint (I_simm_11_0 w))"

lemma imm_name_short: "short_text 6 (imm_name op)"
  by (cases op) (simp_all add: imm_name_def short_text_def)

lemma imm_text_bound: "\<bar>imm_text w op\<bar> < 10 ^ 10"
proof -
  have "uint (I_shamt w) < 2 ^ LENGTH(5)" by (rule uint_lt2p)
  then have "\<bar>int (unat (I_shamt w))\<bar> < 10 ^ 10" by simp
  moreover have "\<bar>sint (I_simm_11_0 w)\<bar> < 10 ^ 10"
    using sint_range [of "I_simm_11_0 w"] by (simp add: abs_less_iff)
  ultimately show ?thesis by (simp add: imm_text_def)
qed

lemma exec_alui_decode:
  "exec_alui w = (case decode_op_imm w of None \<Rightarrow> exec_inv w
     | Some (op, v) \<Rightarrow> exec_rri (imm_name op) op v (imm_text w op) w)"
proof -
  consider "inst_func7 w = 0" | "inst_func7 w = 1" | "inst_func7 w \<notin> {0, 1}" by auto
  then show ?thesis
    by cases (cases rule: func3_cases [of "inst_func3 w"];
        simp add: exec_alui_def decode_op_imm_def alui_tables rri_handlers imm_name_def imm_text_def)+
qed

lemma decode_op_imm_no_div:
  "decode_op_imm w = Some (op, v) \<Longrightarrow> op \<notin> {Div, Divu, Rem, Remu}"
  by (cases rule: func3_cases [of "inst_func3 w"]) (auto simp: decode_op_imm_def split: if_splits)

lemma meets_alui:
  assumes "flushed s"
  shows "meets (exec_alui w) (case decode_op_imm w of None \<Rightarrow> Ended (isa_of s)
    | Some (op, v) \<Rightarrow> isa_exec (Op_imm op (inst_rd w) (inst_rs1 w) v) (isa_of s)) s"
proof (cases "decode_op_imm w")
  case None
  then show ?thesis by (simp add: exec_alui_decode meets_inv [OF assms])
next
  case (Some p)
  obtain op v where p: "p = (op, v)" by (cases p)
  show ?thesis
    using meets_rri [OF assms imm_name_short decode_op_imm_no_div imm_text_bound] Some
    by (simp add: exec_alui_decode p del: isa_exec.simps)
qed

lemma meets_branch:
  assumes "flushed s"
  shows "meets (exec_branch w) (case decode_cond w of None \<Rightarrow> Ended (isa_of s)
    | Some c \<Rightarrow> isa_exec (Branch c (inst_rs1 w) (inst_rs2 w) (2 * BRANCH_SIMM w)) (isa_of s)) s"
proof -
  have branch: "meets (mod_op (branch_if (holds c (src1 w s) (src2 w s)) w))
      (isa_exec (Branch c (inst_rs1 w) (inst_rs2 w) (2 * BRANCH_SIMM w)) (isa_of s)) s" for c
    by (rule meets_update [OF assms]) (simp_all add: branch_if_def push_bit_eq_mult)
  have same: "meets (mod_op f) r s = meets (mod_op g) r s" if "f s = g s" for f g r
    using that by (simp add: meets_def wp_mod)
  have cond: "meets (mod_op (\<lambda>s. branch_if (P s) w s))
      (isa_exec (Branch c (inst_rs1 w) (inst_rs2 w) (2 * BRANCH_SIMM w)) (isa_of s)) s"
    if "P s = holds c (src1 w s) (src2 w s)" for P c
    using branch [of c] same [of "\<lambda>s. branch_if (P s) w s" "branch_if (holds c (src1 w s) (src2 w s)) w"]
      that by simp
  show ?thesis
    by (cases rule: func3_cases [of "inst_func3 w"];
        simp add: exec_branch_def decode_cond_def branch_table_def meets_inv [OF assms]
          exec_beq_def exec_bne_def exec_blt_def exec_bge_def exec_bltu_def exec_bgeu_def
          del: isa_exec.simps)
      (rule cond, simp add: word_less_def word_le_def)+
qed



lemma get_set [simp]:
  "get_csr c (set_gpr r v s) = get_csr c s"
  "get_gpr q (set_gpr r v s) = (if q = r then v else get_gpr q s)"
  "i_csr (set_reg r v i) = i_csr i" "i_gpr (set_reg r v i) = (i_gpr i)(r := v)"
  by (simp_all add: get_csr_def get_gpr_def set_gpr_def set_reg_def)

definition does_csr :: "csr_op \<Rightarrow> u32 \<Rightarrow> machine \<Rightarrow> outcome" where
  "does_csr c w s = Running (isa_csr c (inst_rd w) (I_imm_11_0 w) (inst_rs1 w) (isa_of s))"

lemma meets_csr_handlers:
  assumes "flushed s"
  shows "meets (exec_csrrw w) (does_csr CSRRW w s) s" "meets (exec_csrrs w) (does_csr CSRRS w s) s"
    "meets (exec_csrrc w) (does_csr CSRRC w s) s" "meets (exec_csrrwi w) (does_csr CSRRWI w s) s"
    "meets (exec_csrrsi w) (does_csr CSRRSI w s) s" "meets (exec_csrrci w) (does_csr CSRRCI w s) s"
  unfolding does_csr_def exec_csrrw_def exec_csrrs_def exec_csrrc_def exec_csrrwi_def
    exec_csrrsi_def exec_csrrci_def
  by (rule meets_update [OF assms]; simp add: Let_def)+

lemma meets_csr:
  assumes "flushed s"
  shows "meets (exec_csr w) (isa_exec (decode_csr w) (isa_of s)) s"
proof -
  have ecall: "meets (exec_ecall_ebreak w) (Failed Assert_abort) s"
    by (simp add: meets_def exec_ecall_ebreak_def wp_simps)
  show ?thesis
    by (cases rule: func3_cases [of "inst_func3 w"])
      (simp_all add: exec_csr_def decode_csr_def csr_table_def ecall meets_inv [OF assms]
        meets_csr_handlers [OF assms, unfolded does_csr_def] del: isa_csr.simps)
qed

section \<open>Loads and stores\<close>

lemma phys_addr_prot: "phys_addr a = unat (prot_addr a)"
  by (simp add: phys_addr_def unat_prot_addr)

lemma wp_aligned:
  assumes "access_width n"
  shows "wp (check_aligned_addr n a) Q E s
    \<longleftrightarrow> (unat a mod unat n = 0 \<longrightarrow> Q () s) \<and> (unat a mod unat n \<noteq> 0 \<longrightarrow> E Cpu_assert s)"
  using aligned_iff [OF assms, of a] by (simp add: check_aligned_addr_def wp_simps aligned_def)

definition exec_load_as :: "string \<Rightarrow> u32 \<Rightarrow> (u32 \<Rightarrow> u32) \<Rightarrow> u32 \<Rightarrow> (machine, unit) op" where
  "exec_load_as name n f w =
     bind_op (gets_op (\<lambda>s. src1 w s + I_simm_11_0 w)) (\<lambda>addr.
     seq_op (check_aligned_addr n addr)
    (bind_op (load_mem addr n) (\<lambda>v.
     seq_op (mod_op (set_gpr (inst_rd w) (f v)))
    (trace (asm_mem name (inst_rd w) (sint (I_simm_11_0 w)) w)))))"

definition exec_store_as :: "string \<Rightarrow> u32 \<Rightarrow> u32 \<Rightarrow> (machine, unit) op" where
  "exec_store_as name n w =
     bind_op (gets_op (\<lambda>s. (src1 w s + STORE_SIMM w, src2 w s))) (\<lambda>(addr, data).
     seq_op (check_aligned_addr n addr)
    (seq_op (store_mem addr n data)
    (trace (asm_mem name (inst_rs2 w) (sint (STORE_SIMM w)) w))))"

lemma sign_extend:
  "scast (ucast v :: u8) = load_extend 1 True v" "scast (ucast v :: u16) = load_extend 2 True v" for v :: u32
  by (rule bit_word_eqI, auto simp: load_extend_def bit_simps bit_signed_take_bit_iff min_def)+

lemma load_handlers:
  "exec_lb w = exec_load_as ''lb'' 1 (load_extend 1 True) w"
  "exec_lh w = exec_load_as ''lh'' 2 (load_extend 2 True) w"
  "exec_lw w = exec_load_as ''lw'' 4 (load_extend 4 False) w"
  "exec_lbu w = exec_load_as ''lbu'' 1 (load_extend 1 False) w"
  "exec_lhu w = exec_load_as ''lhu'' 2 (load_extend 2 False) w"
  by (simp_all only: exec_lb_def exec_lh_def exec_lw_def exec_lbu_def exec_lhu_def exec_load_as_def
      sign_extend) (simp_all add: load_extend_def)

lemma store_handlers:
  "exec_sb w = exec_store_as ''sb'' 1 w" "exec_sh w = exec_store_as ''sh'' 2 w"
  "exec_sw w = exec_store_as ''sw'' 4 w"
  by (simp_all only: exec_sb_def exec_sh_def exec_sw_def exec_store_as_def)

lemma meets_load_as:
  assumes "flushed s" "short_text 6 name" "access_width n" "f = load_extend (unat n) sx"
  shows "meets (exec_load_as name n f w)
    (isa_exec (Load (unat n) sx (inst_rd w) (inst_rs1 w) (I_simm_11_0 w)) (isa_of s)) s"
proof -
  let ?a = "src1 w s + I_simm_11_0 w"
  have asm40: "short_text 40 (asm_mem name (inst_rd w) (sint (I_simm_11_0 w)) w)"
    using sint_range [of "I_simm_11_0 w"] by (intro asm_short(4) assms(2)) (simp add: abs_less_iff)
  consider "unat ?a mod unat n \<noteq> 0" | "unat ?a mod unat n = 0" "?a < 0x1000"
    | "unat ?a mod unat n = 0" "0x1000 \<le> ?a" "\<not> in_ram (phys_addr ?a) (unat n)"
    | "unat ?a mod unat n = 0" "0x1000 \<le> ?a" "in_ram (phys_addr ?a) (unat n)"
    by (meson not_le)
  then show ?thesis
  proof cases
    case 4
    define v where "v = load_le (phys s) (phys_addr ?a) (unat n)"
    have "load_mem ?a n s = (Inr v, s)"
      unfolding v_def phys_addr_prot using 4 assms(3) by (intro load_mem_ram) (simp_all add: phys_addr_prot)
    moreover have "meets (seq_op (mod_op (set_gpr (inst_rd w) (f v)))
        (trace (asm_mem name (inst_rd w) (sint (I_simm_11_0 w)) w)))
        (Running (set_reg (inst_rd w) (f v) (isa_of s))) s"
      by (rule meets_update_trace [OF assms(1) asm40]) simp_all
    ultimately show ?thesis
      using 4 by (simp add: meets_def exec_load_as_def wp_simps wp_aligned [OF assms(3)] wp_run_iff
          isa_access_def word_le_nat_alt assms(4) v_def)
  qed (auto simp: meets_def exec_load_as_def wp_simps wp_aligned [OF assms(3)] isa_access_def
      access_low word_less_nat_alt word_le_nat_alt wp_def [of "load_mem _ _"])
qed

lemma isa_of_store:
  assumes "phys t = m" "rest t = rest s"
  shows "isa_of t = (isa_of s)\<lparr>i_mem := m\<rparr>" "surroundings t = surroundings s"
    "m_mon t = m_mon s" "m_trace t = m_trace s"
  using assms by (simp_all add: isa_of_def surroundings_def rest_def)

lemma meets_store_as:
  assumes "flushed s" "short_text 6 name" "access_width n"
  shows "meets (exec_store_as name n w)
    (isa_exec (Store (unat n) (inst_rs2 w) (inst_rs1 w) (STORE_SIMM w)) (isa_of s)) s"
proof -
  let ?a = "src1 w s + STORE_SIMM w"
  have asm40: "short_text 40 (asm_mem name (inst_rs2 w) (sint (STORE_SIMM w)) w)"
    using sint_range [of "STORE_SIMM w"] by (intro asm_short(4) assms(2)) (simp add: abs_less_iff)
  consider "unat ?a mod unat n \<noteq> 0" | "unat ?a mod unat n = 0" "?a < 0x1000"
    | "unat ?a mod unat n = 0" "0x1000 \<le> ?a" "\<not> in_ram (phys_addr ?a) (unat n)"
    | "unat ?a mod unat n = 0" "0x1000 \<le> ?a" "in_ram (phys_addr ?a) (unat n)"
    by (meson not_le)
  then show ?thesis
  proof cases
    case 4
    obtain t where run: "store_mem ?a n (src2 w s) s = (Inr (), t)"
      and t: "phys t = store_le (phys s) (phys_addr ?a) (unat n) (src2 w s)" "rest t = rest s"
      using store_mem_ram [OF assms(3), of ?a "src2 w s" s] 4 by (auto simp: phys_addr_prot)
    note view = isa_of_store [OF t]
    have "wp (trace (asm_mem name (inst_rs2 w) (sint (STORE_SIMM w)) w))
        (\<lambda>_. agrees s (Running (isa_of t))) (\<lambda>_ _. False) t"
      by (rule wp_trace_flushed [OF _ asm40])
        (use assms(1) in \<open>simp_all add: flushed_def view agrees_def\<close>)
    then have "wp (trace (asm_mem name (inst_rs2 w) (sint (STORE_SIMM w)) w))
        (\<lambda>_. agrees s (Running (isa_of t))) (\<lambda>e _. Running (isa_of t) = Failed e) t"
      by (rule wp_mono) simp_all
    with 4 run view(1) show ?thesis
      by (simp add: meets_def exec_store_as_def wp_simps wp_aligned [OF assms(3)] wp_run_iff
          isa_access_def word_le_nat_alt)
  qed (auto simp: meets_def exec_store_as_def wp_simps wp_aligned [OF assms(3)] isa_access_def
      access_low word_less_nat_alt word_le_nat_alt wp_def [of "store_mem _ _ _"])
qed

lemma meets_load:
  assumes "flushed s"
  shows "meets (exec_load w) (case decode_load w of None \<Rightarrow> Ended (isa_of s)
    | Some (n, sx) \<Rightarrow> isa_exec (Load n sx (inst_rd w) (inst_rs1 w) (I_simm_11_0 w)) (isa_of s)) s"
proof -
  have m: "meets (exec_load_as name n (load_extend k sx) w)
      (isa_exec (Load k sx (inst_rd w) (inst_rs1 w) (I_simm_11_0 w)) (isa_of s)) s"
    if "short_text 6 name" "access_width n" "k = unat n" for name n k sx
    unfolding that(3) by (rule meets_load_as [OF assms that(1,2) refl])
  show ?thesis
    by (cases rule: func3_cases [of "inst_func3 w"])
      (simp_all add: exec_load_def decode_load_def load_table_def load_handlers short_text_def
        meets_inv [OF assms] m del: isa_exec.simps)
qed

lemma meets_store:
  assumes "flushed s"
  shows "meets (exec_store w) (case decode_store w of None \<Rightarrow> Ended (isa_of s)
    | Some n \<Rightarrow> isa_exec (Store n (inst_rs2 w) (inst_rs1 w) (STORE_SIMM w)) (isa_of s)) s"
proof -
  have m: "meets (exec_store_as name n w)
      (isa_exec (Store k (inst_rs2 w) (inst_rs1 w) (STORE_SIMM w)) (isa_of s)) s"
    if "short_text 6 name" "access_width n" "k = unat n" for name n k
    unfolding that(3) by (rule meets_store_as [OF assms that(1,2)])
  show ?thesis
    by (cases rule: func3_cases [of "inst_func3 w"])
      (simp_all add: exec_store_def decode_store_def store_table_def store_handlers short_text_def
        meets_inv [OF assms] m del: isa_exec.simps)
qed

section \<open>One instruction\<close>

lemma seq_mod:
  "seq_op (mod_op f) (seq_op (mod_op g) m) = seq_op (mod_op (\<lambda>s. g (f s))) m"
  "seq_op (mod_op f) (mod_op g) = mod_op (\<lambda>s. g (f s))"
  by (rule ext, simp add: op_simps)+

lemma meets_upper:
  assumes "flushed s"
  shows "meets (exec_lui w)
      (isa_exec (Lui (inst_rd w) (push_bit 12 (ucast (U_imm_31_12 w)))) (isa_of s)) s"
    and "meets (exec_auipc w)
      (isa_exec (Auipc (inst_rd w) (push_bit 12 (ucast (U_imm_31_12 w)))) (isa_of s)) s"
  unfolding exec_lui_def exec_auipc_def
  by (rule meets_update_trace [OF assms asm_short(2)]; simp add: short_text_def)+

lemma meets_jumps:
  assumes "flushed s"
  shows "meets (exec_jal w) (isa_exec (Jal (inst_rd w) (push_bit 12 (U_simm_31_12 w))) (isa_of s)) s"
    and "meets (exec_jalr w) (isa_exec (Jalr (inst_rd w) (inst_rs1 w)) (isa_of s)) s"
proof -
  have short: "short_text 40 (''jalr'' @ tab @ reg_name (inst_rd w))"
    using reg_name_short [of "inst_rd w"] by (auto simp: short_text_def)
  show "meets (exec_jal w) (isa_exec (Jal (inst_rd w) (push_bit 12 (U_simm_31_12 w))) (isa_of s)) s"
    unfolding exec_jal_def seq_mod by (rule meets_update [OF assms]) simp_all
  show "meets (exec_jalr w) (isa_exec (Jalr (inst_rd w) (inst_rs1 w)) (isa_of s)) s"
    unfolding exec_jalr_def seq_mod
    by (rule meets_update_trace [OF assms short]) (simp_all add: Let_def)
qed

lemma opcode_dispatch:
  assumes "k < 32"
  shows "(opcode_table ! k) w =
    (if k = 0 then exec_load w else if k = 3 then exec_fence w else if k = 4 then exec_alui w
     else if k = 5 then exec_auipc w else if k = 8 then exec_store w else if k = 12 then exec_alu w
     else if k = 13 then exec_lui w else if k = 24 then exec_branch w
     else if k = 27 then exec_jalr w else if k = 28 then exec_csr w else if k = 29 then exec_jal w
     else exec_inv w)"
    (is "_ = ?d k")
proof -
  have table: "map (\<lambda>h. h w) opcode_table = map ?d [0..<32]"
    by (simp add: opcode_table_def upt_rec)
  have "(opcode_table ! k) w = map (\<lambda>h. h w) opcode_table ! k"
    using assms by (subst nth_map) (simp_all add: opcode_table_def)
  also have "\<dots> = ?d ([0..<32] ! k)"
    unfolding table using assms by (intro nth_map) simp
  also have "[0..<32] ! k = k" using assms by (simp only: nth_upt)
  finally show ?thesis .
qed

lemma major_less: "major w < 32"
proof -
  have "unat (drop_bit 2 (inst_op w)) = unat (inst_op w) div 4"
    by (simp add: drop_bit_eq_div unat_div_distrib)
  moreover have "unat (inst_op w) < 2 ^ LENGTH(7)" by (rule unsigned_less)
  ultimately show ?thesis by (simp add: major_def)
qed

lemma meets_inst:
  assumes "flushed s"
  shows "meets (exec_inst w) (isa_exec (decode w) (isa_of s)) s"
proof (cases "inst_op w AND 3 = 3")
  case False
  then show ?thesis by (simp add: exec_inst_def meets_def wp_simps decode_def)
next
  case True
  have fence: "meets (exec_fence w) (Running (isa_of s)) s"
    using traced_flushed [OF assms] by (simp add: meets_def exec_fence_def wp_simps agrees_def)
  have "exec_inst w = (opcode_table ! major w) w"
    using True by (simp add: exec_inst_def check_op_def major_def)
  then show ?thesis
    unfolding opcode_dispatch [OF major_less] decode_def
    using True meets_load [OF assms, of w] meets_store [OF assms, of w] meets_alu [OF assms, of w]
      meets_alui [OF assms, of w] meets_branch [OF assms, of w] meets_csr [OF assms, of w]
      meets_upper [OF assms, of w] meets_jumps [OF assms, of w] meets_inv [OF assms, of w] fence
    by (simp split: option.splits prod.splits del: isa_exec.simps add: isa_exec.simps(10,14))
qed

section \<open>One iteration of the loop\<close>

text \<open>The loop body as three phases: fetch, execute, finish.\<close>

definition cpu_fetch :: "(machine, u32) op" where
  "cpu_fetch =
     bind_op (gets_op get_pc) (\<lambda>pc.
     seq_op (on_iq (instr_enqueue_pc pc))
    (seq_op (trace (fmt_8x pc @ '':    ''))
    (seq_op (check_op Assert_abort (pc AND 0x3 = 0))
    (bind_op (instr_fetch pc) (\<lambda>inst.
     seq_op (on_iq (instr_enqueue_instr inst))
    (seq_op (trace (fmt_08x inst @ ''    ''))
    (seq_op (on_trace (mod_op trace_flush)) (ok inst))))))))"

definition cpu_finish :: "u32 \<Rightarrow> (machine, unit) op" where
  "cpu_finish inst =
     seq_op (bind_op (gets_op (\<lambda>s. work_mode (m_mon s))) (\<lambda>mode.
       if mode = MODE_LOG then print_registers inst else ok ()))
    (mod_op (\<lambda>s. set_pc (get_pc s + 4) s))"

lemma cpu_step_phases:
  "cpu_step = bind_op cpu_fetch (\<lambda>inst. seq_op (exec_inst inst) (cpu_finish inst))"
  by (simp add: cpu_step_def cpu_fetch_def cpu_finish_def seq_op_def)

lemma pc_aligned: "(a AND 0x3 = 0) \<longleftrightarrow> unat a mod 4 = 0" for a :: u32
  using aligned_iff [of 4 a] by (simp add: aligned_def)

lemma short_line:
  "short_text 40 (fmt_8x a @ '':    '')" "short_text 40 (fmt_08x w @ ''    '')"
  using short_fmt(3) [of a] short_fmt(2) [of w] by (auto simp: short_text_def)

lemma trace_line_length: "length (fmt_8x a @ '':    '') \<le> 13"
  using short_fmt(3) [of a] by (auto simp: short_text_def)

text \<open>What the fetch phase leaves behind when the fetch succeeds.\<close>

definition fetched :: "machine \<Rightarrow> string \<Rightarrow> u32 \<Rightarrow> machine \<Rightarrow> bool" where
  "fetched s tx w t \<longleftrightarrow>
     t = s\<lparr>m_iq := iq_record (get_pc s) w (m_iq s), m_trace := m_trace t\<rparr> \<and> flushed t
     \<and> trace_out (m_trace t) = trace_out (m_trace s)
         @ [newline, newline, tx @ fmt_8x (get_pc s) @ '':    '' @ fmt_08x w @ ''    '' @ newline]"

lemma wp_fetch_line:
  assumes tx: "tracer_at tx (m_trace s)" "length tx \<le> 40"
    and rest: "\<And>u. tracer_at (tx @ fmt_8x (get_pc s) @ '':    '') u \<Longrightarrow>
      trace_out u = trace_out (m_trace s) @ [newline] \<Longrightarrow>
      wp m Q E (s\<lparr>m_iq := instr_enqueue_pc (get_pc s) (m_iq s), m_trace := u\<rparr>)"
  shows "wp (seq_op (on_iq (instr_enqueue_pc (get_pc s)))
    (seq_op (trace (fmt_8x (get_pc s) @ '':    '')) m)) Q E s"
  unfolding wp_seq on_iq_def wp_mod
  by (rule wp_trace [of tx]) (use tx rest short_line in \<open>simp_all add: tracer_ended_def\<close>)

lemma wp_fetch_ram:
  assumes tx: "tracer_at tx (m_trace s)" "length tx \<le> 40"
    and pc: "unat (get_pc s) mod 4 = 0" "0x1000 \<le> get_pc s" "in_ram (phys_addr (get_pc s)) 4"
  shows "wp cpu_fetch
    (\<lambda>w t. w = load_le (phys s) (phys_addr (get_pc s)) 4 \<and> fetched s tx w t) (\<lambda>_ _. False) s"
proof -
  define w where "w = load_le (phys s) (phys_addr (get_pc s)) 4"
  have fetch: "instr_fetch (get_pc s) (s\<lparr>m_iq := q, m_trace := u\<rparr>) = (Inr w, s\<lparr>m_iq := q, m_trace := u\<rparr>)" for q u
    using pc by (simp add: instr_fetch_def w_def load_mem_ram phys_addr_prot)
  have line: "wp (seq_op (trace (fmt_08x w @ ''    ''))
        (seq_op (on_trace (mod_op trace_flush)) (ok w)))
      (\<lambda>v t. v = w \<and> fetched s tx v t) (\<lambda>_ _. False)
      (s\<lparr>m_trace := u, m_iq := iq_record (get_pc s) w (m_iq s)\<rparr>)"
    if u: "tracer_at (tx @ fmt_8x (get_pc s) @ '':    '') u" "trace_out u = trace_out (m_trace s) @ [newline]" for u
    unfolding wp_seq
  proof (rule wp_trace)
    show "length (tx @ fmt_8x (get_pc s) @ '':    '') \<le> 100"
      using tx(2) trace_line_length [of "get_pc s"] by simp
    show "short_text 40 (fmt_08x w @ ''    '')" by (rule short_line)
    fix v assume v: "tracer_ended ((tx @ fmt_8x (get_pc s) @ '':    '') @ fmt_08x w @ ''    '') v"
      "trace_out v = trace_out (m_trace (s\<lparr>m_trace := u, m_iq := iq_record (get_pc s) w (m_iq s)\<rparr>)) @ [newline]"
    show "wp (on_trace (mod_op trace_flush)) (\<lambda>_. wp (ok w) (\<lambda>v t. v = w \<and> fetched s tx v t) (\<lambda>_ _. False))
       (\<lambda>_ _. False) (s\<lparr>m_trace := u, m_iq := iq_record (get_pc s) w (m_iq s), m_trace := v\<rparr>)"
      using trace_flush_run [OF v(1)] v(2) u(2)
      by (simp add: on_trace_def wp_simps fetched_def flushed_def)
  qed (use u in simp)
  show ?thesis
    unfolding cpu_fetch_def wp_bind wp_gets
    by (rule wp_fetch_line [OF tx])
      (use pc line fetch in \<open>simp add: wp_simps pc_aligned wp_run_iff on_iq_def iq_record_def flip: w_def\<close>)
qed

lemma wp_fetch_fault:
  assumes tx: "tracer_at tx (m_trace s)" "length tx \<le> 40"
    and pc: "unat (get_pc s) mod 4 \<noteq> 0 \<and> e = Assert_abort
      \<or> unat (get_pc s) mod 4 = 0 \<and> get_pc s < 0x1000 \<and> e = Cpu_assert"
  shows "wp cpu_fetch (\<lambda>_ _. False) (\<lambda>e' _. e' = e) s"
  unfolding cpu_fetch_def wp_bind wp_gets
  by (rule wp_fetch_line [OF tx])
    (use pc access_low(1) in \<open>auto simp: wp_simps pc_aligned instr_fetch_def wp_def [of "load_mem _ _"]\<close>)

definition devices :: "machine \<Rightarrow> video_state \<times> serial_state \<times> keyboard_state \<times> emac_state \<times> u64" where
  "devices s = (m_vga s, m_uart s, m_kb s, m_mac s, jiffy s)"

text \<open>What an iteration leaves behind, for each outcome of the abstract step.\<close>

definition step_agrees :: "machine \<Rightarrow> outcome \<Rightarrow> machine \<Rightarrow> bool" where
  "step_agrees s r t \<longleftrightarrow> devices t = devices s \<and> traced t
     \<and> work_mode (m_mon t) = work_mode (m_mon s)
     \<and> (case r of
          Running i \<Rightarrow> isa_of t = i \<and> nemu_state (m_mon t) = nemu_state (m_mon s)
        | Ended i \<Rightarrow> isa_of t = i \<and> nemu_state (m_mon t) = NEMU_END
        | _ \<Rightarrow> False)"

lemma wp_finish:
  assumes "agrees u r t" "devices u = devices s" "m_mon u = m_mon s"
  shows "wp (cpu_finish w) (\<lambda>_. step_agrees s (advance r)) (\<lambda>_ _. False) t"
  using assms
  by (auto simp: cpu_finish_def wp_simps print_registers_def on_mon_def agrees_def step_agrees_def
      surroundings_def devices_def next_pc_def traced_def set_pc_def get_pc_def isa_of_def phys_def
      split: outcome.splits)


section \<open>The step and the loop implement the specification\<close>

lemma fetched_frame:
  assumes "fetched s tx w t"
  shows "flushed t" "isa_of t = isa_of s" "devices t = devices s" "m_mon t = m_mon s"
proof -
  obtain u where t: "t = s\<lparr>m_iq := iq_record (get_pc s) w (m_iq s), m_trace := u\<rparr>" and "flushed t"
    using assms unfolding fetched_def by blast
  then show "flushed t" by simp
  show "isa_of t = isa_of s" "devices t = devices s" "m_mon t = m_mon s"
    by (simp_all add: t devices_def)
qed

lemma wp_step:
  assumes "traced s" "isa_step (isa_of s) \<noteq> Outside"
  shows "wp cpu_step (\<lambda>_. step_agrees s (isa_step (isa_of s))) (\<lambda>e _. isa_step (isa_of s) = Failed e) s"
proof -
  obtain tx where tx: "tracer_at tx (m_trace s)" "length tx \<le> 40"
    using assms(1) by (auto simp: traced_def)
  have fault: "?thesis" if "unat (get_pc s) mod 4 \<noteq> 0 \<and> e = Assert_abort
      \<or> unat (get_pc s) mod 4 = 0 \<and> get_pc s < 0x1000 \<and> e = Cpu_assert" for e
    unfolding cpu_step_phases wp_bind
    by (rule wp_mono [OF wp_fetch_fault [OF tx that]])
      (use that in \<open>auto simp: isa_step_def isa_access_def word_less_nat_alt\<close>)
  consider "unat (get_pc s) mod 4 \<noteq> 0" | "unat (get_pc s) mod 4 = 0" "get_pc s < 0x1000"
    | "unat (get_pc s) mod 4 = 0" "0x1000 \<le> get_pc s" by (meson not_le)
  then show ?thesis
  proof cases
    case 1
    then show ?thesis by (intro fault [of Assert_abort]) simp
  next
    case 2
    then show ?thesis by (intro fault [of Cpu_assert]) simp
  next
    case 3
    with assms(2) have ram: "in_ram (phys_addr (get_pc s)) 4"
      by (auto simp: isa_step_def isa_access_def word_le_nat_alt split: if_splits)
    define w where "w = load_le (phys s) (phys_addr (get_pc s)) 4"
    define r where "r = isa_exec (decode w) (isa_of s)"
    have step: "isa_step (isa_of s) = advance r"
      using 3 ram by (simp add: isa_step_def isa_access_def word_le_nat_alt w_def r_def)
    with assms(2) have "r \<noteq> Outside" by auto
    have "wp (seq_op (exec_inst w) (cpu_finish w)) (\<lambda>_. step_agrees s (advance r))
        (\<lambda>e _. advance r = Failed e) u" if u: "fetched s tx w u" for u
      unfolding wp_seq
    proof (rule wp_mono)
      show "wp (exec_inst w) (\<lambda>_. agrees u r) (\<lambda>e _. r = Failed e) u"
        using meets_inst [OF fetched_frame(1) [OF u], of w] \<open>r \<noteq> Outside\<close>
        by (simp add: meets_def r_def fetched_frame(2) [OF u])
      show "wp (cpu_finish w) (\<lambda>_. step_agrees s (advance r)) (\<lambda>e _. advance r = Failed e) t"
        if "agrees u r t" for t
        using wp_finish [OF that fetched_frame(3,4) [OF u]] by (rule wp_mono) simp_all
    qed simp
    then show ?thesis
      unfolding cpu_step_phases wp_bind step
      by (intro wp_mono [OF wp_fetch_ram [OF tx 3 ram]]) (simp_all flip: w_def)
  qed
qed

text \<open>The loop stops with \<^verbatim>\<open>NEMU_STOP\<close> when its count runs out.\<close>

definition loop_agrees :: "machine \<Rightarrow> outcome \<Rightarrow> machine \<Rightarrow> bool" where
  "loop_agrees s r t \<longleftrightarrow> devices t = devices s \<and> traced t
     \<and> (case r of
          Running i \<Rightarrow> isa_of t = i \<and> nemu_state (m_mon t) = NEMU_STOP
        | Ended i \<Rightarrow> isa_of t = i \<and> nemu_state (m_mon t) = NEMU_END
        | _ \<Rightarrow> False)"

lemma wp_loop:
  assumes "traced s" "nemu_state (m_mon s) = NEMU_RUNNING" "isa_run n (isa_of s) \<noteq> Outside"
  shows "wp (cpu_loop n) (\<lambda>_. loop_agrees s (isa_run n (isa_of s)))
    (\<lambda>e _. isa_run n (isa_of s) = Failed e) s"
  using assms
proof (induction n arbitrary: s)
  case 0
  then show ?case by (simp add: on_mon_def wp_simps loop_agrees_def devices_def)
next
  case (Suc n)
  have "isa_step (isa_of s) \<noteq> Outside" using Suc.prems(3) by auto
  note step = wp_step [OF Suc.prems(1) this]
  show ?case
    unfolding cpu_loop.simps wp_seq
  proof (rule wp_mono [OF step])
    fix t assume t: "step_agrees s (isa_step (isa_of s)) t"
    show "wp (bind_op (gets_op (\<lambda>s. nemu_state (m_mon s)))
        (\<lambda>st. if st \<noteq> NEMU_RUNNING then ok () else cpu_loop n))
      (\<lambda>_. loop_agrees s (isa_run (Suc n) (isa_of s))) (\<lambda>e _. isa_run (Suc n) (isa_of s) = Failed e) t"
    proof (cases "isa_step (isa_of s)")
      case (Running i)
      with t Suc.prems have t': "traced t" "nemu_state (m_mon t) = NEMU_RUNNING" "isa_of t = i"
        "devices t = devices s" by (simp_all add: step_agrees_def)
      have "wp (cpu_loop n) (\<lambda>_. loop_agrees t (isa_run n i)) (\<lambda>e _. isa_run n i = Failed e) t"
        using Suc.IH [of t] t' Suc.prems(3) Running by simp
      then have "wp (cpu_loop n) (\<lambda>_. loop_agrees s (isa_run n i)) (\<lambda>e _. isa_run n i = Failed e) t"
        by (rule wp_mono) (simp_all add: loop_agrees_def t')
      then show ?thesis using t' Running by (simp add: wp_simps)
    next
      case (Ended i)
      with t show ?thesis by (simp add: wp_simps step_agrees_def loop_agrees_def)
    qed (use t in \<open>simp_all add: step_agrees_def\<close>)
  qed (simp)
qed


section \<open>A machine to run examples on\<close>

text \<open>A machine after its first flush, with one instruction in DDR and the program counter on it.\<close>

definition machine_traced :: machine where
  "machine_traced = machine_init\<lparr>m_trace := tracer_init\<lparr>asm_buf_p := Some 0\<rparr>\<rparr>"

definition code_machine :: "u32 \<Rightarrow> machine" where
  "code_machine w = machine_traced\<lparr>m_cpu := (m_cpu machine_init)\<lparr>pc := 0x80001000\<rparr>,
     m_ddr := \<lparr>ddr = store_le (\<lambda>_. 0) 0x1000 4 w, ddr_mapped_size = 0\<rparr>\<rparr>"

lemma tracer_started: "tracer_at [] (tracer_init\<lparr>asm_buf_p := Some 0\<rparr>)"
  by (simp add: tracer_at_def tracer_init_def ASM_BUF_SIZE_def)

lemma code_machine_traced: "traced (code_machine w)" "flushed (code_machine w)"
  using tracer_started by (auto simp: traced_def flushed_def code_machine_def machine_traced_def)

lemma code_machine_pc: "get_pc (code_machine w) = 0x80001000"
  by (simp add: code_machine_def get_pc_def)

lemma code_machine_regs: "get_gpr r (code_machine w) = 0" "get_csr c (code_machine w) = 0"
  by (simp_all add: code_machine_def get_gpr_def get_csr_def machine_init_def)

lemma code_machine_word: "load_le (phys (code_machine w)) 0x1000 4 = w"
proof -
  have "load_le (phys (code_machine w)) 0x1000 4 = load_le (store_le (\<lambda>_. 0) 0x1000 4 w) 0x1000 4"
    by (rule load_le_cong) (simp add: phys_def code_machine_def)
  then show ?thesis by (simp add: load_store_same take_bit_word_eq_self)
qed

lemma code_machine_step:
  "isa_step (isa_of (code_machine w)) = advance (isa_exec (decode w) (isa_of (code_machine w)))"
  by (simp add: isa_step_def isa_access_def code_machine_pc phys_addr_def in_ram_def code_machine_word)

section \<open>Properties\<close>

text \<open>
  C1: One iteration of the loop of \<open>cpu_exec\<close> implements the abstract step.
  From a machine whose trace buffer is in use, the iteration returns with exactly the
  registers, program counter and memory that the specification prescribes and with every
  device untouched; an illegal instruction sets \<open>NEMU_END\<close>; and it stops with
  the fault the specification names, for every instruction and every address (accesses to
  devices apart, which are \<open>Outside\<close>).
\<close>

theorem cpu_step_refines:
  assumes "traced s"
  shows "case isa_step (isa_of s) of
      Running i \<Rightarrow> \<exists>t. cpu_step s = (Inr (), t) \<and> isa_of t = i \<and> devices t = devices s
        \<and> nemu_state (m_mon t) = nemu_state (m_mon s)
    | Ended i \<Rightarrow> \<exists>t. cpu_step s = (Inr (), t) \<and> isa_of t = i \<and> devices t = devices s
        \<and> nemu_state (m_mon t) = NEMU_END
    | Failed e \<Rightarrow> \<exists>t. cpu_step s = (Inl e, t)
    | Outside \<Rightarrow> True"
  using wp_result [OF wp_step [OF assms]]
  by (cases "isa_step (isa_of s)") (auto simp: step_agrees_def)

theorem cpu_step_refines_witness:
  "\<exists>t. cpu_step (code_machine (i_type 5 0 0 10 0x13)) = (Inr (), t)
     \<and> get_gpr 10 t = 5 \<and> get_pc t = 0x80001004"
proof -
  let ?s = "code_machine (i_type 5 0 0 10 0x13)"
  have "decode (i_type 5 0 0 10 0x13) = Op_imm Add 10 0 5"
    by (simp add: decode_def major_def decode_op_imm_def I_simm_11_0_def)
  then have "isa_step (isa_of ?s) = Running (next_pc (set_reg 10 5 (isa_of ?s)))"
    by (simp add: code_machine_step isa_alu_def alu_fault.simps alu.simps code_machine_regs)
  with cpu_step_refines [OF code_machine_traced(1), of "i_type 5 0 0 10 0x13"]
  obtain t where t: "cpu_step ?s = (Inr (), t)" "isa_of t = next_pc (set_reg 10 5 (isa_of ?s))"
    by auto
  have "i_gpr (isa_of t) 10 = 5" "i_pc (isa_of t) = 0x80001004"
    unfolding t(2) by (simp_all add: next_pc_def set_reg_def code_machine_pc)
  with t(1) show ?thesis by auto
qed

text \<open>
  C2: A call \<open>cpu_exec n\<close> implements \<open>n\<close> steps of the specification, for every count and every
  program that stays within RAM. From a machine whose trace buffer is in use and whose program
  has not ended: when the \<open>n\<close> steps run through, it returns with the registers, program counter and
  memory that they lead to, every device untouched, at \<open>NEMU_STOP\<close>; when a step is an illegal
  instruction, it returns right after it, at \<open>NEMU_END\<close>; when a step fails, it stops with the fault
  that the specification names (for a \<^verbatim>\<open>CPUAssert\<close> that is where its report begins). Of a run that
  reaches an access to a device (\<open>Outside\<close>) it says nothing; theory \<open>Io\<close> treats those.
\<close>

theorem cpu_exec_refines:
  assumes "traced s" "nemu_state (m_mon s) \<noteq> NEMU_END"
  shows "case isa_run (unat n) (isa_of s) of
      Running i \<Rightarrow> \<exists>t. cpu_exec n s = (Inr (), t) \<and> isa_of t = i \<and> devices t = devices s
        \<and> nemu_state (m_mon t) = NEMU_STOP
    | Ended i \<Rightarrow> \<exists>t. cpu_exec n s = (Inr (), t) \<and> isa_of t = i \<and> devices t = devices s
        \<and> nemu_state (m_mon t) = NEMU_END
    | Failed e \<Rightarrow> \<exists>t. cpu_exec n s = (Inl e, t)
    | Outside \<Rightarrow> True"
proof -
  let ?s = "s\<lparr>m_mon := (m_mon s)\<lparr>nemu_state := NEMU_RUNNING\<rparr>\<rparr>"
  have run: "cpu_exec n s = cpu_loop (unat n) ?s"
    using assms(2) by (simp add: cpu_exec_def op_simps on_mon_def)
  have "traced ?s" "nemu_state (m_mon ?s) = NEMU_RUNNING" "isa_of ?s = isa_of s" "devices ?s = devices s"
    using assms(1) by (simp_all add: devices_def)
  then show ?thesis
    unfolding run using wp_result [OF wp_loop [of ?s "unat n"]]
    by (cases "isa_run (unat n) (isa_of s)") (auto simp: loop_agrees_def)
qed

theorem cpu_exec_refines_witness:
  "\<exists>t. cpu_exec 1 (code_machine (u_type 0x12345 7 0x37)) = (Inr (), t)
     \<and> get_gpr 7 t = 0x12345000 \<and> nemu_state (m_mon t) = NEMU_STOP"
proof -
  let ?w = "u_type 0x12345 7 0x37"
  let ?s = "code_machine ?w"
  have "decode ?w = Lui 7 0x12345000"
    by (simp add: decode_def major_def)
  then have "isa_run (unat (1 :: u64)) (isa_of ?s) = Running (next_pc (set_reg 7 0x12345000 (isa_of ?s)))"
    by (simp add: code_machine_step)
  moreover have "nemu_state (m_mon ?s) \<noteq> NEMU_END"
    by (simp add: code_machine_def machine_traced_def machine_init_def)
  ultimately obtain t where t: "cpu_exec 1 ?s = (Inr (), t)" "nemu_state (m_mon t) = NEMU_STOP"
      "isa_of t = next_pc (set_reg 7 0x12345000 (isa_of ?s))"
    using cpu_exec_refines [OF code_machine_traced(1) [of ?w], of 1] by auto
  have "i_gpr (isa_of t) 7 = 0x12345000"
    unfolding t(3) by (simp add: next_pc_def set_reg_def)
  with t(1,2) show ?thesis by auto
qed

end
