(* ===== verification/Invariants.thy ===== *)
theory Invariants
  imports Refine
begin

text \<open>
  Properties that every instruction preserves, device accesses included. The locale
  \<open>handler_contract\<close> says what an assertion must satisfy for the pieces that handlers are
  made of (register updates, memory accesses, one line of trace); inside it every
  handler, the dispatcher and a whole iteration of the loop are shown to satisfy it. It
  is interpreted for the index invariant \<open>machine_wf\<close>, for the state of the tracer, for
  the receive buffers of the Ethernet controller and for what instructions never touch.
\<close>

unbundle bit_operations_syntax

section \<open>Assertions before and after\<close>

text \<open>
  \<open>leads_or E P Q m\<close>: started where \<open>P\<close> holds, a normal return of \<open>m\<close> is in a state of \<open>Q\<close>,
  and a fault \<open>e\<close> in a state \<open>t\<close> satisfies \<open>E e t\<close>. \<open>leads P Q m\<close> does not constrain faults.
\<close>

definition leads_or ::
  "(fault \<Rightarrow> 's \<Rightarrow> bool) \<Rightarrow> ('s \<Rightarrow> bool) \<Rightarrow> ('s \<Rightarrow> bool) \<Rightarrow> ('s, 'a) op \<Rightarrow> bool" where
  "leads_or E P Q m \<longleftrightarrow> (\<forall>s. P s \<longrightarrow> wp m (\<lambda>_. Q) E s)"

abbreviation any_fault :: "fault \<Rightarrow> 's \<Rightarrow> bool" where "any_fault \<equiv> \<lambda>_ _. True"

abbreviation leads :: "('s \<Rightarrow> bool) \<Rightarrow> ('s \<Rightarrow> bool) \<Rightarrow> ('s, 'a) op \<Rightarrow> bool" where
  "leads \<equiv> leads_or any_fault"

named_theorems leads_rules \<open>how assertions pass through the operation combinators\<close>

lemma leadsI: "(\<And>s. P s \<Longrightarrow> wp m (\<lambda>_. Q) E s) \<Longrightarrow> leads_or E P Q m"
  by (simp add: leads_or_def)

lemma leadsD: "leads_or E P Q m \<Longrightarrow> P s \<Longrightarrow> m s = (Inr a, t) \<Longrightarrow> Q t"
  by (auto simp: leads_or_def wp_def)

lemma leads_faultD: "leads_or E P Q m \<Longrightarrow> P s \<Longrightarrow> m s = (Inl e, t) \<Longrightarrow> E e t"
  by (auto simp: leads_or_def wp_def)

lemma leads_keeps: "keeps I m \<Longrightarrow> leads I I m"
  unfolding leads_or_def keeps_wp by (blast intro: wp_mono)

lemma leads_kept: "leads_or (\<lambda>_. I) I I m \<longleftrightarrow> keeps I m"
  by (simp add: leads_or_def keeps_wp)

lemma leads_keeps_or: "keeps I m \<Longrightarrow> (\<And>s. wp m (\<lambda>_ _. True) E s) \<Longrightarrow> leads_or E I I m"
  unfolding leads_or_def keeps_wp
  using wp_conj [of m "\<lambda>_. I" "\<lambda>_ _. True" "\<lambda>_. I" E] by (blast intro: wp_mono)

lemma leads_weaken: "leads_or E P R m \<Longrightarrow> (\<And>s. R s \<Longrightarrow> Q s) \<Longrightarrow> leads_or E P Q m"
  unfolding leads_or_def by (blast intro: wp_mono)

lemma leads_comp: "leads_or E P R m \<Longrightarrow> (\<And>a. leads_or E R Q (f a)) \<Longrightarrow> leads_or E P Q (bind_op m f)"
  unfolding leads_or_def wp_bind by (blast intro: wp_mono)

lemma leads_comp_seq: "leads_or E P R m \<Longrightarrow> leads_or E R Q n \<Longrightarrow> leads_or E P Q (seq_op m n)"
  unfolding seq_op_def by (rule leads_comp)

lemma leads_bind [leads_rules]:
  "leads_or E P P m \<Longrightarrow> (\<And>a. leads_or E P Q (f a)) \<Longrightarrow> leads_or E P Q (bind_op m f)"
  by (rule leads_comp)

lemma leads_seq [leads_rules]: "leads_or E P P m \<Longrightarrow> leads_or E P Q n \<Longrightarrow> leads_or E P Q (seq_op m n)"
  by (rule leads_comp_seq)

lemma leads_checked:
  "(\<And>s. P s \<Longrightarrow> E e s) \<Longrightarrow> (b \<Longrightarrow> leads_or E P Q n) \<Longrightarrow> leads_or E P Q (seq_op (check_op e b) n)"
  by (auto simp: leads_or_def wp_simps)

lemma leads_basic [leads_rules]:
  "(\<And>s. P s \<Longrightarrow> Q s) \<Longrightarrow> leads_or E P Q (ok a)" "(\<And>s. P s \<Longrightarrow> E e s) \<Longrightarrow> leads_or E P Q (raise e)"
  "(\<And>s. P s \<Longrightarrow> Q s) \<Longrightarrow> leads_or E P Q (gets_op g)"
  "(\<And>s. P s \<Longrightarrow> Q s) \<Longrightarrow> (\<And>s. P s \<Longrightarrow> E e s) \<Longrightarrow> leads_or E P Q (check_op e b)"
  "(\<And>s. P s \<Longrightarrow> Q s) \<Longrightarrow> leads_or E P Q (lift_op (Inr c))"
  "(\<And>s. P s \<Longrightarrow> Q (h s)) \<Longrightarrow> leads_or E P Q (mod_op h)"
  by (simp_all add: leads_or_def wp_simps)

lemma leads_if [leads_rules]:
  "(b \<Longrightarrow> leads_or E P Q m) \<Longrightarrow> (\<not> b \<Longrightarrow> leads_or E P Q n) \<Longrightarrow> leads_or E P Q (if b then m else n)"
  by simp

section \<open>The contract of the handlers\<close>

text \<open>The faults that a guest program can provoke in any handler.\<close>

definition guest_faults :: "fault set" where
  "guest_faults = {Cpu_assert, Assert_abort, Ub Division_by_zero, Ub Division_overflow}"

locale handler_contract =
  fixes fails :: "fault \<Rightarrow> machine \<Rightarrow> bool" and pre post :: "machine \<Rightarrow> bool"
  assumes fails: "pre s \<Longrightarrow> e \<in> guest_faults \<Longrightarrow> fails e s"
    and pre_post: "pre s \<Longrightarrow> post s"
    and pre_gpr: "pre s \<Longrightarrow> pre (set_gpr r v s)"
    and pre_csr: "pre s \<Longrightarrow> pre (set_csr c v s)"
    and pre_end: "pre s \<Longrightarrow> pre (s\<lparr>m_mon := (m_mon s)\<lparr>mon_out := ls, nemu_state := NEMU_END\<rparr>\<rparr>)"
    and pre_trace: "short_text 40 msg \<Longrightarrow> leads_or fails pre post (trace msg)"
    and pre_load: "access_width n \<Longrightarrow> aligned n a \<Longrightarrow> leads_or fails pre pre (load_mem a n)"
    and pre_store: "access_width n \<Longrightarrow> aligned n a \<Longrightarrow> leads_or fails pre pre (store_mem a n d)"
begin

lemma guest_fails [simp]:
  "pre s \<Longrightarrow> fails Cpu_assert s" "pre s \<Longrightarrow> fails Assert_abort s"
  "pre s \<Longrightarrow> fails (Ub Division_by_zero) s" "pre s \<Longrightarrow> fails (Ub Division_overflow) s"
  by (simp_all add: fails guest_faults_def)

lemma post_inv: "leads_or fails pre post (exec_inv w)"
  unfolding exec_inv_def on_mon_def by (rule leadsI) (simp add: wp_simps pre_post pre_end)

lemma post_alu: "leads_or fails pre post (exec_alu w)"
proof -
  have rrr: "leads_or fails pre post (exec_rrr (alu_name op) op w)" for op
    unfolding exec_rrr_def
    by (intro leads_rules pre_trace asm_short(1) alu_name_short) (simp add: pre_gpr)
  have chk: "leads_or fails pre pre (bind_op (gets_op g) (\<lambda>(a, b). check_divisor sg a b))" for g sg
    by (rule leadsI) (simp add: check_divisor_def wp_simps split: prod.split)
  have "leads_or fails pre post (alu_handler op w)" for op
    unfolding alu_handler_def exec_rrr_div_def
    by (intro leads_if leads_seq [OF chk] rrr)
  then show ?thesis
    unfolding exec_alu_decode by (simp add: post_inv split: option.split)
qed

lemma post_alui: "leads_or fails pre post (exec_alui w)"
proof -
  have "leads_or fails pre post (exec_rri (imm_name op) op v (imm_text w op) w)" for op v
    unfolding exec_rri_def
    by (intro leads_rules pre_trace asm_short(3) imm_name_short imm_text_bound) (simp add: pre_gpr)
  then show ?thesis
    unfolding exec_alui_decode by (simp add: post_inv split: option.split prod.split)
qed

lemma post_load: "leads_or fails pre post (exec_load w)"
proof -
  have bound: "\<bar>sint (I_simm_11_0 w)\<bar> < 10 ^ 10"
    using sint_range [of "I_simm_11_0 w"] by (simp add: abs_less_iff)
  have "leads_or fails pre post (exec_load_as name n f w)"
    if "short_text 6 name" "access_width n" for name n f
    unfolding exec_load_as_def check_aligned_addr_def aligned_def [symmetric]
    by (intro leads_bind [OF leads_basic(3)] leads_checked leads_bind [OF pre_load] leads_seq [OF leads_basic(6)]
        pre_trace asm_short(4) that bound) (simp_all add: pre_gpr)
  then show ?thesis
    by (cases rule: func3_cases [of "inst_func3 w"])
      (simp_all add: exec_load_def load_table_def load_handlers post_inv short_text_def access_width_def)
qed

lemma post_store: "leads_or fails pre post (exec_store w)"
proof -
  have bound: "\<bar>sint (STORE_SIMM w)\<bar> < 10 ^ 10"
    using sint_range [of "STORE_SIMM w"] by (simp add: abs_less_iff)
  have tail: "leads_or fails pre post (seq_op (check_op Cpu_assert b)
      (seq_op (store_mem a n d) (trace (asm_mem name (inst_rs2 w) (sint (STORE_SIMM w)) w))))"
    if "short_text 6 name" "access_width n" "b = aligned n a" for name n a d b
    by (intro leads_checked leads_seq [OF pre_store] pre_trace asm_short(4) that bound)
      (use that(3) in simp_all)
  have "leads_or fails pre post (exec_store_as name n w)"
    if "short_text 6 name" "access_width n" for name n
    unfolding exec_store_as_def check_aligned_addr_def aligned_def [symmetric]
    by (intro leads_bind) (auto intro: leads_basic tail [OF that] split: prod.split)
  then show ?thesis
    by (cases rule: func3_cases [of "inst_func3 w"])
      (simp_all add: exec_store_def store_table_def store_handlers post_inv short_text_def access_width_def)
qed

lemma post_csr: "leads_or fails pre post (exec_csr w)"
  by (cases rule: func3_cases [of "inst_func3 w"])
    (auto simp: exec_csr_def csr_table_def post_inv exec_ecall_ebreak_def exec_csrrw_def
      exec_csrrs_def exec_csrrc_def exec_csrrwi_def exec_csrrsi_def exec_csrrci_def Let_def
      intro!: leads_basic pre_post pre_csr pre_gpr)

lemma post_upper: "leads_or fails pre post (exec_lui w)" "leads_or fails pre post (exec_auipc w)"
  unfolding exec_lui_def exec_auipc_def
  by (intro leads_rules pre_trace asm_short(2); simp add: pre_gpr short_text_def)+

lemma post_fence: "leads_or fails pre post (exec_fence w)"
  unfolding exec_fence_def by (intro leads_rules pre_post)

end

text \<open>Assertions that relative jumps and the increment of the program counter preserve.\<close>

locale relative_contract = handler_contract +
  assumes pre_branch: "pre s \<Longrightarrow> pre (set_pc (get_pc s + BRANCH_SIMM w * 2) s)"
    and pre_jal: "pre s \<Longrightarrow> pre (set_pc (get_pc s + push_bit 12 v) s)"
begin

lemma post_branch: "leads_or fails pre post (exec_branch w)"
  by (cases rule: func3_cases [of "inst_func3 w"])
    (auto simp: exec_branch_def branch_table_def post_inv exec_beq_def exec_bne_def exec_blt_def
      exec_bge_def exec_bltu_def exec_bgeu_def branch_if_def
      intro!: leads_basic pre_post pre_branch)

lemma post_jal: "leads_or fails pre post (exec_jal w)"
  unfolding exec_jal_def seq_mod
  by (intro leads_basic) (use pre_jal [OF pre_gpr] in \<open>auto intro: pre_post\<close>)

lemma post_inst_relative:
  assumes "major w \<noteq> 27"
  shows "leads_or fails pre post (exec_inst w)"
proof -
  have "leads_or fails pre post ((opcode_table ! major w) w)"
    unfolding opcode_dispatch [OF major_less]
    using assms by (simp add: post_load post_store post_alu post_alui post_branch post_csr
        post_upper post_fence post_jal post_inv)
  then show ?thesis
    unfolding exec_inst_def by (intro leads_rules) (simp_all add: major_def)
qed

end

text \<open>Assertions that do not constrain the program counter at all.\<close>

locale jump_contract = handler_contract +
  assumes pre_pc: "pre s \<Longrightarrow> pre (set_pc a s)"
begin

lemma post_jalr: "leads_or fails pre post (exec_jalr w)"
proof -
  have "short_text 40 (''jalr'' @ tab @ reg_name (inst_rd w))"
    using reg_name_short [of "inst_rd w"] by (auto simp: short_text_def)
  then show ?thesis
    unfolding exec_jalr_def by (intro leads_rules pre_trace) (simp_all add: pre_gpr pre_pc)
qed

end

sublocale jump_contract \<subseteq> relative_contract
  by unfold_locales (auto intro: pre_pc)

context jump_contract
begin

lemma post_inst: "leads_or fails pre post (exec_inst w)"
proof (cases "major w = 27")
  case True
  then have "leads_or fails pre post ((opcode_table ! major w) w)"
    by (simp add: opcode_dispatch post_jalr)
  then show ?thesis
    unfolding exec_inst_def by (intro leads_rules) (simp_all add: major_def)
qed (rule post_inst_relative)

end

text \<open>Assertions that survive a whole iteration.\<close>

locale step_contract = jump_contract +
  assumes post_fetch: "leads_or fails post pre cpu_fetch"
    and post_finish: "leads_or fails post post (cpu_finish w)"
begin

lemma post_step: "leads_or fails post post cpu_step"
  unfolding cpu_step_phases
  by (rule leads_comp [OF post_fetch], rule leads_comp_seq [OF post_inst post_finish])

end

section \<open>The indices of the circular arrays\<close>

lemma machine_wf_frame [simp]:
  "machine_wf (s\<lparr>m_cpu := a\<rparr>) = machine_wf s" "machine_wf (s\<lparr>m_ddr := b\<rparr>) = machine_wf s"
  "machine_wf (s\<lparr>m_vga := c\<rparr>) = machine_wf s" "machine_wf (s\<lparr>m_mac := d\<rparr>) = machine_wf s"
  "machine_wf (s\<lparr>m_mon := e\<rparr>) = machine_wf s" "machine_wf (s\<lparr>m_trace := f\<rparr>) = machine_wf s"
  "machine_wf (s\<lparr>ninstr := g\<rparr>) = machine_wf s" "machine_wf (s\<lparr>jiffy := h\<rparr>) = machine_wf s"
  "machine_wf (set_gpr r v s) = machine_wf s" "machine_wf (set_csr n v s) = machine_wf s"
  "machine_wf (set_pc x s) = machine_wf s"
  by (simp_all add: machine_wf_def set_gpr_def set_csr_def set_pc_def)

lemma machine_wf_iq:
  assumes "machine_wf s"
  shows "machine_wf (s\<lparr>m_iq := instr_enqueue_pc a (m_iq s)\<rparr>)"
    and "machine_wf (s\<lparr>m_iq := instr_enqueue_instr i (m_iq s)\<rparr>)"
  using assms by (simp_all add: machine_wf_def iq_wf_def instr_enqueue_pc_def instr_enqueue_instr_def
      NR_INSTR_def)

lemma keeps_trace: "keeps machine_wf (trace msg)"
  unfolding trace_def by (intro keeps_rules) (simp add: keeps_def on_trace_def op_simps)

lemma cpu_fetch_wf: "keeps machine_wf cpu_fetch"
  unfolding cpu_fetch_def on_iq_def instr_fetch_def
  by (intro keeps_rules keeps_trace load_mem_wf machine_wf_iq)
    (simp_all add: keeps_def on_trace_def op_simps)

lemma cpu_finish_wf: "keeps machine_wf (cpu_finish w)"
  by (simp add: cpu_finish_def print_registers_def keeps_wp wp_simps on_mon_def)

text \<open>The invariant holds at the end of every instruction, and when one fails.\<close>

interpretation wf: step_contract "\<lambda>_. machine_wf" machine_wf machine_wf
  by unfold_locales
    (simp_all add: leads_kept keeps_trace load_mem_wf store_mem_wf cpu_fetch_wf cpu_finish_wf)

lemma cpu_step_wf: "keeps machine_wf cpu_step"
  using wf.post_step by (simp add: leads_kept)

section \<open>The tracer, and the faults of an instruction\<close>

text \<open>
  The faults of one iteration: those that any guest program can provoke, the exit of the trap
  device, and the MAC address copied with a length above six.
\<close>

definition step_fault :: "fault \<Rightarrow> machine \<Rightarrow> bool" where
  "step_fault e s \<longleftrightarrow> e \<in> guest_faults \<or> access_fault e s"

lemma step_fault_guest [simp]: "step_fault Cpu_assert s" "step_fault Assert_abort s"
  by (simp_all add: step_fault_def guest_faults_def)

text \<open>
  An access that cannot fail otherwise, in a state of the tracer.
\<close>

lemma access_leads:
  assumes "access_width n" "aligned n a" "\<And>s t. core t = core s \<Longrightarrow> I s \<Longrightarrow> I t"
  shows "leads_or step_fault I I (load_mem a n)" "leads_or step_fault I I (store_mem a n d)"
proof -
  have kept: "keeps I (load_mem a n)" "keeps I (store_mem a n d)"
    using assms(3) [OF load_mem_core] assms(3) [OF store_mem_core] by (simp_all add: keeps_def)
  show "leads_or step_fault I I (load_mem a n)"
    by (rule leads_keeps_or [OF kept(1)], rule wp_mono [OF aligned_load_faults [OF assms(1,2)]]) simp_all
  show "leads_or step_fault I I (store_mem a n d)"
    by (rule leads_keeps_or [OF kept(2)], rule wp_mono [OF aligned_store_faults [OF assms(1,2)]])
      (simp_all add: step_fault_def)
qed

text \<open>
  At the head of the loop the trace buffer holds at most one operand text; after the
  flush it is empty.
\<close>

lemma flushed_core: "core t = core s \<Longrightarrow> flushed t = flushed s" "core t = core s \<Longrightarrow> traced t = traced s"
  by (simp_all add: core_def flushed_def traced_def)

lemma flushed_mon [simp]: "flushed (s\<lparr>m_mon := mn\<rparr>) = flushed s"
  by (simp add: flushed_def)

lemma trace_leads: "short_text 40 msg \<Longrightarrow> leads_or step_fault flushed traced (trace msg)"
  by (rule leadsI) (rule wp_trace_flushed)

text \<open>The line is begun, the instruction word is fetched, the line is completed and flushed.\<close>

definition line_begun :: "machine \<Rightarrow> bool" where
  "line_begun s \<longleftrightarrow> (\<exists>tx. tracer_at tx (m_trace s) \<and> length tx \<le> 60)"

definition line_ended :: "machine \<Rightarrow> bool" where
  "line_ended s \<longleftrightarrow> (\<exists>tx. tracer_ended tx (m_trace s))"

lemma line_steps:
  "leads_or step_fault traced traced (on_iq f)" "leads_or step_fault line_begun line_begun (on_iq f)"
  "leads_or step_fault traced line_begun (trace (fmt_8x a @ '':    ''))"
  "aligned 4 b \<Longrightarrow> leads_or step_fault line_begun line_begun (load_mem b 4)"
  "leads_or step_fault line_begun line_ended (trace (fmt_08x w @ ''    ''))"
  "leads_or step_fault line_ended flushed (on_trace (mod_op trace_flush))"
proof -
  show "leads_or step_fault traced traced (on_iq f)" "leads_or step_fault line_begun line_begun (on_iq f)"
    by (rule leadsI, simp add: on_iq_def wp_simps traced_def line_begun_def)+
  show "leads_or step_fault traced line_begun (trace (fmt_8x a @ '':    ''))"
  proof (rule leadsI)
    fix s assume "traced s"
    then obtain tx where tx: "tracer_at tx (m_trace s)" "length tx \<le> 40" by (auto simp: traced_def)
    have "length (tx @ fmt_8x a @ '':    '') \<le> 60" using tx(2) trace_line_length [of a] by simp
    then show "wp (trace (fmt_8x a @ '':    '')) (\<lambda>_. line_begun) step_fault s"
      by (intro wp_trace [OF tx(1) short_line(1)]) (use tx(2) in \<open>auto simp: line_begun_def tracer_ended_def\<close>)
  qed
  show "aligned 4 b \<Longrightarrow> leads_or step_fault line_begun line_begun (load_mem b 4)"
    by (rule access_leads) (auto simp: access_width_def line_begun_def core_def)
  show "leads_or step_fault line_begun line_ended (trace (fmt_08x w @ ''    ''))"
  proof (rule leadsI)
    fix s assume "line_begun s"
    then obtain tx where "tracer_at tx (m_trace s)" "length tx \<le> 60" by (auto simp: line_begun_def)
    then show "wp (trace (fmt_08x w @ ''    '')) (\<lambda>_. line_ended) step_fault s"
      by (intro wp_trace [of tx] short_line(2)) (auto simp: line_ended_def)
  qed
  show "leads_or step_fault line_ended flushed (on_trace (mod_op trace_flush))"
    by (rule leadsI) (auto simp: on_trace_def wp_simps line_ended_def flushed_def trace_flush_run(1))
qed

lemma cpu_fetch_traced: "leads_or step_fault traced flushed cpu_fetch"
proof -
  have "aligned 4 a \<longleftrightarrow> a AND 0x3 = 0" for a by (simp add: aligned_def)
  then show ?thesis
    unfolding cpu_fetch_def instr_fetch_def
    by (intro leads_bind [OF leads_basic(3)] leads_comp_seq [OF line_steps(1)] leads_comp_seq [OF line_steps(3)]
        leads_checked leads_comp [OF line_steps(4)] leads_comp_seq [OF line_steps(2)]
        leads_comp_seq [OF line_steps(5)] leads_comp_seq [OF line_steps(6)] leads_basic) simp_all
qed

lemma cpu_finish_traced: "leads_or step_fault traced traced (cpu_finish w)"
  by (rule leadsI) (simp add: cpu_finish_def print_registers_def wp_simps on_mon_def traced_def set_pc_def)

interpretation tracing: step_contract step_fault flushed traced
proof unfold_locales
  fix n a d :: u32 and s w msg
  show "leads_or step_fault flushed flushed (load_mem a n)"
    and "leads_or step_fault flushed flushed (store_mem a n d)" if "access_width n" "aligned n a"
    by (rule access_leads [OF that]; use flushed_core(1) in blast)+
  show "leads_or step_fault traced flushed cpu_fetch" by (rule cpu_fetch_traced)
  show "leads_or step_fault traced traced (cpu_finish w)" by (rule cpu_finish_traced)
  show "short_text 40 msg \<Longrightarrow> leads_or step_fault flushed traced (trace msg)" by (rule trace_leads)
qed (simp_all add: step_fault_def traced_flushed)

section \<open>The receive buffers of the Ethernet controller\<close>

definition rx_buffers :: "(nat \<Rightarrow> u32) \<Rightarrow> machine \<Rightarrow> bool" where
  "rx_buffers g s \<longleftrightarrow> same_rx g (m_mac s)"

lemma keeps_region:
  "(\<And>r. r \<in> set mmap_table \<Longrightarrow> keeps I (region_read r (prot_addr a - region_start r) n)) \<Longrightarrow>
    keeps I (vaddr_read a n)"
  "(\<And>r. r \<in> set mmap_table \<Longrightarrow> keeps I (region_write r (prot_addr a - region_start r) n d)) \<Longrightarrow>
    keeps I (vaddr_write a n d)"
  using region_at_set [of "prot_addr a"]
  by (auto simp: vaddr_read_region vaddr_write_region keeps_raise split: option.split)

lemma keeps_mac_rx:
  "keeps (rx_buffers g) (on_mac (mac_read a n))" "keeps (rx_buffers g) (on_mac (mac_write a n d))"
  using mac_read_rx [of g a n] mac_write_rx [of g a n d]
  by (simp_all add: keeps_def on_mac_def op_simps rx_buffers_def)

lemma region_rx:
  assumes "r \<in> set mmap_table"
  shows "keeps (rx_buffers g) (region_read r a n)" "keeps (rx_buffers g) (region_write r a n d)"
  using assms keeps_mac_rx [of g]
  by (auto simp: mmap_table_def region_defs badp_read_def badp_write_def invalid_read_def
      keeps_ok keeps_raise)
    (simp_all add: keeps_def on_defs op_simps rx_buffers_def)

lemma load_store_rx:
  "keeps (rx_buffers g) (load_mem a n)" "keeps (rx_buffers g) (store_mem a n d)"
  unfolding load_mem_def store_mem_def Let_def
  by (intro keeps_rules keeps_region region_rx; simp add: rx_buffers_def)+

lemma rx_frame [simp]:
  "rx_buffers g (s\<lparr>m_cpu := a\<rparr>) = rx_buffers g s" "rx_buffers g (s\<lparr>m_mon := b\<rparr>) = rx_buffers g s"
  "rx_buffers g (s\<lparr>m_trace := c\<rparr>) = rx_buffers g s" "rx_buffers g (s\<lparr>m_iq := d\<rparr>) = rx_buffers g s"
  "rx_buffers g (s\<lparr>ninstr := e\<rparr>) = rx_buffers g s" "rx_buffers g (set_gpr r v s) = rx_buffers g s"
  "rx_buffers g (set_csr n v s) = rx_buffers g s" "rx_buffers g (set_pc x s) = rx_buffers g s"
  by (simp_all add: rx_buffers_def set_gpr_def set_csr_def set_pc_def)

interpretation rx_words: step_contract any_fault "rx_buffers g" "rx_buffers g"
proof unfold_locales
  have tr: "keeps (rx_buffers g) (trace msg)" for msg
    unfolding trace_def by (intro keeps_rules) (simp add: keeps_def on_trace_def op_simps)
  show "leads (rx_buffers g) (rx_buffers g) (trace msg)" for msg by (rule leads_keeps [OF tr])
  show "leads (rx_buffers g) (rx_buffers g) cpu_fetch"
    unfolding cpu_fetch_def on_iq_def instr_fetch_def
    by (intro leads_keeps keeps_rules tr load_store_rx)
      (simp_all add: keeps_def on_trace_def op_simps)
  show "leads (rx_buffers g) (rx_buffers g) (cpu_finish w)" for w
    by (rule leadsI) (simp add: cpu_finish_def print_registers_def wp_simps on_mon_def)
qed (simp_all add: leads_keeps load_store_rx)

section \<open>What instructions never touch\<close>

text \<open>The keyboard controller (absent from the region table) and the tick counter.\<close>

definition untouched :: "keyboard_state \<Rightarrow> u64 \<Rightarrow> machine \<Rightarrow> bool" where
  "untouched k j s \<longleftrightarrow> m_kb s = k \<and> jiffy s = j"

lemma untouched_frame [simp]:
  "untouched k j (s\<lparr>m_cpu := a\<rparr>) = untouched k j s" "untouched k j (s\<lparr>m_mon := b\<rparr>) = untouched k j s"
  "untouched k j (s\<lparr>m_trace := c\<rparr>) = untouched k j s" "untouched k j (s\<lparr>m_iq := d\<rparr>) = untouched k j s"
  "untouched k j (s\<lparr>ninstr := e\<rparr>) = untouched k j s" "untouched k j (set_gpr r v s) = untouched k j s"
  "untouched k j (set_csr n v s) = untouched k j s" "untouched k j (set_pc x s) = untouched k j s"
  by (simp_all add: untouched_def set_gpr_def set_csr_def set_pc_def)

lemma core_untouched: "(\<And>s. core (snd (m s)) = core s) \<Longrightarrow> keeps (untouched k j) m"
  by (simp add: keeps_def untouched_def core_def)

interpretation idle: step_contract any_fault "untouched k j" "untouched k j"
proof unfold_locales
  have tr: "keeps (untouched k j) (trace msg)" for msg
    unfolding trace_def by (intro keeps_rules) (simp add: keeps_def on_trace_def op_simps)
  show "leads (untouched k j) (untouched k j) (trace msg)" for msg by (rule leads_keeps [OF tr])
  show "leads (untouched k j) (untouched k j) cpu_fetch"
    unfolding cpu_fetch_def on_iq_def instr_fetch_def
    by (intro leads_keeps keeps_rules tr core_untouched [OF load_mem_core])
      (simp_all add: keeps_def on_trace_def op_simps)
  show "leads (untouched k j) (untouched k j) (cpu_finish w)" for w
    by (rule leadsI) (simp add: cpu_finish_def print_registers_def wp_simps on_mon_def)
qed (simp_all add: leads_keeps core_untouched load_mem_core store_mem_core)

section \<open>Alignment of the program counter\<close>

definition pc_aligned_in :: "machine \<Rightarrow> bool" where
  "pc_aligned_in s \<longleftrightarrow> unat (get_pc s) mod 4 = 0"

lemma add_multiple:
  fixes a d :: u32
  assumes d: "unat d mod 4 = 0"
  shows "unat (a + d) mod 4 = unat a mod 4"
proof -
  have "unat (a + d) mod 4 = (unat a + unat d) mod 4"
    unfolding unat_word_ariths(1) by (rule mod_mod_cancel) simp
  also have "\<dots> = unat a mod 4" using d by presburger
  finally show ?thesis .
qed

lemma jump_offsets: "unat (BRANCH_SIMM w * 2) mod 4 = 0" "unat (push_bit 12 v :: u32) mod 4 = 0"
proof -
  have "take_bit 2 (push_bit 1 (BRANCH_SIMM w)) = 0"
    by (rule bit_word_eqI) (simp only: BRANCH_SIMM_def bits_only bit_take_bit_iff, auto)
  then show "unat (BRANCH_SIMM w * 2) mod 4 = 0"
    using unat_mod_pow [of 2 "BRANCH_SIMM w * 2"] by (simp add: push_bit_eq_mult)
  have "take_bit 2 (push_bit 12 v :: u32) = 0"
    by (rule bit_word_eqI) (auto simp: bit_simps)
  then show "unat (push_bit 12 v :: u32) mod 4 = 0"
    using unat_mod_pow [of 2 "push_bit 12 v"] by simp
qed

lemma core_pc: "(\<And>s. core (snd (m s)) = core s) \<Longrightarrow> leads pc_aligned_in pc_aligned_in m"
  by (rule leads_keeps) (simp add: keeps_def pc_aligned_in_def core_def get_pc_def)

interpretation alignment: relative_contract any_fault pc_aligned_in pc_aligned_in
proof unfold_locales
  fix s a n d msg w v
  show "leads pc_aligned_in pc_aligned_in (load_mem a n)"
    by (intro core_pc load_mem_core)
  show "leads pc_aligned_in pc_aligned_in (store_mem a n d)"
    by (intro core_pc store_mem_core)
  have "keeps pc_aligned_in (trace msg)"
    unfolding trace_def
    by (intro keeps_rules) (simp add: keeps_def on_trace_def op_simps pc_aligned_in_def get_pc_def)
  then show "leads pc_aligned_in pc_aligned_in (trace msg)" by (rule leads_keeps)
  assume "pc_aligned_in s"
  then show "pc_aligned_in (set_pc (get_pc s + BRANCH_SIMM w * 2) s)"
    and "pc_aligned_in (set_pc (get_pc s + push_bit 12 v) s)"
    using jump_offsets by (simp_all add: pc_aligned_in_def add_multiple)
qed (simp_all add: pc_aligned_in_def set_gpr_def set_csr_def get_pc_def)

section \<open>The run state during an instruction\<close>

text \<open>An instruction can end a run but never stops it.\<close>

definition not_stopped :: "machine \<Rightarrow> bool" where
  "not_stopped s \<longleftrightarrow> nemu_state (m_mon s) \<noteq> NEMU_STOP"

lemma not_stopped_frame [simp]:
  "not_stopped (s\<lparr>m_cpu := a\<rparr>) = not_stopped s" "not_stopped (s\<lparr>m_ddr := b\<rparr>) = not_stopped s"
  "not_stopped (s\<lparr>m_bram := b'\<rparr>) = not_stopped s" "not_stopped (s\<lparr>m_vga := c'\<rparr>) = not_stopped s"
  "not_stopped (s\<lparr>m_uart := d'\<rparr>) = not_stopped s" "not_stopped (s\<lparr>m_mac := e'\<rparr>) = not_stopped s"
  "not_stopped (s\<lparr>m_trace := c\<rparr>) = not_stopped s" "not_stopped (s\<lparr>m_iq := d\<rparr>) = not_stopped s"
  "not_stopped (s\<lparr>ninstr := e\<rparr>) = not_stopped s" "not_stopped (set_gpr r v s) = not_stopped s"
  "not_stopped (set_csr n v s) = not_stopped s" "not_stopped (set_pc x s) = not_stopped s"
  by (simp_all add: not_stopped_def)

lemma region_not_stopped:
  assumes "r \<in> set mmap_table"
  shows "keeps not_stopped (region_read r a n)" "keeps not_stopped (region_write r a n d)"
proof -
  have gpio: "keeps not_stopped (on_mon (gpio_write a n d))"
    by (simp add: keeps_wp on_mon_def wp_simps gpio_write_def check_gpio_def eprintf_def not_stopped_def)
  show "keeps not_stopped (region_read r a n)" "keeps not_stopped (region_write r a n d)"
    using assms gpio
    by (auto simp: mmap_table_def region_defs badp_read_def badp_write_def invalid_read_def
        keeps_ok keeps_raise)
      (simp_all add: keeps_def on_ddr_def on_bram_def on_vga_def on_uart_def on_mac_def op_simps)
qed

interpretation going: step_contract any_fault not_stopped not_stopped
proof unfold_locales
  have tr: "keeps not_stopped (trace msg)" for msg
    unfolding trace_def by (intro keeps_rules) (simp add: keeps_def on_trace_def op_simps)
  have ld: "keeps not_stopped (load_mem a n)" for a n
    unfolding load_mem_def Let_def by (intro keeps_rules keeps_region region_not_stopped)
  have st: "keeps not_stopped (store_mem a n d)" for a n d
    unfolding store_mem_def Let_def by (intro keeps_rules keeps_region region_not_stopped) simp
  show "leads not_stopped not_stopped (trace msg)" for msg by (rule leads_keeps [OF tr])
  show "leads not_stopped not_stopped (load_mem a n)" for a n by (rule leads_keeps [OF ld])
  show "leads not_stopped not_stopped (store_mem a n d)" for a n d by (rule leads_keeps [OF st])
  show "leads not_stopped not_stopped cpu_fetch"
    unfolding cpu_fetch_def on_iq_def instr_fetch_def
    by (intro leads_keeps keeps_rules tr ld) (simp_all add: keeps_def on_trace_def op_simps)
  show "leads not_stopped not_stopped (cpu_finish w)" for w
    by (rule leadsI) (simp add: cpu_finish_def print_registers_def wp_simps on_mon_def not_stopped_def)
qed (simp_all add: not_stopped_def)

section \<open>Pending input\<close>

text \<open>
  An instruction takes characters only from the front of the receive queue and leaves the
  keyboard alone, also when it fails: of the input \<open>xs\<close> that was pending, a tail still is.
\<close>

definition pending :: "int list \<Rightarrow> keyboard_state \<Rightarrow> machine \<Rightarrow> bool" where
  "pending xs k s \<longleftrightarrow> serial_wf (m_uart s) \<and> (\<exists>taken. xs = taken @ rx_chars (m_uart s)) \<and> m_kb s = k"

lemma pending_frame [simp]:
  "pending xs k (s\<lparr>m_cpu := a\<rparr>) = pending xs k s" "pending xs k (s\<lparr>m_ddr := b\<rparr>) = pending xs k s"
  "pending xs k (s\<lparr>m_bram := b'\<rparr>) = pending xs k s" "pending xs k (s\<lparr>m_vga := c'\<rparr>) = pending xs k s"
  "pending xs k (s\<lparr>m_mac := e'\<rparr>) = pending xs k s" "pending xs k (s\<lparr>m_mon := g\<rparr>) = pending xs k s"
  "pending xs k (s\<lparr>m_trace := c\<rparr>) = pending xs k s" "pending xs k (s\<lparr>m_iq := d\<rparr>) = pending xs k s"
  "pending xs k (s\<lparr>ninstr := e\<rparr>) = pending xs k s" "pending xs k (set_gpr r v s) = pending xs k s"
  "pending xs k (set_csr n v s) = pending xs k s" "pending xs k (set_pc x s) = pending xs k s"
  by (simp_all add: pending_def set_gpr_def set_csr_def set_pc_def)

lemma serial_read_takes:
  assumes "serial_wf c"
  shows "\<exists>taken. rx_chars c = taken @ rx_chars (snd (serial_read a n c))"
proof -
  have "snd (serial_read a n c) \<in> {c, serial_pop c}"
    by (simp add: serial_read_def serial_peek_def check_serial_def op_simps serial_pop_simp)
  moreover have "rx_chars (serial_pop c) = tl (rx_chars c)"
    using rx.items_deq [of c] assms by (simp add: rx_chars_def serial_wf_def)
  then have "\<exists>taken. rx_chars c = taken @ rx_chars (serial_pop c)"
    by (cases "rx_chars c") (simp_all add: exI [of _ "[_]"])
  ultimately show ?thesis by auto
qed

lemma serial_pending:
  "keeps (pending xs k) (on_uart (serial_read a n))" "keeps (pending xs k) (on_uart (serial_write a n d))"
proof -
  have "pending xs k (s\<lparr>m_uart := snd (serial_read a n (m_uart s))\<rparr>)" if s: "pending xs k s" for s
  proof -
    from s have wf: "serial_wf (m_uart s)" by (simp add: pending_def)
    then have "serial_wf (snd (serial_read a n (m_uart s)))"
      using serial_read_wf [of a n] by (simp add: keeps_def)
    moreover obtain p where "rx_chars (m_uart s) = p @ rx_chars (snd (serial_read a n (m_uart s)))"
      using serial_read_takes [OF wf] by blast
    ultimately show ?thesis using s by (auto simp: pending_def intro: exI [of _ "_ @ p"])
  qed
  then show "keeps (pending xs k) (on_uart (serial_read a n))"
    by (simp add: keeps_def on_uart_def op_simps)
  show "keeps (pending xs k) (on_uart (serial_write a n d))"
    by (auto simp: keeps_wp wp_simps on_uart_def serial_write_def check_serial_def pending_def)
qed

lemma region_pending:
  assumes "r \<in> set mmap_table"
  shows "keeps (pending xs k) (region_read r a n)" "keeps (pending xs k) (region_write r a n d)"
  using assms serial_pending
  by (auto simp: mmap_table_def region_defs badp_read_def badp_write_def invalid_read_def
      keeps_ok keeps_raise)
    (simp_all add: keeps_def on_ddr_def on_bram_def on_vga_def on_mac_def on_mon_def op_simps)

interpretation input: step_contract "\<lambda>_. pending xs k" "pending xs k" "pending xs k"
proof unfold_locales
  have tr: "keeps (pending xs k) (trace msg)" for msg
    unfolding trace_def by (intro keeps_rules) (simp add: keeps_def on_trace_def op_simps)
  have ld: "keeps (pending xs k) (load_mem a n)" for a n
    unfolding load_mem_def Let_def by (intro keeps_rules keeps_region region_pending)
  have st: "keeps (pending xs k) (store_mem a n d)" for a n d
    unfolding store_mem_def Let_def by (intro keeps_rules keeps_region region_pending) simp
  show "leads_or (\<lambda>_. pending xs k) (pending xs k) (pending xs k) (trace msg)" for msg
    by (simp add: leads_kept tr)
  show "leads_or (\<lambda>_. pending xs k) (pending xs k) (pending xs k) (load_mem a n)" for a n
    by (simp add: leads_kept ld)
  show "leads_or (\<lambda>_. pending xs k) (pending xs k) (pending xs k) (store_mem a n d)" for a n d
    by (simp add: leads_kept st)
  show "leads_or (\<lambda>_. pending xs k) (pending xs k) (pending xs k) cpu_fetch"
    unfolding leads_kept cpu_fetch_def on_iq_def instr_fetch_def
    by (intro keeps_rules tr ld) (simp_all add: keeps_def on_trace_def op_simps)
  show "leads_or (\<lambda>_. pending xs k) (pending xs k) (pending xs k) (cpu_finish w)" for w
    unfolding leads_kept by (simp add: cpu_finish_def print_registers_def keeps_wp wp_simps on_mon_def)
qed simp_all

lemma step_input:
  assumes "serial_wf (m_uart s)" "cpu_step s = (r, t)"
  shows "\<exists>taken. rx_chars (m_uart s) = taken @ rx_chars (m_uart t)" "m_kb t = m_kb s"
proof -
  have "keeps (pending (rx_chars (m_uart s)) (m_kb s)) cpu_step"
    using input.post_step by (simp add: leads_kept)
  moreover have "pending (rx_chars (m_uart s)) (m_kb s) s" using assms(1) by (simp add: pending_def)
  ultimately have "pending (rx_chars (m_uart s)) (m_kb s) t" using assms(2) by (metis keepsD)
  then show "\<exists>taken. rx_chars (m_uart s) = taken @ rx_chars (m_uart t)" "m_kb t = m_kb s"
    by (simp_all add: pending_def)
qed

section \<open>The program counter of a failed assertion\<close>

text \<open>
  When a \<^verbatim>\<open>CPUAssert\<close> fails during an iteration, the program counter is a multiple of four: the
  loop has asserted that before the fetch, and an instruction that fails one has not jumped. Only
  \<^verbatim>\<open>jalr\<close> can set an unaligned program counter, and it has no such assertion.
\<close>

definition failed_aligned :: "fault \<Rightarrow> machine \<Rightarrow> bool" where
  "failed_aligned e s \<longleftrightarrow> (e = Cpu_assert \<longrightarrow> pc_aligned_in s)"

lemma failed_core:
  assumes "\<And>s. core (snd (m s)) = core s"
  shows "leads_or failed_aligned pc_aligned_in pc_aligned_in m"
proof -
  have "keeps pc_aligned_in m"
    using assms by (simp add: keeps_def pc_aligned_in_def core_def get_pc_def)
  then show ?thesis
    unfolding leads_kept [symmetric] leads_or_def
    by (blast intro: wp_mono [where E = "\<lambda>_. pc_aligned_in"] iffD2 [OF failed_aligned_def])
qed

interpretation failing: relative_contract failed_aligned pc_aligned_in pc_aligned_in
proof unfold_locales
  fix s a n d msg w v
  show "leads_or failed_aligned pc_aligned_in pc_aligned_in (load_mem a n)"
    by (intro failed_core load_mem_core)
  show "leads_or failed_aligned pc_aligned_in pc_aligned_in (store_mem a n d)"
    by (intro failed_core store_mem_core)
  have "keeps pc_aligned_in (trace msg)"
    unfolding trace_def
    by (intro keeps_rules) (simp add: keeps_def on_trace_def op_simps pc_aligned_in_def get_pc_def)
  then show "leads_or failed_aligned pc_aligned_in pc_aligned_in (trace msg)"
    unfolding leads_kept [symmetric] leads_or_def by (blast intro: wp_mono iffD2 [OF failed_aligned_def])
  assume "pc_aligned_in s"
  then show "pc_aligned_in (set_pc (get_pc s + BRANCH_SIMM w * 2) s)"
    and "pc_aligned_in (set_pc (get_pc s + push_bit 12 v) s)"
    using jump_offsets by (simp_all add: pc_aligned_in_def add_multiple)
qed (simp_all add: pc_aligned_in_def set_gpr_def set_csr_def get_pc_def failed_aligned_def)

lemma no_cpu_assert:
  "leads_or failed_aligned P (\<lambda>_. True) (trace msg)" "leads_or failed_aligned P (\<lambda>_. True) (exec_jalr w)"
proof -
  show tr: "leads_or failed_aligned P (\<lambda>_. True) (trace msg)" for P msg
    by (rule leadsI)
      (simp add: trace_def on_trace_def wp_simps trace_append_def Let_def failed_aligned_def split: option.split)
  show "leads_or failed_aligned P (\<lambda>_. True) (exec_jalr w)"
    unfolding exec_jalr_def by (intro leads_comp_seq [where R = "\<lambda>_. True"] tr leads_basic) simp_all
qed

lemma pc_at_leads:
  assumes "\<And>s. core (snd (m s)) = core s"
  shows "keeps (\<lambda>s. get_pc s = p) m"
  using assms by (simp add: keeps_def core_def get_pc_def)

lemma cpu_fetch_failed: "leads_or failed_aligned (\<lambda>_. True) pc_aligned_in cpu_fetch"
proof (rule leadsI)
  fix s
  let ?p = "get_pc s"
  have tr: "leads_or failed_aligned (\<lambda>s. get_pc s = ?p) (\<lambda>s. get_pc s = ?p) (trace msg)" for msg
  proof (rule leads_keeps_or)
    show "keeps (\<lambda>s. get_pc s = ?p) (trace msg)"
      unfolding trace_def by (intro keeps_rules) (simp add: keeps_def on_trace_def op_simps get_pc_def)
    show "wp (trace msg) (\<lambda>_ _. True) failed_aligned u" for u
      using no_cpu_assert(1) [of "\<lambda>_. True" msg] by (simp add: leads_or_def)
  qed
  have upd: "leads_or failed_aligned (\<lambda>s. get_pc s = ?p) (\<lambda>s. get_pc s = ?p) (on_iq f)"
    "leads_or failed_aligned (\<lambda>s. get_pc s = ?p) (\<lambda>s. get_pc s = ?p) (on_trace (mod_op g))" for f g
    by (auto intro!: leadsI simp: on_iq_def on_trace_def wp_simps get_pc_def)
  have ld: "leads_or failed_aligned (\<lambda>s. get_pc s = ?p) (\<lambda>s. get_pc s = ?p) (load_mem ?p 4)"
    if "?p AND 0x3 = 0"
  proof -
    have "leads_or (\<lambda>_ u. get_pc u = ?p) (\<lambda>s. get_pc s = ?p) (\<lambda>s. get_pc s = ?p) (load_mem ?p 4)"
      by (simp add: leads_kept pc_at_leads load_mem_core)
    then show ?thesis
      using that unfolding leads_or_def pc_aligned failed_aligned_def pc_aligned_in_def
      by (auto elim!: wp_mono)
  qed
  have "leads_or failed_aligned (\<lambda>s. get_pc s = ?p) pc_aligned_in
    (seq_op (on_iq (instr_enqueue_pc ?p))
    (seq_op (trace (fmt_8x ?p @ '':    ''))
    (seq_op (check_op Assert_abort (?p AND 0x3 = 0))
    (bind_op (load_mem ?p 4) (\<lambda>inst.
     seq_op (on_iq (instr_enqueue_instr inst))
    (seq_op (trace (fmt_08x inst @ ''    ''))
    (seq_op (on_trace (mod_op trace_flush)) (ok inst))))))))"
    by (intro leads_seq [OF upd(1)] leads_seq [OF tr] leads_checked leads_bind [OF ld]
        leads_seq [OF upd(2)] leads_basic)
      (simp_all add: failed_aligned_def pc_aligned_in_def pc_aligned)
  then show "wp cpu_fetch (\<lambda>_. pc_aligned_in) failed_aligned s"
    by (simp add: cpu_fetch_def instr_fetch_def leads_or_def wp_bind wp_gets)
qed

lemma cpu_step_failed: "leads_or failed_aligned (\<lambda>_. True) (\<lambda>_. True) cpu_step"
proof -
  have inst: "leads_or failed_aligned pc_aligned_in (\<lambda>_. True) (exec_inst w)" for w
  proof (cases "major w = 27")
    case True
    have "leads_or failed_aligned pc_aligned_in (\<lambda>_. True) ((opcode_table ! major w) w)"
      using no_cpu_assert(2) True by (simp add: opcode_dispatch)
    then show ?thesis
      unfolding exec_inst_def major_def
      by (intro leads_seq leads_basic) (simp_all add: failed_aligned_def)
  next
    case False
    then show ?thesis by (intro leads_weaken [OF failing.post_inst_relative]) simp_all
  qed
  have "leads_or failed_aligned (\<lambda>_. True) (\<lambda>_. True) (cpu_finish w)" for w
    by (rule leadsI) (simp add: cpu_finish_def print_registers_def wp_simps on_mon_def)
  then show ?thesis
    unfolding cpu_step_phases by (intro leads_comp [OF cpu_fetch_failed] leads_comp_seq [OF inst])
qed

section \<open>What an instruction prints to the trace\<close>

definition out_before :: "string list \<Rightarrow> machine \<Rightarrow> bool" where
  "out_before ls s \<longleftrightarrow> flushed s \<and> trace_out (m_trace s) = ls"

definition out_after :: "string list \<Rightarrow> machine \<Rightarrow> bool" where
  "out_after ls s \<longleftrightarrow> (\<exists>r. trace_out (m_trace s) = ls @ r \<and> set r \<subseteq> {newline})"

lemma out_core: "core t = core s \<Longrightarrow> out_before ls t = out_before ls s"
  by (simp add: core_def out_before_def flushed_def)

interpretation trace_text: jump_contract any_fault "out_before ls" "out_after ls"
proof unfold_locales
  fix s a n d msg
  show "out_before ls s \<Longrightarrow> out_after ls s"
    unfolding out_before_def out_after_def by (intro exI [of _ "[]"]) simp
  show "leads (out_before ls) (out_before ls) (load_mem a n)"
    by (rule leads_keeps) (auto simp: keeps_def out_core [OF load_mem_core])
  show "leads (out_before ls) (out_before ls) (store_mem a n d)"
    by (rule leads_keeps) (auto simp: keeps_def out_core [OF store_mem_core])
  assume msg: "short_text 40 msg"
  show "leads (out_before ls) (out_after ls) (trace msg)"
  proof (rule leadsI)
    fix s assume "out_before ls s"
    then show "wp (trace msg) (\<lambda>_. out_after ls) (\<lambda>_ _. True) s"
      by (intro wp_trace [of "[]", OF _ msg]) (auto simp: out_before_def out_after_def flushed_def)
  qed
qed (simp_all add: out_before_def)

end
