(* ===== verification/Instructions.thy ===== *)
theory Instructions
  imports Invariants
begin

text \<open>
  What each class of instructions does, stated on the encoded instruction word and the
  concrete machine: the consequences of the refinement of \<open>Refine\<close> for the handlers of
  \<^verbatim>\<open>src/cpu/exec-handlers.h\<close>, written so that they can be compared with the RISC-V
  manual line by line.
\<close>

unbundle bit_operations_syntax

section \<open>From outcomes to results\<close>

text \<open>From an outcome of the abstract instruction to the result of \<open>exec_inst\<close>.\<close>

lemma exec_running:
  assumes "flushed s" "decode w = d" "isa_exec d (isa_of s) = Running i"
  shows "\<exists>t. exec_inst w s = (Inr (), t) \<and> isa_of t = i \<and> surroundings t = surroundings s
    \<and> m_mon t = m_mon s"
  using wp_result [OF mp [OF meets_inst [OF assms(1), of w, unfolded meets_def]]] assms(2,3)
  by (auto simp: agrees_def)

lemma exec_ended:
  assumes "flushed s" "decode w = Illegal"
  shows "\<exists>t. exec_inst w s = (Inr (), t) \<and> isa_of t = isa_of s \<and> surroundings t = surroundings s
    \<and> nemu_state (m_mon t) = NEMU_END"
  using wp_result [OF mp [OF meets_inst [OF assms(1), of w, unfolded meets_def]]] assms(2)
  by (auto simp: agrees_def)

lemma exec_failed:
  assumes "flushed s" "decode w = d" "isa_exec d (isa_of s) = Failed e"
  shows "\<exists>t. exec_inst w s = (Inl e, t)"
  using wp_result [OF mp [OF meets_inst [OF assms(1), of w, unfolded meets_def]]] assms(2,3)
  by (auto simp: agrees_def)

text \<open>Reading the concrete machine off an abstract state.\<close>

lemma isa_view:
  assumes "isa_of t = i"
  shows "get_gpr r t = i_gpr i r" "get_csr c t = i_csr i c" "get_pc t = i_pc i" "phys t = i_mem i"
  using assms by auto

lemma after_set_reg:
  assumes "isa_of t = set_reg rd v (isa_of s)"
  shows "get_gpr rd t = v" "r \<noteq> rd \<Longrightarrow> get_gpr r t = get_gpr r s" "get_pc t = get_pc s"
    "get_csr c t = get_csr c s" "phys t = phys s"
  unfolding isa_view [OF assms] by (simp_all add: set_reg_def)

text \<open>The codes of the register-register instructions in the RISC-V manual.\<close>

fun alu_code :: "alu_op \<Rightarrow> 7 word \<times> 3 word" where
  "alu_code Add = (0, 0)" | "alu_code Sub = (32, 0)" | "alu_code Sll = (0, 1)"
| "alu_code Slt = (0, 2)" | "alu_code Sltu = (0, 3)" | "alu_code Xor = (0, 4)"
| "alu_code Srl = (0, 5)" | "alu_code Sra = (32, 5)" | "alu_code Or = (0, 6)"
| "alu_code And = (0, 7)" | "alu_code Mul = (1, 0)" | "alu_code Mulh = (1, 1)"
| "alu_code Mulhsu = (1, 2)" | "alu_code Mulhu = (1, 3)" | "alu_code Div = (1, 4)"
| "alu_code Divu = (1, 5)" | "alu_code Rem = (1, 6)" | "alu_code Remu = (1, 7)"

definition alu_word :: "alu_op \<Rightarrow> 5 word \<Rightarrow> 5 word \<Rightarrow> 5 word \<Rightarrow> u32" where
  "alu_word op rd rs1 rs2 = r_type (fst (alu_code op)) rs2 rs1 (snd (alu_code op)) rd 0x33"

lemma decode_alu_word: "decode (alu_word op rd rs1 rs2) = Op op rd rs1 rs2"
  by (cases op) (simp_all add: alu_word_def decode_def major_def decode_op_def)

text \<open>A line of the trace, in the state that a handler leaves.\<close>

lemma trace_written:
  assumes "flushed s" "m_trace u = m_trace s" "short_text 40 msg"
  shows "\<exists>tr. trace msg u = (Inr (), u\<lparr>m_trace := tr\<rparr>) \<and> tracer_ended msg tr
    \<and> trace_out tr = trace_out (m_trace s) @ [newline]"
proof -
  have "wp (trace msg) (\<lambda>_ t. \<exists>tr. t = u\<lparr>m_trace := tr\<rparr> \<and> tracer_ended msg tr
      \<and> trace_out tr = trace_out (m_trace s) @ [newline]) (\<lambda>_ _. False) u"
    by (rule wp_trace [of "[]", OF _ assms(3)]) (use assms(1,2) in \<open>auto simp: flushed_def\<close>)
  from wp_result [OF this] show ?thesis by auto
qed

lemma trace_after:
  "flushed s \<Longrightarrow> m_trace u = m_trace s \<Longrightarrow> short_text 40 msg \<Longrightarrow>
    \<exists>tr. trace msg u = (Inr (), u\<lparr>m_trace := tr\<rparr>)"
  using trace_written by blast

lemma alu_word_fields:
  "inst_rd (alu_word op rd rs1 rs2) = rd" "inst_rs1 (alu_word op rd rs1 rs2) = rs1"
  "inst_rs2 (alu_word op rd rs1 rs2) = rs2"
  by (simp_all add: alu_word_def)

lemma alu_word_dispatch: "exec_inst (alu_word op rd rs1 rs2) = alu_handler op (alu_word op rd rs1 rs2)"
proof -
  have "inst_op (alu_word op rd rs1 rs2) = 0x33" by (simp add: alu_word_def)
  then have "exec_inst (alu_word op rd rs1 rs2) = exec_alu (alu_word op rd rs1 rs2)"
    by (simp add: exec_inst_def check_op_def opcode_dispatch)
  moreover have "decode_op (alu_word op rd rs1 rs2) = Some op"
    by (cases op) (simp_all add: alu_word_def decode_op_def)
  ultimately show ?thesis by (simp add: exec_alu_decode)
qed

text \<open>
  C17: Every register-register instruction of RV32IM other than a division, encoded as in the
  manual, computes the integer operation of \<open>alu\<close> into \<open>rd\<close>, register 0 included. Besides, it
  writes its line into the trace buffer, which was flushed before, and prints a newline to the
  trace; nothing else of the machine changes.
\<close>

theorem register_register:
  assumes "flushed s" "op \<notin> {Div, Divu, Rem, Remu}"
  shows "\<exists>tr. exec_inst (alu_word op rd rs1 rs2) s
      = (Inr (), (set_gpr rd (alu op (get_gpr rs1 s) (get_gpr rs2 s)) s)\<lparr>m_trace := tr\<rparr>)
    \<and> tracer_ended (alu_name op @ tab @ reg_name rd @ '','' @ reg_name rs1 @ '','' @ reg_name rs2) tr
    \<and> trace_out tr = trace_out (m_trace s) @ [newline]"
proof -
  let ?w = "alu_word op rd rs1 rs2"
  let ?u = "set_gpr rd (alu op (get_gpr rs1 s) (get_gpr rs2 s)) s"
  have line: "asm_rrr (alu_name op) ?w
      = alu_name op @ tab @ reg_name rd @ '','' @ reg_name rs1 @ '','' @ reg_name rs2"
    by (simp add: asm_rrr_def alu_word_fields)
  have "exec_inst ?w s = trace (asm_rrr (alu_name op) ?w) ?u"
    using assms(2) by (simp add: alu_word_dispatch alu_handler_def exec_rrr_def op_simps alu_word_fields)
  moreover have "\<exists>tr. trace (asm_rrr (alu_name op) ?w) ?u = (Inr (), ?u\<lparr>m_trace := tr\<rparr>)
      \<and> tracer_ended (asm_rrr (alu_name op) ?w) tr \<and> trace_out tr = trace_out (m_trace s) @ [newline]"
    by (rule trace_written [OF assms(1) _ asm_short(1) [OF alu_name_short]]) (simp add: set_gpr_def)
  ultimately show ?thesis unfolding line by simp
qed

theorem register_register_witness:
  "\<exists>t. exec_inst (alu_word Sub 3 1 2) (set_gpr 1 7 (set_gpr 2 9 (code_machine 0))) = (Inr (), t)
     \<and> get_gpr 3 t = 0xFFFFFFFE"
proof -
  have "flushed (set_gpr 1 7 (set_gpr 2 9 (code_machine 0)))"
    by (simp add: code_machine_traced)
  from register_register [OF this, of Sub 3 1 2] show ?thesis
    by (auto simp: alu.simps) (simp add: get_gpr_def set_gpr_def)
qed

text \<open>
  C18: A division instruction runs into undefined behaviour of the host exactly when the
  divisor is zero, or for the signed ones when the quotient overflows; otherwise it computes
  the quotient or remainder.
\<close>

theorem division_defined_iff:
  assumes "flushed s" "op \<in> {Div, Divu, Rem, Remu}"
  shows "if get_gpr rs2 s = 0
      \<or> op \<in> {Div, Rem} \<and> get_gpr rs1 s = 0x80000000 \<and> get_gpr rs2 s = 0xFFFFFFFF
    then \<exists>u t. exec_inst (alu_word op rd rs1 rs2) s = (Inl (Ub u), t)
    else \<exists>t. exec_inst (alu_word op rd rs1 rs2) s = (Inr (), t)
      \<and> get_gpr rd t = alu op (get_gpr rs1 s) (get_gpr rs2 s) \<and> phys t = phys s"
    (is "if ?undef then _ else _")
proof -
  let ?a = "get_gpr rs1 s" and ?b = "get_gpr rs2 s"
  have min: "sint ?a = - (2 ^ 31) \<longleftrightarrow> ?a = 0x80000000"
    by (subst word_eq_iff_signed) simp
  have one: "sint ?b = - 1 \<longleftrightarrow> ?b = 0xFFFFFFFF"
    by (subst word_eq_iff_signed) simp
  have fault: "alu_fault op ?a ?b = None \<longleftrightarrow> \<not> ?undef"
    unfolding alu_fault.simps min one using assms(2) by auto
  show ?thesis
  proof (cases "alu_fault op ?a ?b")
    case None
    then have "isa_exec (Op op rd rs1 rs2) (isa_of s) = Running (set_reg rd (alu op ?a ?b) (isa_of s))"
      by (simp add: isa_alu_def)
    from exec_running [OF assms(1) decode_alu_word this] None fault show ?thesis
      using after_set_reg(1,5) by (auto split: if_split)
  next
    case (Some u)
    then have "isa_exec (Op op rd rs1 rs2) (isa_of s) = Failed (Ub u)"
      by (simp add: isa_alu_def)
    from exec_failed [OF assms(1) decode_alu_word this] Some fault show ?thesis by auto
  qed
qed

theorem division_defined_iff_witness:
  "(\<exists>u t. exec_inst (alu_word Remu 3 1 2) (code_machine 0) = (Inl (Ub u), t))
   \<and> (\<exists>t. exec_inst (alu_word Div 3 1 2) (set_gpr 1 (-7) (set_gpr 2 2 (code_machine 0))) = (Inr (), t)
        \<and> get_gpr 3 t = -3)"
proof
  show "\<exists>u t. exec_inst (alu_word Remu 3 1 2) (code_machine 0) = (Inl (Ub u), t)"
    using division_defined_iff [OF code_machine_traced(2), of Remu 2 0 1 3]
    by (simp add: code_machine_regs)
  have "flushed (set_gpr 1 (-7) (set_gpr 2 2 (code_machine 0)))"
    by (simp add: code_machine_traced)
  from division_defined_iff [OF this, of Div 2 1 3]
  show "\<exists>t. exec_inst (alu_word Div 3 1 2) (set_gpr 1 (-7) (set_gpr 2 2 (code_machine 0))) = (Inr (), t)
        \<and> get_gpr 3 t = -3"
    by (auto simp: alu.simps)
qed

lemma STORE_SIMM_sum:
  "STORE_SIMM (s_type imm rs2 rs1 f3 opc) = ucast imm + (if sint imm < 0 then 0x1000 else 0)"
proof -
  have neg: "sint imm < 0 \<longleftrightarrow> bit imm 11"
    using bit_last_iff [of imm] by simp
  have disj: "(ucast imm :: u32) OR push_bit 12 (ucast (drop_bit 11 imm)) = ucast imm + push_bit 12 (ucast (drop_bit 11 imm))"
    by (rule disjunctive_add [symmetric]) (auto simp: bit_simps dest: bit_imp_le_length)
  have top: "(ucast (drop_bit 11 imm) :: u32) = (if bit imm 11 then 1 else 0)"
  proof (rule bit_word_eqI)
    fix k assume "k < LENGTH(32)"
    moreover have "bit imm (11 + k) \<Longrightarrow> k = 0" using bit_imp_le_length [of imm "11 + k"] by simp
    ultimately show "bit (ucast (drop_bit 11 imm) :: u32) k \<longleftrightarrow> bit (if bit imm 11 then 1 else 0 :: u32) k"
      by (auto simp: bit_unsigned_iff bit_drop_bit_eq bit_1_iff)
  qed
  show ?thesis unfolding STORE_SIMM_encoded disj unfolding top neg by simp
qed

lemma small_imm:
  fixes imm :: "12 word"
  assumes "unat imm < 32"
  shows "(scast imm :: u32) = ucast imm"
proof -
  have "uint imm = int (unat imm)" by simp
  with assms have "uint imm < 32" by linarith
  then have "uint imm < 2 ^ 11" by (rule less_trans) simp
  moreover have "- (2 ^ 11) \<le> uint imm" by (rule order_trans [of _ 0]) simp_all
  ultimately have "signed_take_bit 11 (uint imm) = uint imm"
    by (intro signed_take_bit_int_eq_self)
  then have "sint imm = uint imm" by (simp add: sint_uint)
  then show ?thesis by (metis of_int_sint of_int_uint)
qed

lemma imm_high_bits: "(ucast (drop_bit 5 imm) :: 7 word) = 0 \<longleftrightarrow> unat imm < 32" for imm :: "12 word"
proof -
  have "unat imm < 2 ^ LENGTH(12)" by (rule unsigned_less)
  then have "take_bit 7 (unat imm div 32) = unat imm div 32" by (simp add: take_bit_nat_eq_self)
  then show ?thesis
    by (simp add: word_unat_eq_iff unat_div_distrib drop_bit_eq_div unsigned_ucast_eq) linarith
qed

text \<open>
  C19: \<^verbatim>\<open>addi\<close> adds its immediate when that is below 32; with every
  other immediate (negative ones included) the dispatch on \<^verbatim>\<open>func7\<close>
  takes the instruction for an invalid one and the run ends.
\<close>

theorem addi_small_immediates:
  assumes "flushed s"
  shows "if unat imm < 32
    then \<exists>t. exec_inst (i_type imm rs1 0 rd 0x13) s = (Inr (), t)
      \<and> get_gpr rd t = get_gpr rs1 s + ucast imm
      \<and> (\<forall>r. r \<noteq> rd \<longrightarrow> get_gpr r t = get_gpr r s) \<and> phys t = phys s
    else \<exists>t. exec_inst (i_type imm rs1 0 rd 0x13) s = (Inr (), t)
      \<and> isa_of t = isa_of s \<and> nemu_state (m_mon t) = NEMU_END"
proof (cases "unat imm < 32")
  case True
  have "decode (i_type imm rs1 0 rd 0x13) = Op_imm Add rd rs1 (ucast imm)"
    using True by (simp add: decode_def major_def decode_op_imm_def imm_high_bits small_imm I_simm_11_0_def)
  from exec_running [OF assms this] True show ?thesis
    using after_set_reg by (auto simp: isa_alu_def alu_no_fault alu.simps)
next
  case False
  then have "decode (i_type imm rs1 0 rd 0x13) = Illegal"
    by (simp add: decode_def major_def decode_op_imm_def imm_high_bits)
  from exec_ended [OF assms this] False show ?thesis by auto
qed

theorem addi_small_immediates_witness:
  "(\<exists>t. exec_inst (i_type 31 0 0 5 0x13) (code_machine 0) = (Inr (), t) \<and> get_gpr 5 t = 31)
   \<and> (\<exists>t. exec_inst (i_type 32 0 0 5 0x13) (code_machine 0) = (Inr (), t)
        \<and> nemu_state (m_mon t) = NEMU_END)"
  using addi_small_immediates [OF code_machine_traced(2), of 31 0 5 0]
    addi_small_immediates [OF code_machine_traced(2), of 32 0 5 0]
  by (auto simp: code_machine_regs)

fun load_code :: "nat \<Rightarrow> bool \<Rightarrow> 3 word" where
  "load_code n sx = (if n = 1 then (if sx then 0 else 4) else if n = 2 then (if sx then 1 else 5) else 2)"

lemma decode_load_word:
  assumes "n \<in> {1, 2, 4}"
  shows "decode (i_type imm rs1 (load_code n sx) rd 0x03)
    = Load n (sx \<and> n \<noteq> 4) rd rs1 (scast imm)"
  using assms by (auto simp: decode_def major_def decode_load_def I_simm_11_0_def)

text \<open>
  C11: A load instruction checks alignment and the guard page, and otherwise reads
  \<open>n\<close> little-endian bytes of RAM, sign- or zero-extended, into
  \<open>rd\<close>; memory, program counter and the other registers stay as they are.
\<close>

theorem load_instruction:
  assumes "flushed s" "n \<in> {1, 2, 4}" "a = get_gpr rs1 s + scast imm"
  shows "let w = i_type imm rs1 (load_code n sx) rd 0x03; v = load_le (phys s) (phys_addr a) n in
    if unat a mod n \<noteq> 0 \<or> a < 0x1000 then \<exists>t. exec_inst w s = (Inl Cpu_assert, t)
    else in_ram (phys_addr a) n \<longrightarrow>
      (\<exists>t. exec_inst w s = (Inr (), t) \<and> phys t = phys s \<and> get_pc t = get_pc s
         \<and> (\<forall>r. r \<noteq> rd \<longrightarrow> get_gpr r t = get_gpr r s)
         \<and> (if sx then sint (get_gpr rd t) = signed_take_bit (8 * n - 1) (uint v)
            else get_gpr rd t = v))"
proof -
  define v where "v = load_le (phys s) (phys_addr a) n"
  define x where "x = load_extend n (sx \<and> n \<noteq> 4) v"
  have x: "if sx then sint x = signed_take_bit (8 * n - 1) (uint v) else x = v"
    using assms(2) by (auto simp: x_def load_extend_def signed_of_int) (simp add: sint_uint)
  have exec: "isa_exec (Load n (sx \<and> n \<noteq> 4) rd rs1 (scast imm)) (isa_of s)
      = isa_access a n (\<lambda>p. Running (set_reg rd (load_extend n (sx \<and> n \<noteq> 4) (load_le (phys s) p n)) (isa_of s)))"
    by (simp add: assms(3))
  note d = decode_load_word [OF assms(2), of imm rs1 sx rd]
  consider "unat a mod n \<noteq> 0 \<or> a < 0x1000"
    | "\<not> (unat a mod n \<noteq> 0 \<or> a < 0x1000)" "in_ram (phys_addr a) n"
    | "\<not> (unat a mod n \<noteq> 0 \<or> a < 0x1000)" "\<not> in_ram (phys_addr a) n" by blast
  then show ?thesis
  proof cases
    case 1
    then have "isa_exec (Load n (sx \<and> n \<noteq> 4) rd rs1 (scast imm)) (isa_of s) = Failed Cpu_assert"
      unfolding exec by (auto simp: isa_access_def word_less_nat_alt)
    from exec_failed [OF assms(1) d this] 1 show ?thesis by (simp add: Let_def)
  next
    case 2
    then have "isa_exec (Load n (sx \<and> n \<noteq> 4) rd rs1 (scast imm)) (isa_of s)
        = Running (set_reg rd x (isa_of s))"
      unfolding exec by (auto simp: isa_access_def word_less_nat_alt x_def v_def)
    from exec_running [OF assms(1) d this] 2 x show ?thesis
      using after_set_reg by (auto simp: Let_def simp flip: v_def)
  qed (simp add: Let_def)
qed

theorem load_instruction_witness:
  "\<exists>t. exec_inst (i_type 0 1 0 5 0x03) (set_gpr 1 0xA0001000 (code_machine 0x1280)) = (Inr (), t)
     \<and> sint (get_gpr 5 t) = - 128"
proof -
  let ?s = "set_gpr 1 0xA0001000 (code_machine 0x1280)"
  have "flushed ?s" by (simp add: code_machine_traced)
  moreover have "load_le (phys ?s) 0x1000 1 = 0x80"
    by (simp add: phys_def code_machine_def set_gpr_def store_le_def)
  ultimately show ?thesis
    using load_instruction [of ?s 1 "0xA0001000" 1 0 True 5]
    by (auto simp: Let_def phys_addr_def in_ram_def)
qed

fun store_code :: "nat \<Rightarrow> 3 word" where
  "store_code n = (if n = 1 then 0 else if n = 2 then 1 else 2)"

text \<open>
  C12: A store instruction writes exactly the \<open>n\<close> low bytes of
  \<open>rs2\<close>. Its address is \<open>rs1\<close> plus the immediate only when the
  immediate is not negative; a negative one is not sign-extended, and the address is 8192
  too high.
\<close>

theorem store_instruction:
  assumes "flushed s" "n \<in> {1, 2, 4}" 
    "a = get_gpr rs1 s + (ucast imm + (if sint imm < 0 then 0x1000 else 0))"
  shows "let w = s_type imm rs2 rs1 (store_code n) 0x23 in
    if unat a mod n \<noteq> 0 \<or> a < 0x1000 then \<exists>t. exec_inst w s = (Inl Cpu_assert, t)
    else in_ram (phys_addr a) n \<longrightarrow>
      (\<exists>t. exec_inst w s = (Inr (), t) \<and> phys t = store_le (phys s) (phys_addr a) n (get_gpr rs2 s)
         \<and> get_pc t = get_pc s \<and> (\<forall>r. get_gpr r t = get_gpr r s))"
proof -
  let ?v = "get_gpr rs2 s"
  have off: "STORE_SIMM (s_type imm rs2 rs1 (store_code n) 0x23)
      = ucast imm + (if sint imm < 0 then 0x1000 else 0)"
    by (rule STORE_SIMM_sum)
  have d: "decode (s_type imm rs2 rs1 (store_code n) 0x23)
      = Store n rs2 rs1 (ucast imm + (if sint imm < 0 then 0x1000 else 0))" (is "decode ?w = ?d")
    using assms(2) off [unfolded s_type_def]
    by (auto simp: s_type_def decode_def major_def decode_store_def)
  have exec: "isa_exec ?d (isa_of s)
      = isa_access a n (\<lambda>p. Running ((isa_of s)\<lparr>i_mem := store_le (phys s) p n ?v\<rparr>))"
    by (simp add: assms(3))
  consider "unat a mod n \<noteq> 0 \<or> a < 0x1000"
    | "\<not> (unat a mod n \<noteq> 0 \<or> a < 0x1000)" "in_ram (phys_addr a) n"
    | "\<not> (unat a mod n \<noteq> 0 \<or> a < 0x1000)" "\<not> in_ram (phys_addr a) n" by blast
  then show ?thesis
  proof cases
    case 1
    then have "isa_exec ?d (isa_of s) = Failed Cpu_assert"
      unfolding exec by (auto simp: isa_access_def word_less_nat_alt)
    from exec_failed [OF assms(1) d this] 1 show ?thesis by (simp add: Let_def)
  next
    case 2
    then have "isa_exec ?d (isa_of s)
        = Running ((isa_of s)\<lparr>i_mem := store_le (phys s) (phys_addr a) n ?v\<rparr>)"
      unfolding exec by (auto simp: isa_access_def word_less_nat_alt)
    from exec_running [OF assms(1) d this] obtain t where t: "exec_inst ?w s = (Inr (), t)"
      "isa_of t = (isa_of s)\<lparr>i_mem := store_le (phys s) (phys_addr a) n ?v\<rparr>" by blast
    then show ?thesis using isa_view [OF t(2)] 2 by (simp add: Let_def)
  qed (simp add: Let_def)
qed

theorem store_instruction_witness:
  "\<exists>t. exec_inst (s_type 0xFFC 2 1 2 0x23) (set_gpr 2 7 (set_gpr 1 0x80002004 (code_machine 0))) = (Inr (), t)
     \<and> load_le (phys t) 0x4000 4 = 7"
proof -
  let ?s = "set_gpr 2 7 (set_gpr 1 0x80002004 (code_machine 0))"
  have "flushed ?s" by (simp add: code_machine_traced)
  then show ?thesis
    using store_instruction [of ?s 4 "0x80004000" 1 "0xFFC" 2]
    by (auto simp: Let_def phys_addr_def in_ram_def load_store_same take_bit_word_eq_self)
qed

lemma b_type_fields [simp]:
  "inst_op (b_type imm rs2 rs1 f3 opc) = opc" "inst_func3 (b_type imm rs2 rs1 f3 opc) = f3"
  "inst_rs1 (b_type imm rs2 rs1 f3 opc) = rs1" "inst_rs2 (b_type imm rs2 rs1 f3 opc) = rs2"
  by (simp_all add: b_type_def)

text \<open>The handler of \<^verbatim>\<open>bne\<close> tests the same condition as that of \<^verbatim>\<open>beq\<close>.\<close>

lemma bne_is_beq:
  "exec_inst (b_type imm rs2 rs1 1 0x63) s = exec_inst (b_type imm rs2 rs1 0 0x63) s"
proof -
  have fields: "BRANCH_SIMM (b_type imm rs2 rs1 1 0x63) = BRANCH_SIMM (b_type imm rs2 rs1 0 0x63)"
    unfolding BRANCH_SIMM_def b_fields by (rule refl)
  show ?thesis
    by (simp add: exec_inst_def opcode_table_def exec_branch_def branch_table_def exec_bne_def
        exec_beq_def branch_if_def fields cong del: if_weak_cong)
qed

fun cond_code :: "cond \<Rightarrow> 3 word" where
  "cond_code CEQ = 0" | "cond_code CLT = 4" | "cond_code CGE = 5" | "cond_code CLTU = 6"
| "cond_code CGEU = 7"

text \<open>The condition under which the emulator takes the branch with a code of the manual.\<close>

definition branch_taken :: "3 word \<Rightarrow> u32 \<Rightarrow> u32 \<Rightarrow> bool" where
  "branch_taken f3 a b =
     (if f3 = 4 then sint a < sint b else if f3 = 5 then sint b \<le> sint a
      else if f3 = 6 then uint a < uint b else if f3 = 7 then uint b \<le> uint a
      else a = b)"

text \<open>
  C16: The conditional branches. \<^verbatim>\<open>beq\<close>, \<^verbatim>\<open>blt\<close>, \<^verbatim>\<open>bge\<close>, \<^verbatim>\<open>bltu\<close> and \<^verbatim>\<open>bgeu\<close> (codes 0, 4, 5, 6, 7)
  compare as the manual says, signed or unsigned; \<^verbatim>\<open>bne\<close> (code 1) does not: like \<^verbatim>\<open>beq\<close> it is taken
  when the registers are equal. A branch that is taken moves the program counter by twice the
  encoded offset (before the increment by four that follows every instruction); nothing else of
  the machine changes, and a branch that is not taken changes nothing.
\<close>

theorem branch_instruction:
  assumes "f3 \<in> {0, 1, 4, 5, 6, 7}" "even imm"
  shows "exec_inst (b_type imm rs2 rs1 f3 0x63) s = (Inr (),
    if branch_taken f3 (get_gpr rs1 s) (get_gpr rs2 s) then set_pc (get_pc s + 2 * scast imm) s else s)"
proof -
  have jump: "mod_op (\<lambda>s. branch_if (P s) (b_type imm rs2 rs1 c 0x63) s) s
      = (Inr (), if P s then set_pc (get_pc s + 2 * scast imm) s else s)" for P c
    using BRANCH_SIMM_encoded [OF assms(2)] by (simp add: op_simps branch_if_def push_bit_eq_mult mult.commute)
  have "exec_inst (b_type imm rs2 rs1 f3 0x63) = exec_branch (b_type imm rs2 rs1 f3 0x63)"
    by (simp add: exec_inst_def check_op_def opcode_dispatch)
  moreover have "exec_branch (b_type imm rs2 rs1 f3 0x63) s = (Inr (),
      if branch_taken f3 (get_gpr rs1 s) (get_gpr rs2 s) then set_pc (get_pc s + 2 * scast imm) s else s)"
    using assms(1)
    by (auto simp: exec_branch_def branch_table_def branch_taken_def exec_beq_def exec_bne_def exec_blt_def
        exec_bge_def exec_bltu_def exec_bgeu_def jump word_less_def word_le_def)
  ultimately show ?thesis by simp
qed

theorem branch_instruction_witness:
  "exec_inst (b_type 8 0 0 1 0x63) (code_machine 0) = (Inr (), set_pc 0x80001010 (code_machine 0))
   \<and> exec_inst (b_type 8 0 0 4 0x63) (code_machine 0) = (Inr (), code_machine 0)"
  using branch_instruction [of 1 8 0 0 "code_machine 0"] branch_instruction [of 4 8 0 0 "code_machine 0"]
  by (simp add: code_machine_pc branch_taken_def)

text \<open>
  C40: The manual's \<^verbatim>\<open>jal\<close> opcode executes
  \<^verbatim>\<open>jalr\<close>: it jumps to the value of the register that bits 15 to 19
  name, read after \<open>rd\<close> has been written. The manual's
  \<^verbatim>\<open>jalr\<close> opcode is an invalid instruction.
\<close>

theorem jump_opcodes:
  assumes "flushed s"
  shows "(\<exists>t. exec_inst (u_type imm rd 0x6F) s = (Inr (), t)
      \<and> nemu_state (m_mon t) = nemu_state (m_mon s) \<and> get_gpr rd t = get_pc s + 4
      \<and> get_pc t = (let r = inst_rs1 (u_type imm rd 0x6F) in if r = rd then get_pc s + 4 else get_gpr r s))
    \<and> (\<exists>t. exec_inst (u_type imm rd 0x67) s = (Inr (), t) \<and> nemu_state (m_mon t) = NEMU_END
        \<and> isa_of t = isa_of s)"
proof
  let ?r = "inst_rs1 (u_type imm rd 0x6F)"
  have "decode (u_type imm rd 0x6F) = Jalr rd ?r" by (simp add: decode_def major_def)
  from exec_running [OF assms this] obtain t
    where run: "exec_inst (u_type imm rd 0x6F) s = (Inr (), t)" "m_mon t = m_mon s"
      and t: "isa_of t = (let j = set_reg rd (get_pc s + 4) (isa_of s) in j\<lparr>i_pc := i_gpr j ?r\<rparr>)"
    by auto
  then show "\<exists>t. exec_inst (u_type imm rd 0x6F) s = (Inr (), t)
      \<and> nemu_state (m_mon t) = nemu_state (m_mon s) \<and> get_gpr rd t = get_pc s + 4
      \<and> get_pc t = (let r = ?r in if r = rd then get_pc s + 4 else get_gpr r s)"
    using isa_view [OF t] by (auto simp: Let_def)
  have "decode (u_type imm rd 0x67) = Illegal" by (simp add: decode_def major_def)
  from exec_ended [OF assms this] show "\<exists>t. exec_inst (u_type imm rd 0x67) s = (Inr (), t)
      \<and> nemu_state (m_mon t) = NEMU_END \<and> isa_of t = isa_of s" by blast
qed

theorem jump_opcodes_witness:
  "(\<exists>t. exec_inst (u_type 8 5 0x6F) (set_gpr 1 0x80002000 (code_machine 0)) = (Inr (), t)
      \<and> get_gpr 5 t = 0x80001004 \<and> get_pc t = 0x80002000)
   \<and> (\<exists>t. exec_inst (u_type 8 5 0x67) (set_gpr 1 0x80002000 (code_machine 0)) = (Inr (), t)
      \<and> nemu_state (m_mon t) = NEMU_END)"
proof -
  have "inst_rs1 (u_type 8 5 0x6F) = 1" by (simp add: inst_rs1_def u_type_def)
  moreover have "flushed (set_gpr 1 0x80002000 (code_machine 0))"
    by (simp add: code_machine_traced)
  ultimately show ?thesis
    using jump_opcodes [of "set_gpr 1 0x80002000 (code_machine 0)" 8 5]
    by (auto simp: Let_def code_machine_pc)
qed

text \<open>
  An opcode outside the dispatch table sets \<open>NEMU_END\<close> and changes no
  register, no memory and no device.
\<close>

lemma illegal_opcode_ends:
  assumes "flushed s" "inst_op w AND 3 = 3"
    and "unat (inst_op w) div 4 \<notin> {0, 3, 4, 5, 8, 12, 13, 24, 27, 28, 29}"
  shows "\<exists>t. exec_inst w s = (Inr (), t) \<and> isa_of t = isa_of s
    \<and> surroundings t = surroundings s \<and> nemu_state (m_mon t) = NEMU_END"
proof -
  have "major w = unat (inst_op w) div 4"
    by (simp add: major_def drop_bit_eq_div unat_div_distrib)
  with assms(2,3) have "decode w = Illegal" by (simp add: decode_def)
  then show ?thesis by (rule exec_ended [OF assms(1)])
qed

text \<open>\<^verbatim>\<open>csrrw\<close> does nothing when the destination register holds zero.\<close>

lemma csrrw_instruction:
  assumes "flushed s"
  shows "\<exists>t. exec_inst (i_type c rs1 1 rd 0x73) s = (Inr (), t)
    \<and> (if get_gpr rd s = 0 then isa_of t = isa_of s
       else get_gpr rd t = get_csr c s
         \<and> get_csr c t = (if rs1 = rd then get_csr c s else get_gpr rs1 s))"
proof -
  have "decode (i_type c rs1 1 rd 0x73) = Csr CSRRW rd c rs1"
    by (simp add: decode_def major_def decode_csr_def)
  from exec_running [OF assms this] obtain t
    where "exec_inst (i_type c rs1 1 rd 0x73) s = (Inr (), t)"
      and t: "isa_of t = isa_csr CSRRW rd c rs1 (isa_of s)" by auto
  then show ?thesis using isa_view [OF t] by (auto simp: Let_def)
qed

end
