(* ===== verification/System.thy ===== *)
theory System
  imports Instructions
begin

text \<open>
  The whole emulator. \<^verbatim>\<open>src/device.c\<close>: the timer tick, which counts, refreshes the
  screen and dispatches one input event. \<^verbatim>\<open>src/main.c\<close>. And the interleaving of the
  processor with the two signals that interrupt it, the virtual timer
  (\<^verbatim>\<open>SIGVTALRM\<close>) and \<^verbatim>\<open>SIGINT\<close>, as a step relation on machines in which a
  signal is delivered between two instructions.
\<close>

unbundle bit_operations_syntax

section \<open>The timer tick\<close>

definition TIMER_HZ :: u64 where "TIMER_HZ = 100"
definition VGA_HZ :: u64 where "VGA_HZ = 25"

record sdl_event =
  ev_type :: SDL_EventType
  ev_key :: int

text \<open>
  \<open>polled\<close> is what \<^verbatim>\<open>SDL_PollEvent\<close> found. When it finds nothing it leaves the local
  variable \<^verbatim>\<open>event\<close> as it is, and the code goes on to inspect it: \<open>stale\<close> is the
  content of the uninitialised variable. \<open>timer_ret\<close> is the result of
  \<^verbatim>\<open>setitimer\<close>.
\<close>

definition device_update ::
  "sdl_env \<Rightarrow> sdl_event option \<Rightarrow> sdl_event \<Rightarrow> int \<Rightarrow> (machine, unit) op" where
  "device_update sdl polled stale timer_ret =
     seq_op (mod_op (\<lambda>s. s\<lparr>jiffy := jiffy s + 1\<rparr>))
    (seq_op (bind_op (gets_op jiffy) (\<lambda>j.
        if j mod (TIMER_HZ div VGA_HZ) = 0 then on_vga update_screen else ok ()))
    (let event = (case polled of Some e \<Rightarrow> e | None \<Rightarrow> stale)
     in seq_op
       (case ev_type event of
          SDL_QUIT \<Rightarrow>
            seq_op (on_mon (mod_op (\<lambda>m. m\<lparr>mon_out := mon_out m
                      @ [''[NEMU] receive SDL_QUIT, exit(0)'' @ newline]\<rparr>)))
           (raise (Exit 0))
        | SDL_OTHER \<Rightarrow> ok ()
        | t \<Rightarrow>
            mod_op (\<lambda>s. s\<lparr>m_uart := serial_enqueue sdl t (ev_key event) (m_uart s),
                          m_kb := keyboard_enqueue sdl t (ev_key event) (m_kb s)\<rparr>))
       (check_op Assert_abort (timer_ret = 0))))"

text \<open>\<^verbatim>\<open>while(SDL_PollEvent(&event))\<close>: the pending events are a queue outside the program.\<close>

primrec sdl_clear_event_queue :: "sdl_event list \<Rightarrow> sdl_event list" where
  "sdl_clear_event_queue [] = []"
| "sdl_clear_event_queue (e # es) = sdl_clear_event_queue es"

section \<open>The tick keeps the invariants\<close>

lemma serial_enqueue_machine_wf:
  "machine_wf s \<Longrightarrow> machine_wf (s\<lparr>m_uart := serial_enqueue sdl t k (m_uart s),
     m_kb := keyboard_enqueue sdl t k (m_kb s)\<rparr>)"
  by (simp add: machine_wf_def serial_enqueue_wf keyboard_enqueue_wf)

lemma device_update_wf: "keeps machine_wf (device_update sdl polled stale ret)"
proof -
  have zooms: "keeps machine_wf (on_vga m)" "keeps machine_wf (on_mon m')" for m m'
    by (simp_all add: keeps_def on_defs op_simps)
  have "keeps machine_wf (case ev_type e of
          SDL_QUIT \<Rightarrow> seq_op (on_mon (mod_op f)) (raise (Exit 0))
        | SDL_OTHER \<Rightarrow> ok ()
        | t \<Rightarrow> mod_op (\<lambda>s. s\<lparr>m_uart := serial_enqueue sdl t (ev_key e) (m_uart s),
                          m_kb := keyboard_enqueue sdl t (ev_key e) (m_kb s)\<rparr>))" for e f
    by (cases "ev_type e")
      (auto intro!: keeps_rules zooms serial_enqueue_machine_wf)
  then show ?thesis
    unfolding device_update_def Let_def by (intro keeps_rules zooms) simp_all
qed

lemma device_update_frame:
  "wp (device_update sdl polled stale ret)
     (\<lambda>_ t. m_cpu t = m_cpu s \<and> m_ddr t = m_ddr s \<and> m_bram t = m_bram s \<and> m_mac t = m_mac s
        \<and> m_trace t = m_trace s \<and> nemu_state (m_mon t) = nemu_state (m_mon s)
        \<and> jiffy t = jiffy s + 1) (\<lambda>_ _. True) s"
proof -
  have scr: "wp update_screen (\<lambda>_ _. True) (\<lambda>_ _. True) c" for c
    by (rule wp_mono [OF update_screen_wp]) simp_all
  show ?thesis
    by (auto simp: device_update_def wp_simps on_vga_def on_mon_def Let_def
        intro!: wp_mono [OF scr] split: SDL_EventType.split)
qed

section \<open>Signals between instructions\<close>

text \<open>
  The states that a run of \<^verbatim>\<open>cpu_exec\<close> passes through: an instruction executes while
  the state is running; a timer signal can arrive at any moment, and an interrupt from
  the terminal unless the mode is a batch mode (\<^verbatim>\<open>init_monitor\<close> installs its handler
  only then).
\<close>

inductive system_step :: "sdl_env \<Rightarrow> machine \<Rightarrow> machine \<Rightarrow> bool" for sdl where
  instr: "nemu_state (m_mon s) = NEMU_RUNNING \<Longrightarrow> cpu_step s = (Inr (), t) \<Longrightarrow> system_step sdl s t"
| tick: "device_update sdl polled stale ret s = (Inr (), t) \<Longrightarrow> system_step sdl s t"
| sigint: "work_mode (m_mon s) AND MODE_BATCH = 0 \<Longrightarrow>
    system_step sdl s (s\<lparr>m_mon := sigint_handler (m_mon s)\<rparr>)"

inductive_cases system_stepE: "system_step sdl s t"

inductive reachable :: "sdl_env \<Rightarrow> machine \<Rightarrow> machine \<Rightarrow> bool" for sdl where
  start: "reachable sdl s s"
| later: "reachable sdl s t \<Longrightarrow> system_step sdl t u \<Longrightarrow> reachable sdl s u"

text \<open>An assertion that instructions, ticks and interrupts preserve holds at every moment.\<close>

lemma reachable_contract:
  assumes "leads_or E I I cpu_step" "\<And>polled stale ret. leads I I (device_update sdl polled stale ret)"
    and "\<And>u. I u \<Longrightarrow> I (u\<lparr>m_mon := sigint_handler (m_mon u)\<rparr>)"
    and "reachable sdl s t" "I s"
  shows "I t"
  using assms(4,5)
proof (induction rule: reachable.induct)
  case (later s t u)
  from later.prems have I: "I t" by (rule later.IH)
  from later.hyps(2) show ?case
    by (rule system_stepE)
      (use leadsD [OF assms(1) I] leadsD [OF assms(2) I] assms(3) [OF I] in simp_all)
qed simp

lemma device_update_leads:
  assumes "\<And>s t. I s \<Longrightarrow> m_cpu t = m_cpu s \<Longrightarrow> m_mac t = m_mac s \<Longrightarrow> m_trace t = m_trace s \<Longrightarrow> I t"
  shows "leads I I (device_update sdl polled stale ret)"
proof (rule leadsI)
  fix s assume "I s"
  then show "wp (device_update sdl polled stale ret) (\<lambda>_. I) (\<lambda>_ _. True) s"
    by (intro wp_mono [OF device_update_frame]) (auto intro: assms)
qed

lemma reachable_wf: "reachable sdl s t \<Longrightarrow> machine_wf s \<Longrightarrow> machine_wf t"
  by (rule reachable_contract [of "\<lambda>_. machine_wf" machine_wf sdl s t])
    (simp_all add: wf.post_step leads_keeps device_update_wf)

lemma reachable_traced: "reachable sdl s t \<Longrightarrow> traced s \<Longrightarrow> traced t"
  by (rule reachable_contract [of step_fault traced sdl s t, OF tracing.post_step device_update_leads])
    (simp_all add: traced_def)

lemma reachable_rx: "reachable sdl s t \<Longrightarrow> rx_buffers g s \<Longrightarrow> rx_buffers g t"
  by (rule reachable_contract [of any_fault "rx_buffers g" sdl s t, OF rx_words.post_step device_update_leads])
    (simp_all add: rx_buffers_def)

end
