(* ===== verification/Files.thy ===== *)
theory Files
  imports Machine
begin

text \<open>
  How \<^verbatim>\<open>src/monitor/monitor.c\<close> finds the size of a file and reads it. The host
  is a parameter: \<open>host_files\<close> holds what each system call delivers. Heap memory
  comes from \<^verbatim>\<open>malloc\<close> with arbitrary contents, \<open>heap\<close>; allocation does not fail.

  \<^item> \<open>lstat_buf path\<close>: the local \<^verbatim>\<open>file_status\<close> after \<^verbatim>\<open>lstat(path, ...)\<close>. The code
    ignores the result of the call, so after a failure this is indeterminate.
  \<^item> \<open>link_target path\<close>: the bytes that \<^verbatim>\<open>readlink\<close> has for its buffer (none if it fails).
  \<^item> \<open>can_open path\<close>: whether \<^verbatim>\<open>open\<close> gives a descriptor.
  \<^item> \<open>read_call path k n\<close>: the \<open>k\<close>-th \<^verbatim>\<open>read\<close> of \<open>n\<close> bytes on that descriptor, \<open>None\<close> for
    the result \<open>-1\<close>.
  \<^item> \<open>time_of_day\<close>: the time \<^verbatim>\<open>gettimeofday\<close> delivers when \<^verbatim>\<open>init_cpu\<close> asks.
\<close>

record file_stat =
  st_link :: bool
  st_size :: u64

record host_files =
  lstat_buf :: "string \<Rightarrow> file_stat"
  link_target :: "string \<Rightarrow> string"
  can_open :: "string \<Rightarrow> bool"
  read_call :: "string \<Rightarrow> nat \<Rightarrow> nat \<Rightarrow> u8 list option"
  heap :: "nat \<Rightarrow> u8"
  time_of_day :: timeval

definition malloc :: "host_files \<Rightarrow> nat \<Rightarrow> u8 list" where
  "malloc fs n = map (heap fs) [0..<n]"

lemma malloc_length [simp]: "length (malloc fs n) = n"
  by (simp add: malloc_def)

section \<open>The size of a file\<close>

text \<open>
  The buffer that \<^verbatim>\<open>readlink\<close> fills has room for \<^verbatim>\<open>st_size\<close> bytes, and the code reads it as
  a C string: without a zero byte in it the read leaves the buffer. \<open>None\<close> is a chain of links
  that never ends.
\<close>

definition link_buffer :: "host_files \<Rightarrow> string \<Rightarrow> nat \<Rightarrow> string" where
  "link_buffer fs path n =
     (let tgt = take n (link_target fs path)
      in tgt @ map (\<lambda>b. char_of (unat b)) (drop (length tgt) (malloc fs n)))"

partial_function (option) get_file_size :: "host_files \<Rightarrow> string \<Rightarrow> (fault + u64) option" where
  "get_file_size fs path =
     (let st = lstat_buf fs path
      in if st_link st then
           let buf = link_buffer fs path (unat (st_size st))
           in if nul \<in> set buf then get_file_size fs (c_string buf)
              else Some (Inl (Ub Out_of_bounds))
         else Some (Inr (st_size st)))"

section \<open>Its contents\<close>

text \<open>
  The loop of \<^verbatim>\<open>read_file\<close>: \<^verbatim>\<open>len\<close> is a \<^verbatim>\<open>size_t\<close>, so a failing read, with result \<open>-1\<close>,
  decrements it modulo \<open>2\<^sup>6\<^sup>4\<close>; and every chunk is stored at the start of the buffer.
\<close>

partial_function (option) read_loop ::
  "host_files \<Rightarrow> string \<Rightarrow> u64 \<Rightarrow> nat \<Rightarrow> u64 \<Rightarrow> u8 list \<Rightarrow> u8 list option" where
  "read_loop fs path sz k len buf =
     (if len < sz then
        (case read_call fs path k (unat (sz - len)) of
           None \<Rightarrow> read_loop fs path sz (Suc k) (len - 1) buf
         | Some bs \<Rightarrow>
             read_loop fs path sz (Suc k) (len + word_of_nat (length bs)) (bs @ drop (length bs) buf))
      else Some buf)"

text \<open>The inner \<open>None\<close> is the null pointer that \<^verbatim>\<open>read_file\<close> returns when it cannot open the file.\<close>

definition read_file :: "host_files \<Rightarrow> string \<Rightarrow> (fault + u8 list option) option" where
  "read_file fs path =
     (case get_file_size fs path of
        None \<Rightarrow> None
      | Some (Inl e) \<Rightarrow> Some (Inl e)
      | Some (Inr sz) \<Rightarrow>
          if \<not> can_open fs path then Some (Inr None)
          else map_option (\<lambda>buf. Inr (Some buf)) (read_loop fs path sz 0 0 (malloc fs (unat sz))))"

section \<open>Properties\<close>

lemma get_file_size_regular:
  "\<not> st_link (lstat_buf fs f) \<Longrightarrow> get_file_size fs f = Some (Inr (st_size (lstat_buf fs f)))"
  by (subst get_file_size.simps) simp

lemma read_file_regular:
  "\<not> st_link (lstat_buf fs f) \<Longrightarrow> can_open fs f \<Longrightarrow> read_file fs f =
    map_option (\<lambda>buf. Inr (Some buf))
      (read_loop fs f (st_size (lstat_buf fs f)) 0 0 (malloc fs (unat (st_size (lstat_buf fs f)))))"
  by (simp add: read_file_def get_file_size_regular)

text \<open>A host with one regular file \<open>f\<close> of \<open>n\<close> bytes, whose reads give the chunks \<open>cs\<close>.\<close>

definition host_with :: "string \<Rightarrow> nat \<Rightarrow> u8 list list \<Rightarrow> host_files" where
  "host_with f n cs = \<lparr>lstat_buf = (\<lambda>_. \<lparr>st_link = False, st_size = word_of_nat n\<rparr>),
     link_target = (\<lambda>_. []), can_open = (\<lambda>p. p = f),
     read_call = (\<lambda>_ k _. if k < length cs then Some (cs ! k) else Some []), heap = (\<lambda>_. 0),
     time_of_day = \<lparr>tv_sec = 0, tv_usec = 0\<rparr>\<rparr>"

text \<open>
  The size of a symbolic link is never found: \<^verbatim>\<open>lstat\<close> reports the length of the target
  and \<^verbatim>\<open>readlink\<close> adds no terminating zero, so the recursive call reads past the end of the
  buffer.
\<close>

lemma symlink_size_undefined:
  assumes "st_link (lstat_buf fs f)" "unat (st_size (lstat_buf fs f)) = length (link_target fs f)"
    and "nul \<notin> set (link_target fs f)"
  shows "get_file_size fs f = Some (Inl (Ub Out_of_bounds))"
  using assms by (subst get_file_size.simps) (simp add: link_buffer_def)

text \<open>What the buffer holds after the chunks \<open>cs\<close>, each stored at its start.\<close>

definition overwrite :: "u8 list \<Rightarrow> u8 list \<Rightarrow> u8 list" where
  "overwrite buf bs = bs @ drop (length bs) buf"

lemma read_loop_chunks:
  assumes "\<forall>k < length cs. read_call fs f (i + k) (unat sz - (unat len + length (concat (take k cs)))) = Some (cs ! k)"
    and "unat len + length (concat cs) = unat sz" "\<forall>c \<in> set cs. c \<noteq> []"
  shows "read_loop fs f sz i len buf = Some (foldl overwrite buf cs)"
  using assms
proof (induction cs arbitrary: i len buf)
  case Nil
  then show ?case by (subst read_loop.simps) (simp add: word_less_nat_alt)
next
  case (Cons c cs)
  let ?len = "len + word_of_nat (length c) :: u64"
  have pos: "0 < length c" and sum: "unat len + length c + length (concat cs) = unat sz"
    using Cons.prems by simp_all
  have "unat len + length c < 2 ^ 64" using sum unsigned_less [of sz, where ?'a = nat] by simp
  then have len: "unat ?len = unat len + length c"
    by (simp add: unat_word_ariths unat_of_nat)
  have "read_call fs f (Suc i + k) (unat sz - (unat ?len + length (concat (take k cs)))) = Some (cs ! k)"
    if "k < length cs" for k
    using Cons.prems(1) [rule_format, of "Suc k"] that by (simp add: len add.assoc)
  then have "read_loop fs f sz (Suc i) ?len (overwrite buf c) = Some (foldl overwrite (overwrite buf c) cs)"
    using Cons.prems(3) sum by (intro Cons.IH) (auto simp: len)
  moreover have "unat len < unat sz" using sum pos by linarith
  then have "len < sz" "unat (sz - len) = unat sz - unat len"
    by (simp_all add: word_less_nat_alt unat_sub word_le_nat_alt)
  moreover have "read_call fs f i (unat sz - unat len) = Some c"
    using Cons.prems(1) [rule_format, of 0] by simp
  ultimately show ?case by (subst read_loop.simps) (simp add: overwrite_def)
qed

text \<open>A regular file that the system delivers whole.\<close>

definition file_is :: "host_files \<Rightarrow> string \<Rightarrow> u8 list \<Rightarrow> bool" where
  "file_is fs f c \<longleftrightarrow> \<not> st_link (lstat_buf fs f) \<and> can_open fs f
     \<and> unat (st_size (lstat_buf fs f)) = length c \<and> c \<noteq> [] \<and> read_call fs f 0 (length c) = Some c"

lemma read_whole_file:
  assumes "file_is fs f c"
  shows "get_file_size fs f = Some (Inr (word_of_nat (length c)))"
    and "read_file fs f = Some (Inr (Some c))"
proof -
  have "word_of_nat (unat (st_size (lstat_buf fs f))) = st_size (lstat_buf fs f)" by simp
  then have "st_size (lstat_buf fs f) = word_of_nat (length c)"
    using assms by (simp add: file_is_def del: of_nat_unat)
  then show "get_file_size fs f = Some (Inr (word_of_nat (length c)))"
    using assms by (simp add: file_is_def get_file_size_regular)
  have "read_loop fs f (st_size (lstat_buf fs f)) 0 0 b = Some (foldl overwrite b [c])"
    if "length b = length c" for b
    using assms by (intro read_loop_chunks) (simp_all add: file_is_def)
  then show "read_file fs f = Some (Inr (Some c))"
    using assms by (simp add: file_is_def read_file_regular overwrite_def)
qed

text \<open>
  C38: \<open>read_file\<close> of a regular file that the system delivers in chunks returns, but its buffer
  is every chunk written over the start of the one before: the file's contents when there is one
  chunk, and a buffer that begins with the last chunk otherwise.
\<close>

theorem read_file_chunks:
  assumes "\<not> st_link (lstat_buf fs f)" "can_open fs f"
    and "unat (st_size (lstat_buf fs f)) = length (concat cs)" "\<forall>c \<in> set cs. c \<noteq> []"
    and "\<forall>k < length cs. read_call fs f k (length (concat cs) - length (concat (take k cs))) = Some (cs ! k)"
  shows "\<exists>buf. read_file fs f = Some (Inr (Some buf)) \<and> (length cs = 1 \<longrightarrow> buf = concat cs)
    \<and> (cs \<noteq> [] \<longrightarrow> take (length (last cs)) buf = last cs)"
proof -
  let ?m = "malloc fs (length (concat cs))"
  have "read_loop fs f (st_size (lstat_buf fs f)) 0 0 ?m = Some (foldl overwrite ?m cs)"
    using assms(3-5) by (intro read_loop_chunks) simp_all
  then have "read_file fs f = Some (Inr (Some (foldl overwrite ?m cs)))"
    by (simp add: read_file_regular assms)
  moreover have "foldl overwrite ?m cs = concat cs" if "length cs = 1"
    using that by (auto simp: overwrite_def length_Suc_conv)
  moreover have "take (length (last cs)) (foldl overwrite ?m cs) = last cs" if "cs \<noteq> []"
    using that by (cases cs rule: rev_cases) (simp_all add: overwrite_def)
  ultimately show ?thesis by blast
qed

theorem read_file_chunks_witness:
  "\<exists>buf. read_file (host_with ''f'' 3 [[1], [2, 3]]) ''f'' = Some (Inr (Some buf)) \<and> take 2 buf = [2, 3]"
proof -
  let ?h = "host_with ''f'' 3 [[1], [2, 3]]" and ?cs = "[[1], [2, 3]] :: u8 list list"
  have "\<exists>buf. read_file ?h ''f'' = Some (Inr (Some buf)) \<and> (length ?cs = 1 \<longrightarrow> buf = concat ?cs)
      \<and> (?cs \<noteq> [] \<longrightarrow> take (length (last ?cs)) buf = last ?cs)"
    by (rule read_file_chunks) (simp_all add: host_with_def nth_Cons' split: nat.split)
  then show ?thesis by (auto simp: numeral_2_eq_2)
qed

text \<open>
  C39: A file that ends before its reported size, on which every read gives no bytes, is read for
  ever.
\<close>

theorem read_file_diverges:
  assumes "\<not> st_link (lstat_buf fs f)" "can_open fs f" "st_size (lstat_buf fs f) \<noteq> 0"
    and "\<And>k n. read_call fs f k n = Some []"
  shows "read_file fs f = None"
proof -
  have stuck: "\<not> (g = fs \<and> p = f \<and> l < n)" if "read_loop g p n k l b = Some y" for g p n k l b y
    by (rule read_loop.raw_induct [OF _ that, where P = "\<lambda>g p n k l b y. \<not> (g = fs \<and> p = f \<and> l < n)"])
      (fastforce simp: assms(4) split: if_splits)
  have "read_loop fs f (st_size (lstat_buf fs f)) 0 0 b = None" for b
    using stuck [of fs f "st_size (lstat_buf fs f)" 0 0 b] assms(3)
    by (cases "read_loop fs f (st_size (lstat_buf fs f)) 0 0 b") (simp_all add: word_greater_zero_iff)
  then show ?thesis by (simp add: read_file_regular assms(1,2))
qed

theorem read_file_diverges_witness: "read_file (host_with ''f'' 3 []) ''f'' = None"
  by (rule read_file_diverges) (simp_all add: host_with_def)

end
