(* ===== verification/Pointer.thy ===== *)
theory Pointer
  imports Prelude
begin

text \<open>
The pointer class of \<^verbatim>\<open>include/nemu.h\<close>, which \<^verbatim>\<open>load_elf\<close> of \<^verbatim>\<open>src/monitor/monitor.c\<close>
  uses for the file buffer (the Makefile compiles with \<^verbatim>\<open>g++\<close>). A pointer is its address on a
  64-bit host. Whether an address lies inside an array is the concern of the access (theory
  \<open>Boot\<close>); the constructors, the copies and the conversion to \<^verbatim>\<open>T*\<close> leave the address alone.
\<close>

unbundle bit_operations_syntax

section \<open>The operators\<close>

definition VoidPtr_plus :: "u64 \<Rightarrow> u64 \<Rightarrow> u64" where
  "VoidPtr_plus p inc = p + inc"

text \<open>\<^verbatim>\<open>operator++(int)\<close> is the postfix operator: an expression \<^verbatim>\<open>p++\<close> calls it with 0.\<close>

definition VoidPtr_inc :: "u32 \<Rightarrow> (u64, u64) op" where
  "VoidPtr_inc inc =
     seq_op (mod_op (\<lambda>p. VoidPtr_plus p (scast inc))) (gets_op (\<lambda>p. p))"

definition VoidPtr_plus_assign :: "u64 \<Rightarrow> (u64, u64) op" where
  "VoidPtr_plus_assign inc = seq_op (mod_op (\<lambda>p. VoidPtr_plus p inc)) (gets_op (\<lambda>p. p))"

text \<open>The negation is one of \<^verbatim>\<open>int\<close>, and its result is converted to \<^verbatim>\<open>size_t\<close>.\<close>

definition VoidPtr_minus :: "u64 \<Rightarrow> u32 \<Rightarrow> fault + u64" where
  "VoidPtr_minus p dec =
     (if sint dec = - (2 ^ 31) then Inl (Ub Int_overflow) else Inr (VoidPtr_plus p (scast (- dec))))"

definition VoidPtr_dec :: "u32 \<Rightarrow> (u64, u64) op" where
  "VoidPtr_dec dec =
     bind_op (gets_op (\<lambda>p. p)) (\<lambda>p.
     bind_op (lift_op (VoidPtr_minus p dec)) (\<lambda>q.
     seq_op (mod_op (\<lambda>_. q)) (ok q)))"

text \<open>The argument of \<^verbatim>\<open>operator-=\<close> is a \<^verbatim>\<open>size_t\<close> that \<^verbatim>\<open>operator-\<close> takes as an \<^verbatim>\<open>int\<close>.\<close>

definition VoidPtr_minus_assign :: "u64 \<Rightarrow> (u64, u64) op" where
  "VoidPtr_minus_assign dec = VoidPtr_dec (ucast dec)"

definition VoidPtr_not :: "u64 \<Rightarrow> bool" where
  "VoidPtr_not p \<longleftrightarrow> p = 0"

section \<open>What they compute\<close>

text \<open>The offsets that \<open>load_elf\<close> adds one by one.\<close>

lemma VoidPtr_offsets:
  "VoidPtr_plus (VoidPtr_plus p (word_of_nat a)) (word_of_nat b) = p + word_of_nat (a + b)"
  by (simp add: VoidPtr_plus_def)

text \<open>\<^verbatim>\<open>p++\<close> and \<^verbatim>\<open>p--\<close> do not move the pointer.\<close>

lemma VoidPtr_postfix: "VoidPtr_inc 0 p = (Inr p, p)" "VoidPtr_dec 0 p = (Inr p, p)"
  by (simp_all add: VoidPtr_inc_def VoidPtr_dec_def VoidPtr_minus_def VoidPtr_plus_def op_simps)

lemma scast_minus:
  assumes "sint (d :: u32) \<noteq> - (2 ^ 31)"
  shows "(scast (- d) :: u64) = - scast d"
proof -
  have r: "- (2 ^ 31) < sint d" "sint d < 2 ^ 31"
    using sint_ge [of d] sint_lt [of d] assms by simp_all
  have "sint (- d) = signed_take_bit 31 (- sint d)" by (simp add: sint_word_ariths)
  also have "\<dots> = - sint d" using r by (simp add: signed_take_bit_int_eq_self)
  finally have "sint (- d) = - sint d" .
  then have "(word_of_int (sint (- d)) :: u64) = - word_of_int (sint d)" by (simp only: of_int_minus)
  then show ?thesis unfolding scast_eq .
qed

text \<open>
  Subtraction undoes addition for distances that an \<^verbatim>\<open>int\<close> holds; \<^verbatim>\<open>-=\<close> drops the upper half
  of its argument, so four gigabytes are no distance at all.
\<close>

lemma VoidPtr_minus_plus:
  assumes "n < 2 ^ 31"
  shows "VoidPtr_minus_assign (word_of_nat n) (VoidPtr_plus p (word_of_nat n)) = (Inr p, p)"
proof -
  have s: "sint (word_of_nat n :: u32) = int n"
    using assms by (simp add: sint_uint unsigned_of_nat take_bit_nat_eq_self signed_take_bit_int_eq_self)
  have "(ucast (word_of_nat n :: u64) :: u32) = word_of_nat n" by (rule bit_word_eqI) (simp add: bit_simps)
  moreover have "(scast (word_of_nat n :: u32) :: u64) = word_of_nat n"
    unfolding scast_eq s by simp
  ultimately show ?thesis
    using scast_minus [of "word_of_nat n"] s
    by (simp add: VoidPtr_minus_assign_def VoidPtr_dec_def VoidPtr_minus_def VoidPtr_plus_def op_simps)
qed

lemma VoidPtr_minus_truncates: "VoidPtr_minus_assign 0x100000000 p = (Inr p, p)"
proof -
  have "(ucast (0x100000000 :: u64) :: u32) = 0" by simp
  then show ?thesis unfolding VoidPtr_minus_assign_def by (simp only: VoidPtr_postfix)
qed

end
