(* ===== verification/Boot.thy ===== *)
theory Boot
  imports System Files Pointer
begin

text \<open>
  Start-up: the command line, the images and the initial state of the machine
  (\<^verbatim>\<open>src/monitor/monitor.c\<close>), the set-up of the display and the timer (\<^verbatim>\<open>init_sdl\<close> of
  \<^verbatim>\<open>src/device.c\<close>), and \<^verbatim>\<open>main\<close> (\<^verbatim>\<open>src/main.c\<close>).

  Three libraries are parameters: the host's files (theory \<open>Files\<close>), \<^verbatim>\<open>getopt_long\<close>, given by
  the list of results it delivers for the command line (an option character with its
  \<^verbatim>\<open>optarg\<close>, until \<open>-1\<close>), and the results of the SDL and POSIX calls of \<^verbatim>\<open>init_sdl\<close>.
\<close>

unbundle bit_operations_syntax

record itimerval =
  it_value_sec :: u64
  it_value_usec :: u64
  it_interval_sec :: u64
  it_interval_usec :: u64

record boot_state =
  b_machine :: machine
  elf_entry :: u32
  elf_file :: "string option"
  symbol_file :: "string option"
  img_file :: "string option"
  kernel_img :: "string option"
  sigint_on :: bool
  sigvtalrm_on :: bool
  it_timer :: itimerval

definition uimage_base :: u32 where
  "uimage_base = UNMAPPED_BASE + DDR_BASE + 32 * 1024 * 1024"

definition boot_init :: boot_state where
  "boot_init = \<lparr>b_machine = machine_init, elf_entry = 0xbfc00000, elf_file = None,
     symbol_file = None, img_file = None, kernel_img = None, sigint_on = False,
     sigvtalrm_on = False,
     it_timer = \<lparr>it_value_sec = 0, it_value_usec = 0, it_interval_sec = 0, it_interval_usec = 0\<rparr>\<rparr>"

definition on_machine :: "(machine, 'a) op \<Rightarrow> (boot_state, 'a) op" where
  "on_machine = zoom b_machine (\<lambda>c s. s\<lparr>b_machine := c\<rparr>)"

text \<open>A computation outside the machine that may never end.\<close>

definition host_op :: "(fault + 'a) option \<Rightarrow> ('s, 'a) op" where
  "host_op r = (case r of None \<Rightarrow> raise Diverged | Some v \<Rightarrow> lift_op v)"

section \<open>Messages\<close>

definition print_out :: "string \<Rightarrow> (machine, unit) op" where
  "print_out msg = on_mon (mod_op (\<lambda>m. m\<lparr>mon_out := mon_out m @ [msg]\<rparr>))"

text \<open>The macro \<^verbatim>\<open>Log\<close> in \<^verbatim>\<open>src/monitor/monitor.c\<close>, by line and function.\<close>

definition Log :: "nat \<Rightarrow> string \<Rightarrow> string \<Rightarrow> (machine, unit) op" where
  "Log line func msg =
     bind_op (gets_op (\<lambda>s. work_mode (m_mon s))) (\<lambda>mode.
     if mode AND MODE_BATCH = 0
     then print_out ([CHR 0x1B] @ ''[1;34m[src/monitor/monitor.c,'' @ fmt_d (int line) @ '','' @ func
            @ ''] '' @ msg @ [CHR 0x1B] @ ''[0m'' @ newline)
     else ok ())"

definition help_lines :: "string \<Rightarrow> string list" where
  "help_lines file = map (\<lambda>l. l @ newline)
     [''Usage: '' @ file @ '' [OPTION...]'',
      '''',
      ''  -S, --symbol=FILE     use this file to produce symbols'',
      ''  -u, --uImage=FILE     specify uImage file'',
      ''  -D, --diff-with-qemu  run diff tests with qemu'',
      ''  -b, --batch           run on batch mode'',
      ''  -c, --commit          commit all executed instructions'',
      ''  -i, --image=FILE      run with this image file'',
      ''  -e, --elf=FILE        run with this elf file'',
      ''  -h, --help            print program help info'',
      '''',
      ''Report bugs to 141242068@smail.nju.edu.cn.'']"

definition print_help :: "string \<Rightarrow> (machine, unit) op" where
  "print_help file = for_op (help_lines file) print_out"

section \<open>Copying into the machine\<close>

text \<open>\<^verbatim>\<open>memcpy\<close> to a pointer that \<^verbatim>\<open>paddr_map\<close> returned, moved on by \<open>off\<close> bytes.\<close>

definition put_bytes :: "bytes \<Rightarrow> nat \<Rightarrow> u8 list \<Rightarrow> bytes" where
  "put_bytes m a bs = (\<lambda>i. if a \<le> i \<and> i < a + length bs then bs ! (i - a) else m i)"

definition copy_to :: "mem_ptr \<Rightarrow> nat \<Rightarrow> u8 list \<Rightarrow> (machine, unit) op" where
  "copy_to p off bs = (case p of
       Ddr_ptr i \<Rightarrow>
         if unat DDR_SIZE < i + off + length bs then raise (Ub Out_of_bounds)
         else on_ddr (mod_op (\<lambda>s. s\<lparr>ddr := put_bytes (ddr s) (i + off) bs\<rparr>))
     | Bram_ptr i \<Rightarrow>
         if unat BRAM_SIZE < i + off + length bs then raise (Ub Out_of_bounds)
         else on_bram (mod_op (\<lambda>s. s\<lparr>bram := put_bytes (bram s) (i + off) bs\<rparr>)))"

text \<open>Reading \<open>n\<close> bytes of a file buffer, as a little-endian number.\<close>

definition buf_field :: "u8 list \<Rightarrow> nat \<Rightarrow> nat \<Rightarrow> ('s, u32) op" where
  "buf_field buf off n =
     (if length buf < off + n then raise (Ub Out_of_bounds)
      else ok (load_le (\<lambda>i. buf ! i) off n))"

section \<open>Images\<close>

text \<open>
  The layout of \<^verbatim>\<open>Elf32_Ehdr\<close> and \<^verbatim>\<open>Elf32_Phdr\<close> in \<^verbatim>\<open><elf.h>\<close>: the offsets of the fields
  that are read.
\<close>

definition PT_LOAD :: u32 where "PT_LOAD = 1"

definition load_segment :: "u8 list \<Rightarrow> nat \<Rightarrow> (machine, unit) op" where
  "load_segment buf i =
     bind_op (buf_field buf 42 2) (\<lambda>e_phentsize.
     bind_op (buf_field buf 28 4) (\<lambda>e_phoff.
     seq_op (check_op (Ub Int_overflow) (i * unat e_phentsize < 2 ^ 31))
    (let ph = i * unat e_phentsize + unat e_phoff
     in bind_op (buf_field buf ph 4) (\<lambda>p_type.
        if p_type \<noteq> PT_LOAD then ok ()
        else
          bind_op (buf_field buf (ph + 8) 4) (\<lambda>p_vaddr.
          bind_op (buf_field buf (ph + 20) 4) (\<lambda>p_memsz.
          bind_op (paddr_map p_vaddr p_memsz) (\<lambda>p.
          bind_op (buf_field buf (ph + 4) 4) (\<lambda>p_offset.
          bind_op (buf_field buf (ph + 16) 4) (\<lambda>p_filesz.
          if length buf < unat p_offset + unat p_filesz then raise (Ub Out_of_bounds)
          else seq_op (copy_to p 0 (take (unat p_filesz) (drop (unat p_offset) buf)))
                 (copy_to p (unat p_filesz) (replicate (unat (p_memsz - p_filesz)) 0)))))))))))"

definition load_elf :: "host_files \<Rightarrow> (boot_state, unit) op" where
  "load_elf fs =
     bind_op (gets_op elf_file) (\<lambda>file.
     case file of None \<Rightarrow> raise Assert_abort
     | Some f \<Rightarrow>
         seq_op (on_machine (print_out (''The elf is '' @ f @ newline)))
        (seq_op (mod_op (\<lambda>s. s\<lparr>symbol_file := Some f\<rparr>))
        (bind_op (host_op (read_file fs f)) (\<lambda>contents.
         case contents of None \<Rightarrow> raise Assert_abort
         | Some buf \<Rightarrow>
             bind_op (buf_field buf 24 4) (\<lambda>e_entry.
             seq_op (mod_op (\<lambda>s. s\<lparr>elf_entry := e_entry\<rparr>))
            (bind_op (buf_field buf 0 4) (\<lambda>magic.
             seq_op (check_op Assert_abort (magic = 0x464c457f))
            (bind_op (buf_field buf 44 2) (\<lambda>e_phnum.
             on_machine (for_op [0..<unat e_phnum] (load_segment buf)))))))))))"

definition load_image :: "host_files \<Rightarrow> string option \<Rightarrow> u32 \<Rightarrow> (machine, unit) op" where
  "load_image fs img vaddr =
     (case img of None \<Rightarrow> raise Assert_abort
      | Some f \<Rightarrow>
          seq_op (Log 87 ''load_image'' (''The image is '' @ f @ newline))
         (bind_op (host_op (get_file_size fs f)) (\<lambda>sz.
          bind_op (host_op (read_file fs f)) (\<lambda>contents.
          bind_op (paddr_map vaddr (ucast sz)) (\<lambda>p.
          case contents of None \<Rightarrow> raise (Ub Null_pointer)
          | Some buf \<Rightarrow>
              if length buf < unat sz then raise (Ub Out_of_bounds)
              else copy_to p 0 (take (unat sz) buf))))))"

text \<open>Not called by the program.\<close>

definition assume_elf_file :: "(boot_state, unit) op" where
  "assume_elf_file =
     bind_op (gets_op img_file) (\<lambda>img.
     case img of None \<Rightarrow> raise (Ub Null_pointer)
     | Some f \<Rightarrow>
         if CHR ''.'' \<in> set f then
           let stem = rev (tl (dropWhile (\<lambda>c. c \<noteq> CHR ''.'') (rev f)))
           in mod_op (\<lambda>s. s\<lparr>img_file := Some stem, elf_file := Some stem\<rparr>)
         else ok ())"

section \<open>The command line\<close>

text \<open>
  The tables that \<^verbatim>\<open>getopt_long\<close> works with: name, whether an argument follows, and the result;
  and the short options, where a colon asks for an argument.
\<close>

definition long_options :: "(string \<times> bool \<times> char) list" where
  "long_options =
     [(''symbol'',         True, CHR ''S''),
      (''uImage'',         True, CHR ''u''),
      (''diff-with-qemu'', False, CHR ''D''),
      (''batch'',          False, CHR ''b''),
      (''commit'',         False, CHR ''c''),
      (''image'',          True, CHR ''i''),
      (''elf'',            True, CHR ''e''),
      (''help'',           False, CHR ''h'')]"

definition optstring :: string where "optstring = ''-bcDe:i:S:u:h''"

fun short_options :: "string \<Rightarrow> (char \<times> bool) list" where
  "short_options [] = []"
| "short_options [c] = [(c, False)]"
| "short_options (c # d # cs) =
     (if d = CHR '':'' then (c, True) # short_options cs else (c, False) # short_options (d # cs))"

definition or_mode :: "u32 \<Rightarrow> (boot_state, unit) op" where
  "or_mode extra = on_machine (on_mon (mod_op (\<lambda>m. m\<lparr>work_mode := mode_or (work_mode m) extra\<rparr>)))"

definition ignored :: "nat \<Rightarrow> string \<Rightarrow> (boot_state, unit) op" where
  "ignored line arg =
     on_machine (Log line ''parse_args'' (''too much argument '' @ [CHR 0x27] @ arg @ [CHR 0x27] @ '', ignored''))"

definition parse_option :: "host_files \<Rightarrow> string \<Rightarrow> char \<times> string \<Rightarrow> (boot_state, unit) op" where
  "parse_option fs file = (\<lambda>(c, optarg).
     if c = CHR ''S'' then mod_op (\<lambda>s. s\<lparr>symbol_file := Some optarg\<rparr>)
     else if c = CHR ''u'' then
       seq_op (mod_op (\<lambda>s. s\<lparr>kernel_img := Some optarg\<rparr>))
         (on_machine (load_image fs (Some optarg) uimage_base))
     else if c = CHR ''D'' then or_mode MODE_DIFF
     else if c = CHR ''b'' then or_mode MODE_BATCH
     else if c = CHR ''c'' then or_mode MODE_LOG
     else if c = CHR ''e'' then
       bind_op (gets_op elf_file) (\<lambda>f.
       if f \<noteq> None then ignored 149 optarg else mod_op (\<lambda>s. s\<lparr>elf_file := Some optarg\<rparr>))
     else if c = CHR ''i'' then
       bind_op (gets_op img_file) (\<lambda>f.
       if f \<noteq> None then ignored 155 optarg else mod_op (\<lambda>s. s\<lparr>img_file := Some optarg\<rparr>))
     else seq_op (on_machine (print_help file)) (raise (Exit 0)))"

definition parse_args :: "host_files \<Rightarrow> string \<Rightarrow> (char \<times> string) list \<Rightarrow> (boot_state, unit) op" where
  "parse_args fs file opts = for_op opts (parse_option fs file)"

section \<open>Initialisation\<close>

definition init_monitor :: "host_files \<Rightarrow> string \<Rightarrow> (char \<times> string) list \<Rightarrow> (boot_state, u32) op" where
  "init_monitor fs file opts =
     seq_op (parse_args fs file opts)
    (bind_op (gets_op elf_file) (\<lambda>elf.
     seq_op (if elf \<noteq> None then load_elf fs
             else bind_op (gets_op img_file) (\<lambda>img. on_machine (load_image fs img CPU_INIT_PC)))
    (bind_op (gets_op (\<lambda>s. work_mode (m_mon (b_machine s)))) (\<lambda>mode.
     seq_op (if mode AND MODE_BATCH = 0 then mod_op (\<lambda>s. s\<lparr>sigint_on := True\<rparr>) else ok ())
    (bind_op (gets_op elf_entry) (\<lambda>entry.
     seq_op (on_machine (on_bram (mod_op (bram_init entry))))
    (bind_op (on_machine (init_cpu (time_of_day fs) CPU_INIT_PC)) (\<lambda>_.
     gets_op (\<lambda>s. work_mode (m_mon (b_machine s)))))))))))"

record sdl_calls =
  ret_SDL_Init :: int
  ret_sigaction :: int
  ret_setitimer :: int

definition init_sdl :: "sdl_calls \<Rightarrow> (boot_state, unit) op" where
  "init_sdl calls =
     seq_op (check_op Assert_abort (ret_SDL_Init calls = 0))
    (seq_op (mod_op (\<lambda>s. if ret_sigaction calls = 0 then s\<lparr>sigvtalrm_on := True\<rparr> else s))
    (seq_op (check_op Assert_abort (ret_sigaction calls = 0))
    (seq_op (mod_op (\<lambda>s. s\<lparr>it_timer := \<lparr>it_value_sec = 0, it_value_usec = 1000000 div TIMER_HZ,
                               it_interval_sec = 0, it_interval_usec = 0\<rparr>\<rparr>))
    (check_op Assert_abort (ret_setitimer calls = 0)))))"

definition init_device :: "sdl_calls \<Rightarrow> (boot_state, unit) op" where
  "init_device calls = init_sdl calls"

definition main :: "host_files \<Rightarrow> sdl_calls \<Rightarrow> string \<Rightarrow> (char \<times> string) list \<Rightarrow> (boot_state, int) op" where
  "main fs calls file opts =
     seq_op (on_machine init_mmio)
    (bind_op (init_monitor fs file opts) (\<lambda>_.
     seq_op (init_device calls)
    (seq_op (on_machine (cpu_exec (- 1)))
    (ok 0))))"

end
