(* ===== verification/Runs.thy ===== *)
theory Runs
  imports System
begin

text \<open>
  What holds over whole runs of the emulator: the invariants of every state reachable through
  instructions, timer ticks and interrupts, the alignment of the program counter, what the
  trace prints, and how calls of \<open>cpu_exec\<close> compose.
\<close>

unbundle bit_operations_syntax

lemma queue_bounds:
  "serial_wf u \<Longrightarrow> length (rx_chars u) \<le> 1023" "keyboard_wf k \<Longrightarrow> length (kb_codes k) \<le> 1023"
  using rx.items_limit [of u] kbq.items_limit [of k]
  by (simp_all add: serial_wf_def rx_chars_def SERIAL_QUEUE_LEN_def keyboard_wf_def kb_codes_def
      KEYBOARD_QUEUE_LEN_def)

text \<open>What a tick does to the two input queues: it appends, as far as there is room.\<close>

lemma take_room: "length xs \<le> n \<Longrightarrow> \<exists>zs. take n (xs @ ys) = xs @ zs"
  by simp

lemma serial_enqueue_appends:
  assumes "serial_wf c"
  shows "\<exists>typed. rx_chars (serial_enqueue sdl ty key c) = rx_chars c @ typed"
  using assms rx_enqueue_loop(1) take_room [OF queue_bounds(1) [OF assms]]
  by (auto simp: serial_enqueue_def Let_def)

lemma keyboard_enqueue_appends:
  assumes "keyboard_wf k"
  shows "\<exists>codes. kb_codes (keyboard_enqueue sdl ty key k) = kb_codes k @ codes"
proof (cases "0 \<le> key \<and> key < sdlk_last sdl")
  case True
  then show ?thesis
    using keyboard_enqueue_codes [OF assms, of key sdl _ ty] take_room [OF queue_bounds(2) [OF assms]] by auto
next
  case False
  then have "keyboard_enqueue sdl ty key k = k" by (auto simp: keyboard_enqueue_def)
  then show ?thesis by simp
qed

definition input_appended :: "machine \<Rightarrow> machine \<Rightarrow> bool" where
  "input_appended s t \<longleftrightarrow> (\<exists>typed. rx_chars (m_uart t) = rx_chars (m_uart s) @ typed)
     \<and> (\<exists>codes. kb_codes (m_kb t) = kb_codes (m_kb s) @ codes)"

lemma tick_appends:
  assumes "serial_wf (m_uart s)" "keyboard_wf (m_kb s)" "device_update sdl polled stale ret s = (r, t)"
  shows "input_appended s t"
proof -
  have scr: "wp update_screen (\<lambda>_ _. True) (\<lambda>_ _. True) c" for c
    by (rule wp_mono [OF update_screen_wp]) simp_all
  have "wp (device_update sdl polled stale ret) (\<lambda>_. input_appended s) (\<lambda>_. input_appended s) s"
    using serial_enqueue_appends [OF assms(1)] keyboard_enqueue_appends [OF assms(2)]
    by (auto simp: device_update_def wp_simps on_vga_def on_mon_def Let_def input_appended_def
        intro!: wp_mono [OF scr] split: SDL_EventType.split)
  then show ?thesis using assms(3) by (auto simp: wp_def split: sum.splits)
qed

text \<open>
  C10: From a well-formed machine whose trace buffer is in use, whatever program runs and whenever
  signals arrive, the indices of the circular arrays stay in range and the trace buffer stays in
  use, and no pending input is ever overwritten or thrown away. An instruction takes characters only from the front of the receive queue of the
  UART and leaves the keyboard's queue alone, also when it fails; a tick, whatever event it
  finds, only appends to the two queues, full or not.
\<close>

theorem reachable_safe:
  assumes "reachable sdl s t" "machine_wf s" "traced s"
  shows "machine_wf t \<and> traced t
    \<and> (\<forall>r u. cpu_step t = (r, u) \<longrightarrow>
        (\<exists>taken. rx_chars (m_uart t) = taken @ rx_chars (m_uart u)) \<and> m_kb u = m_kb t)
    \<and> (\<forall>polled stale ret r u. device_update sdl polled stale ret t = (r, u) \<longrightarrow>
        (\<exists>typed. rx_chars (m_uart u) = rx_chars (m_uart t) @ typed)
        \<and> (\<exists>codes. kb_codes (m_kb u) = kb_codes (m_kb t) @ codes))"
proof -
  have t: "machine_wf t" "traced t"
    using reachable_wf [OF assms(1,2)] reachable_traced [OF assms(1,3)] by simp_all
  then have q: "serial_wf (m_uart t)" "keyboard_wf (m_kb t)" by (simp_all add: machine_wf_def)
  show ?thesis using t step_input [OF q(1)] tick_appends [OF q] by (auto simp: input_appended_def)
qed

lemma code_machine_wf: "machine_wf (code_machine w)"
  using machine_init_wf by (simp add: machine_wf_def code_machine_def machine_traced_def)

theorem reachable_safe_witness:
  "\<exists>t u. reachable sdl_example (code_machine 0) t \<and> nemu_state (m_mon t) = NEMU_STOP \<and> traced t
     \<and> snd (device_update sdl_example (Some \<lparr>ev_type = SDL_KEYDOWN, ev_key = 273\<rparr>)
          \<lparr>ev_type = SDL_OTHER, ev_key = 0\<rparr> 0 t) = u
     \<and> (\<exists>typed. rx_chars (m_uart u) = rx_chars (m_uart t) @ typed)"
proof -
  let ?s = "code_machine 0"
  let ?t = "?s\<lparr>m_mon := sigint_handler (m_mon ?s)\<rparr>"
  let ?u = "device_update sdl_example (Some \<lparr>ev_type = SDL_KEYDOWN, ev_key = 273\<rparr>)
    \<lparr>ev_type = SDL_OTHER, ev_key = 0\<rparr> 0 ?t"
  have "system_step sdl_example ?s ?t"
    by (rule system_step.sigint) (simp add: code_machine_def machine_traced_def machine_init_def)
  then have r: "reachable sdl_example ?s ?t"
    by (rule reachable.later [OF reachable.start])
  have st: "nemu_state (m_mon ?t) = NEMU_STOP" by (simp add: sigint_handler_def)
  note safe = reachable_safe [OF r code_machine_wf code_machine_traced(1)]
  have "\<exists>typed. rx_chars (m_uart (snd ?u)) = rx_chars (m_uart ?t) @ typed"
    using safe prod.collapse [of ?u, symmetric] by blast
  with safe r st show ?thesis by blast
qed

text \<open>
  No program, and no signal, ever changes a word of the two receive buffers of the
  Ethernet controller: the device never receives.
\<close>

lemma rx_buffers_constant:
  assumes "reachable sdl s t" "rx_buffer_word i"
  shows "emac_regs (m_mac t) i = emac_regs (m_mac s) i"
proof -
  have "rx_buffers (emac_regs (m_mac s)) s" by (simp add: rx_buffers_def same_rx_def)
  with reachable_rx [OF assms(1)] have "rx_buffers (emac_regs (m_mac s)) t" by blast
  with assms(2) show ?thesis by (simp add: rx_buffers_def same_rx_def)
qed

text \<open>
  C22: The program counter stays a multiple of four over every instruction but \<^verbatim>\<open>jalr\<close>
  (the handler at major opcode 27): the assertion at the head of the loop can fail only
  after that one, device accesses included.
\<close>

theorem pc_stays_aligned:
  assumes "unat (get_pc s) mod 4 = 0" "major w \<noteq> 27" "exec_inst w s = (Inr (), t)"
  shows "unat (get_pc t + 4) mod 4 = 0"
proof -
  have "pc_aligned_in t"
    by (rule leadsD [OF alignment.post_inst_relative [OF assms(2)] _ assms(3)])
      (simp add: pc_aligned_in_def assms(1))
  then show ?thesis
    using add_multiple [of 4 "get_pc t"] by (simp add: pc_aligned_in_def)
qed

theorem pc_stays_aligned_witness:
  "\<exists>t. exec_inst 0x0000000F (code_machine 0) = (Inr (), t) \<and> unat (get_pc t + 4) mod 4 = 0"
proof -
  have run: "exec_inst 0x0000000F (code_machine 0) = (Inr (), code_machine 0)"
  proof -
    have op: "inst_op 0x0000000F = 0xF" by (simp add: inst_op_def)
    have "(opcode_table ! 3) 0x0000000F = exec_fence 0x0000000F" by (subst opcode_dispatch) simp_all
    then show ?thesis by (simp add: exec_inst_def op check_op_def exec_fence_def ok_def)
  qed
  have "unat (get_pc (code_machine 0) + 4) mod 4 = 0"
  proof (rule pc_stays_aligned [OF _ _ run])
    show "unat (get_pc (code_machine 0)) mod 4 = 0" by (simp add: code_machine_pc)
    show "major 0x0000000F \<noteq> 27" by (simp add: major_def inst_op_def)
  qed
  with run show ?thesis by (intro exI [of _ "code_machine 0"] conjI)
qed

text \<open>An example run: \<^verbatim>\<open>lui\<close> in the machine of \<open>code_machine\<close>.\<close>

definition lui_machine :: machine where "lui_machine = code_machine (u_type 0x12345 7 0x37)"

lemma lui_isa: "isa_step (isa_of lui_machine) = Running (next_pc (set_reg 7 0x12345000 (isa_of lui_machine)))"
proof -
  have "decode (u_type 0x12345 7 0x37) = Lui 7 0x12345000" by (simp add: decode_def major_def)
  then show ?thesis by (simp add: lui_machine_def code_machine_step)
qed

lemma lui_step: "\<exists>t. cpu_step lui_machine = (Inr (), t)"
  using wp_result [OF wp_step [of lui_machine]] lui_isa code_machine_traced(1) by (auto simp: lui_machine_def)

lemma lui_exec: "\<exists>t. cpu_exec 1 lui_machine = (Inr (), t) \<and> nemu_state (m_mon t) = NEMU_STOP"
proof -
  let ?s = "lui_machine\<lparr>m_mon := (m_mon lui_machine)\<lparr>nemu_state := NEMU_RUNNING\<rparr>\<rparr>"
  have "cpu_exec 1 lui_machine = cpu_loop 1 ?s"
    by (simp add: cpu_exec_def op_simps on_mon_def lui_machine_def code_machine_def machine_traced_def
        machine_init_def)
  moreover have "isa_run 1 (isa_of ?s) = Running (next_pc (set_reg 7 0x12345000 (isa_of lui_machine)))"
    using lui_isa by simp
  moreover have "traced ?s" using code_machine_traced(1) by (simp add: lui_machine_def)
  ultimately show ?thesis
    using wp_result [OF wp_loop [of ?s 1]] by (auto simp: loop_agrees_def)
qed

text \<open>
  The line that the trace prints for an instruction starts with the text left over from
  the instruction before it: the buffer is flushed before the instruction is executed.
\<close>

lemma trace_line:
  assumes "tracer_at tx (m_trace s)" "length tx \<le> 40" "cpu_step s = (Inr (), t)"
    and "unat (get_pc s) mod 4 = 0" "0x1000 \<le> get_pc s" "in_ram (phys_addr (get_pc s)) 4"
  shows "\<exists>r. trace_out (m_trace t) = trace_out (m_trace s) @ [newline, newline,
      tx @ fmt_8x (get_pc s) @ '':    '' @ fmt_08x (load_le (phys s) (phys_addr (get_pc s)) 4)
        @ ''    '' @ newline] @ r
    \<and> set r \<subseteq> {newline}"
proof -
  define w where "w = load_le (phys s) (phys_addr (get_pc s)) 4"
  define ls where "ls = trace_out (m_trace s) @ [newline, newline,
      tx @ fmt_8x (get_pc s) @ '':    '' @ fmt_08x w @ ''    '' @ newline]"
  have "wp (seq_op (exec_inst v) (cpu_finish v)) (\<lambda>_. out_after ls) (\<lambda>_ _. True) u"
    if "v = w \<and> fetched s tx v u" for v u
  proof -
    have "out_before ls u" using that by (simp add: fetched_def out_before_def ls_def)
    moreover have "leads (out_after ls) (out_after ls) (cpu_finish v)"
      by (rule leadsI) (simp add: cpu_finish_def print_registers_def wp_simps on_mon_def
          out_after_def)
    ultimately show ?thesis
      using leads_comp_seq [OF trace_text.post_inst, of ls "out_after ls" "cpu_finish v"]
      by (simp add: leads_or_def)
  qed
  then have "wp cpu_step (\<lambda>_. out_after ls) (\<lambda>_ _. True) s"
    unfolding cpu_step_phases wp_bind
    by (intro wp_mono [OF wp_fetch_ram [OF assms(1,2,4-6)]]) (simp_all flip: w_def)
  with assms(3) have "out_after ls t" by (simp add: wp_def)
  then show ?thesis by (simp add: out_after_def ls_def w_def)
qed

lemma cpu_loop_running:
  "not_stopped s \<Longrightarrow> cpu_loop m s = (Inr (), t) \<Longrightarrow> nemu_state (m_mon t) = NEMU_STOP \<Longrightarrow>
    cpu_loop (m + n) s = cpu_loop n (t\<lparr>m_mon := (m_mon t)\<lparr>nemu_state := NEMU_RUNNING\<rparr>\<rparr>)"
proof (induction m arbitrary: s)
  case 0
  then have run: "nemu_state (m_mon s) = NEMU_RUNNING" and t: "t = s\<lparr>m_mon := (m_mon s)\<lparr>nemu_state := NEMU_STOP\<rparr>\<rparr>"
    by (auto simp: on_mon_def op_simps not_stopped_def split: if_splits)
  have "(m_mon s)\<lparr>nemu_state := NEMU_RUNNING\<rparr> = m_mon s" using run by (cases "m_mon s") simp
  then show ?case by (simp add: t)
next
  case (Suc m)
  obtain u where step: "cpu_step s = (Inr (), u)"
    using Suc.prems(2) by (auto simp: op_simps split: prod.splits sum.splits)
  then have u: "not_stopped u" using leadsD [OF going.post_step Suc.prems(1)] by simp
  have "nemu_state (m_mon u) = NEMU_RUNNING"
    using Suc.prems(2,3) step u by (auto simp: op_simps not_stopped_def split: if_splits)
  then show ?case
    using Suc.IH [OF u] Suc.prems(2,3) step by (simp add: op_simps)
qed

text \<open>
  Running \<open>m + n\<close> instructions is running \<open>m\<close> and then \<open>n\<close>, whenever the first call used up
  its count.
\<close>

lemma cpu_exec_compose:
  assumes "cpu_exec m s = (Inr (), t)" "nemu_state (m_mon t) = NEMU_STOP"
    and "unat m + unat n < 2 ^ 64"
  shows "cpu_exec (m + n) s = cpu_exec n t"
proof (cases "nemu_state (m_mon s) = NEMU_END")
  case True
  with assms(1,2) show ?thesis by (auto simp: cpu_exec_def op_simps on_mon_def)
next
  case False
  have sum: "unat (m + n) = unat m + unat n" using assms(3) by (simp add: unat_word_ariths)
  let ?s = "s\<lparr>m_mon := (m_mon s)\<lparr>nemu_state := NEMU_RUNNING\<rparr>\<rparr>"
  from assms(1) False have "cpu_loop (unat m) ?s = (Inr (), t)"
    by (simp add: cpu_exec_def op_simps on_mon_def)
  then have "cpu_loop (unat m + unat n) ?s
      = cpu_loop (unat n) (t\<lparr>m_mon := (m_mon t)\<lparr>nemu_state := NEMU_RUNNING\<rparr>\<rparr>)"
    by (intro cpu_loop_running assms(2)) (simp_all add: not_stopped_def)
  with False assms(2) show ?thesis by (simp add: cpu_exec_def op_simps on_mon_def sum)
qed

end
