(* ===== verification/Startup.thy ===== *)
theory Startup
  imports Boot Runs
begin

text \<open>
  What start-up achieves: an image given on the command line is what the processor fetches, an
  ELF file's segments are placed where its headers say, the options combine as documented, and
  what happens on the first instruction.
\<close>

unbundle bit_operations_syntax

section \<open>An image in block RAM\<close>

lemma on_machine_run: "on_machine m s = (fst (m (b_machine s)), s\<lparr>b_machine := snd (m (b_machine s))\<rparr>)"
  by (simp add: on_machine_def op_simps)

text \<open>A message changes nothing but the output.\<close>

definition printed :: "machine \<Rightarrow> machine \<Rightarrow> bool" where
  "printed s t \<longleftrightarrow> (\<exists>ls. t = s\<lparr>m_mon := (m_mon s)\<lparr>mon_out := mon_out (m_mon s) @ ls\<rparr>\<rparr>)"

lemma printed_refl: "printed s s"
proof -
  have "s = s\<lparr>m_mon := (m_mon s)\<lparr>mon_out := mon_out (m_mon s) @ []\<rparr>\<rparr>" by simp
  then show ?thesis unfolding printed_def ..
qed

lemma Log_run: "\<exists>t. Log line func msg s = (Inr (), t) \<and> printed s t"
  using printed_refl [of s]
  by (auto simp: Log_def print_out_def op_simps on_mon_def printed_def)

lemma printedD:
  assumes "printed s t"
  shows "m_cpu t = m_cpu s" "m_ddr t = m_ddr s" "m_bram t = m_bram s" "m_trace t = m_trace s"
    "work_mode (m_mon t) = work_mode (m_mon s)" "nemu_state (m_mon t) = nemu_state (m_mon s)"
  using assms by (auto simp: printed_def)

lemma paddr_map_image:
  assumes "n \<le> 0x100000"
  shows "\<exists>t. paddr_map CPU_INIT_PC (word_of_nat n) s = (Inr (Bram_ptr 0), s\<lparr>m_bram := t\<rparr>)
    \<and> bram t = bram (m_bram s) \<and> bram_mapped t"
proof -
  have un: "is_unmapped CPU_INIT_PC" "iomap CPU_INIT_PC = 0x1fc00000"
    by (simp_all add: is_unmapped_def iomap_def CPU_INIT_PC_def UNMAPPED_BASE_def UNMAPPED_END_def)
  have idx: "find_region 0x1fc00000 = 2" by (simp add: find_region_eq)
  have n: "(word_of_nat n :: u32) \<le> 0x100000"
    using assms by (simp add: word_le_nat_alt unat_of_nat take_bit_nat_eq_self)
  show ?thesis
    using n by (auto simp: paddr_map_def un idx op_simps Let_def mmap_table_def bram_region_def
        bram_map_def check_bram_def on_bram_def)
qed

lemma load_image_boot:
  assumes "file_is fs f c" "length c \<le> 0x100000"
  shows "\<exists>t. load_image fs (Some f) CPU_INIT_PC s = (Inr (), t)
    \<and> bram (m_bram t) = put_bytes (bram (m_bram s)) 0 c \<and> bram_mapped (m_bram t)
    \<and> work_mode (m_mon t) = work_mode (m_mon s) \<and> m_trace t = m_trace s"
proof -
  obtain u where u: "Log 87 ''load_image'' (''The image is '' @ f @ newline) s = (Inr (), u)" "printed s u"
    using Log_run by blast
  have "ucast (word_of_nat (length c) :: u64) = (word_of_nat (length c) :: u32)"
    using assms(2) by (simp add: word_unat_eq_iff unat_of_nat take_bit_nat_eq_self unsigned_ucast_eq)
  moreover obtain v where v: "paddr_map CPU_INIT_PC (word_of_nat (length c)) u = (Inr (Bram_ptr 0), u\<lparr>m_bram := v\<rparr>)"
    "bram v = bram (m_bram u)" "bram_mapped v"
    using paddr_map_image [OF assms(2)] by blast
  moreover have "unat (word_of_nat (length c) :: u64) = length c"
    using assms(2) by (simp add: unat_of_nat take_bit_nat_eq_self)
  ultimately show ?thesis
    using assms(2) u(1) printedD [OF u(2)] read_whole_file [OF assms(1)]
    by (simp add: load_image_def op_simps host_op_def copy_to_def on_bram_def)
qed

lemma load_le_shift:
  "(\<And>i. i < n \<Longrightarrow> m (a + i) = m' (b + i)) \<Longrightarrow> load_le m a n = load_le m' b n"
proof (induction n arbitrary: a b)
  case (Suc n)
  have "load_le m (Suc a) n = load_le m' (Suc b) n"
    using Suc.prems [of "Suc i" for i] by (intro Suc.IH) simp
  then show ?case using Suc.prems [of 0] by simp
qed simp

text \<open>Reading an image back as the processor does.\<close>

lemma fetch_image:
  assumes "bram (m_bram t) = put_bytes m 0 c" "a + 4 \<le> length c" "length c \<le> 0x100000"
  shows "instr_fetch (CPU_INIT_PC + word_of_nat a) t = (Inr (load_le (\<lambda>i. c ! i) a 4), t)"
proof -
  let ?a = "CPU_INIT_PC + word_of_nat a"
  have ua: "unat ?a = 0xbfc00000 + a"
    using assms(2,3) by (simp add: CPU_INIT_PC_def unat_word_ariths unat_of_nat take_bit_nat_eq_self)
  then have pa: "unat (prot_addr ?a) = 0x1fc00000 + a"
  proof -
    have "(0xbfc00000 + a) mod 0x20000000 = (0x1fc00000 + a + 5 * 0x20000000) mod 0x20000000" by simp
    also have "\<dots> = 0x1fc00000 + a"
      using assms(2,3) by (simp only: mod_mult_self1) (simp add: mod_less)
    finally show ?thesis using assms(2,3) by (simp add: unat_prot_addr ua)
  qed
  have "load_le (phys t) (0x1fc00000 + a) 4 = load_le (\<lambda>i. c ! i) a 4"
  proof (rule load_le_shift)
    fix i :: nat assume "i < 4"
    then show "phys t (0x1fc00000 + a + i) = c ! (a + i)"
      using assms by (simp add: phys_def put_bytes_def)
  qed
  then show ?thesis
    using load_mem_ram [of 4 ?a] assms(2,3) ua pa
    by (simp add: instr_fetch_def in_ram_def word_le_nat_alt)
qed

lemma image_monitor:
  assumes "file_is fs f c" "length c \<le> 0x100000"
  shows "\<exists>t. init_monitor fs argv0 [(CHR ''i'', f)] boot_init = (Inr MODE_GDB, t)
    \<and> get_pc (b_machine t) = CPU_INIT_PC \<and> sigint_on t
    \<and> (\<forall>a. a + 4 \<le> length c \<longrightarrow> instr_fetch (CPU_INIT_PC + word_of_nat a) (b_machine t)
          = (Inr (load_le (\<lambda>i. c ! i) a 4), b_machine t))"
proof -
  let ?s = "machine_init"
  obtain u where u: "load_image fs (Some f) CPU_INIT_PC ?s = (Inr (), u)"
    "bram (m_bram u) = put_bytes (bram (m_bram ?s)) 0 c" "bram_mapped (m_bram u)"
    "work_mode (m_mon u) = MODE_GDB"
    using load_image_boot [OF assms, of ?s] by (auto simp: machine_init_def)
  let ?m = "set_pc CPU_INIT_PC (u\<lparr>nemu_start_time := time_us (time_of_day fs) - nemu_start_time u\<rparr>)"
  let ?t = "boot_init\<lparr>img_file := Some f, b_machine := ?m, sigint_on := True\<rparr>"
  have run: "init_monitor fs argv0 [(CHR ''i'', f)] boot_init = (Inr MODE_GDB, ?t)"
    using u by (simp add: init_monitor_def parse_args_def parse_option_def op_simps on_machine_run
        boot_init_def on_bram_def bram_init_def init_cpu_run)
  have "instr_fetch (CPU_INIT_PC + word_of_nat a) ?m = (Inr (load_le (\<lambda>i. c ! i) a 4), ?m)"
    if "a + 4 \<le> length c" for a
    using fetch_image [OF _ that assms(2), of ?m] u(2) by (simp add: set_pc_def)
  then show ?thesis using run by (auto simp: get_pc_def set_pc_def)
qed

text \<open>
  C24: Started with \<^verbatim>\<open>-i FILE\<close>, for a file of at most one megabyte that the system reads whole,
  the monitor leaves the machine ready to run it: the program counter is at the reset vector,
  every word fetched from there on is the file's word, \<^verbatim>\<open>bram_init\<close> has not overwritten it,
  and the interrupt handler is installed.
\<close>

theorem image_boot:
  assumes "file_is fs f c" "length c \<le> 0x100000"
  shows "\<exists>t. init_monitor fs argv0 [(CHR ''i'', f)] boot_init = (Inr MODE_GDB, t)
    \<and> get_pc (b_machine t) = CPU_INIT_PC \<and> sigint_on t
    \<and> (\<forall>a. a + 4 \<le> length c \<longrightarrow> instr_fetch (CPU_INIT_PC + word_of_nat a) (b_machine t)
          = (Inr (load_le (\<lambda>i. c ! i) a 4), b_machine t))"
  by (rule image_monitor [OF assms])

definition small_image :: "u8 list" where "small_image = [0xb7, 0x53, 0x34, 0x12]"

definition image_host :: host_files where
  "image_host = host_with ''a.bin'' 4 [small_image]"

lemma image_host_file: "file_is image_host ''a.bin'' small_image"
  by (simp add: file_is_def image_host_def host_with_def small_image_def)

theorem image_boot_witness:
  "\<exists>t. init_monitor image_host ''nemu'' [(CHR ''i'', ''a.bin'')] boot_init = (Inr MODE_GDB, t)
     \<and> instr_fetch CPU_INIT_PC (b_machine t) = (Inr 0x123453b7, b_machine t)"
proof -
  obtain t where t: "init_monitor image_host ''nemu'' [(CHR ''i'', ''a.bin'')] boot_init = (Inr MODE_GDB, t)"
    and "\<forall>a. a + 4 \<le> length small_image \<longrightarrow> instr_fetch (CPU_INIT_PC + word_of_nat a) (b_machine t)
          = (Inr (load_le (\<lambda>i. small_image ! i) a 4), b_machine t)"
    using image_boot [OF image_host_file, of "''nemu''"] by (auto simp: small_image_def)
  then have "instr_fetch (CPU_INIT_PC + word_of_nat 0) (b_machine t)
      = (Inr (load_le (\<lambda>i. small_image ! i) 0 4), b_machine t)"
    by (simp add: small_image_def)
  moreover have "load_le (\<lambda>i. small_image ! i) 0 4 = 0x123453b7"
    by code_simp
  ultimately show ?thesis using t by auto
qed

section \<open>The boot stub\<close>

text \<open>
  Without an image at the reset vector (after \<^verbatim>\<open>-e FILE\<close> with segments in DDR) the machine
  starts on the words of \<^verbatim>\<open>bram_init\<close>, which are MIPS instructions: the first one fails the
  decoder's assertion unless bits 16 and 17 of the entry point are both set.
\<close>

lemma boot_stub_not_riscv:
  assumes "\<not> bram_mapped (m_bram s)" "\<not> (bit entry 16 \<and> bit entry 17)"
    and "t = set_pc CPU_INIT_PC (s\<lparr>m_bram := bram_init entry (m_bram s)\<rparr>)"
  shows "instr_fetch (get_pc t) t = (Inr (0x3c080000 OR drop_bit 16 entry), t)
    \<and> exec_inst (0x3c080000 OR drop_bit 16 entry) t = (Inl Assert_abort, t)"
proof
  let ?w = "0x3c080000 OR drop_bit 16 entry"
  have "load_le (bram (m_bram t)) 0 4 = ?w"
    using assms(1,3) by (simp add: bram_init_def Let_def set_pc_def load_store_other load_store_same
        take_bit_word_eq_self)
  moreover have "load_mem CPU_INIT_PC 4 t = (Inr (load_le (bram (m_bram t)) 0 4), t)"
    by (subst load_mem_bram) (simp_all add: CPU_INIT_PC_def unat_prot_addr)
  ultimately show "instr_fetch (get_pc t) t = (Inr ?w, t)"
    by (simp add: instr_fetch_def assms(3) get_pc_def set_pc_def)
  have "inst_op ?w AND 0x3 \<noteq> 0x3"
  proof
    assume eq: "inst_op ?w AND 0x3 = 0x3"
    have "bit (inst_op ?w AND 0x3) 0 = bit entry 16" "bit (inst_op ?w AND 0x3) 1 = bit entry 17"
      by (simp_all add: inst_op_def bit_simps)
    then show False using assms(2) unfolding eq by simp
  qed
  then show "exec_inst ?w t = (Inl Assert_abort, t)"
    by (simp add: exec_inst_def op_simps)
qed

section \<open>The command line\<close>

text \<open>The options that neither print nor load anything, and what they contribute.\<close>

definition plain_option :: "char \<Rightarrow> bool" where
  "plain_option c \<longleftrightarrow> c \<in> set ''SDbcei''"

definition mode_of :: "char \<Rightarrow> u32" where
  "mode_of c = (if c = CHR ''D'' then MODE_DIFF else if c = CHR ''b'' then MODE_BATCH
     else if c = CHR ''c'' then MODE_LOG else 0)"

text \<open>The argument of the first option \<open>c\<close>, of the last one.\<close>

definition first_arg :: "char \<Rightarrow> (char \<times> string) list \<Rightarrow> string option" where
  "first_arg c opts = map_of opts c"

definition last_arg :: "char \<Rightarrow> (char \<times> string) list \<Rightarrow> string option" where
  "last_arg c opts = map_of (rev opts) c"

definition or_else :: "'a option \<Rightarrow> 'a option \<Rightarrow> 'a option" where
  "or_else x y = (case x of None \<Rightarrow> y | Some _ \<Rightarrow> x)"

lemma or_else_simps [simp]: "or_else None y = y" "or_else (Some a) y = Some a" "or_else x None = x"
  by (auto simp: or_else_def split: option.split)

lemma ignored_run:
  "\<exists>m. ignored line arg s = (Inr (), s\<lparr>b_machine := m\<rparr>) \<and> printed (b_machine s) m"
proof -
  obtain m where "Log line ''parse_args'' (''too much argument '' @ [CHR 0x27] @ arg @ [CHR 0x27]
      @ '', ignored'') (b_machine s) = (Inr (), m)" "printed (b_machine s) m"
    using Log_run by blast
  then show ?thesis by (auto simp: ignored_def on_machine_run)
qed

lemma parse_plain_option:
  assumes "plain_option c"
  shows "\<exists>t. parse_option fs argv0 (c, arg) s = (Inr (), t)
    \<and> work_mode (m_mon (b_machine t)) = work_mode (m_mon (b_machine s)) OR mode_of c
    \<and> elf_file t = or_else (elf_file s) (if c = CHR ''e'' then Some arg else None)
    \<and> img_file t = or_else (img_file s) (if c = CHR ''i'' then Some arg else None)
    \<and> symbol_file t = (if c = CHR ''S'' then Some arg else symbol_file s)"
proof -
  obtain m where "ignored 149 arg s = (Inr (), s\<lparr>b_machine := m\<rparr>)" "printed (b_machine s) m"
    using ignored_run by blast
  moreover obtain m' where "ignored 155 arg s = (Inr (), s\<lparr>b_machine := m'\<rparr>)" "printed (b_machine s) m'"
    using ignored_run by blast
  ultimately show ?thesis
    using assms by (auto simp: plain_option_def parse_option_def mode_of_def op_simps or_mode_def mode_or_def
        on_machine_run on_mon_def printedD or_else_def split: option.split)
qed

text \<open>
  C37: For options other than \<^verbatim>\<open>-u\<close>, \<^verbatim>\<open>-h\<close> and unknown ones, \<^verbatim>\<open>parse_args\<close> returns, the
  work mode collects the bits of every mode option, the first \<^verbatim>\<open>-e\<close> and the first \<^verbatim>\<open>-i\<close> win,
  and the last \<^verbatim>\<open>-S\<close> wins.
\<close>

theorem command_line:
  assumes "\<forall>(c, arg) \<in> set opts. plain_option c"
  shows "\<exists>t. parse_args fs argv0 opts s = (Inr (), t)
    \<and> work_mode (m_mon (b_machine t))
        = fold (\<lambda>(c, arg) mode. mode OR mode_of c) opts (work_mode (m_mon (b_machine s)))
    \<and> elf_file t = or_else (elf_file s) (first_arg CHR ''e'' opts)
    \<and> img_file t = or_else (img_file s) (first_arg CHR ''i'' opts)
    \<and> symbol_file t = or_else (last_arg CHR ''S'' opts) (symbol_file s)"
  using assms
proof (induction opts arbitrary: s)
  case Nil
  then show ?case by (simp add: parse_args_def op_simps first_arg_def last_arg_def)
next
  case (Cons o1 opts)
  obtain c arg where o1: "o1 = (c, arg)" by (cases o1)
  with Cons.prems have plain: "plain_option c" by simp
  obtain u where u: "parse_option fs argv0 (c, arg) s = (Inr (), u)"
    "work_mode (m_mon (b_machine u)) = work_mode (m_mon (b_machine s)) OR mode_of c"
    "elf_file u = or_else (elf_file s) (if c = CHR ''e'' then Some arg else None)"
    "img_file u = or_else (img_file s) (if c = CHR ''i'' then Some arg else None)"
    "symbol_file u = (if c = CHR ''S'' then Some arg else symbol_file s)"
    using parse_plain_option [OF plain] by blast
  obtain t where t: "parse_args fs argv0 opts u = (Inr (), t)"
    "work_mode (m_mon (b_machine t))
        = fold (\<lambda>(c, arg) mode. mode OR mode_of c) opts (work_mode (m_mon (b_machine u)))"
    "elf_file t = or_else (elf_file u) (first_arg CHR ''e'' opts)"
    "img_file t = or_else (img_file u) (first_arg CHR ''i'' opts)"
    "symbol_file t = or_else (last_arg CHR ''S'' opts) (symbol_file u)"
    using Cons.IH [of u] Cons.prems by auto
  have "parse_args fs argv0 (o1 # opts) s = (Inr (), t)"
    using u(1) t(1) by (simp add: parse_args_def op_simps o1)
  moreover have "or_else (or_else x (if c = k then Some arg else None)) (first_arg k opts)
      = or_else x (first_arg k (o1 # opts))" for x k
    by (auto simp: or_else_def first_arg_def o1 split: option.split)
  moreover have "or_else (last_arg CHR ''S'' opts) (if c = CHR ''S'' then Some arg else symbol_file s)
      = or_else (last_arg CHR ''S'' (o1 # opts)) (symbol_file s)"
    by (auto simp: or_else_def last_arg_def o1 map_add_def split: option.split)
  ultimately show ?case
    using t u by (simp add: o1)
qed

theorem command_line_witness:
  "\<exists>t. parse_args image_host ''nemu'' [(CHR ''e'', ''a''), (CHR ''b'', ''''), (CHR ''e'', ''c'')] boot_init
     = (Inr (), t) \<and> elf_file t = Some ''a'' \<and> work_mode (m_mon (b_machine t)) = 1"
proof -
  let ?o = "[(CHR ''e'', ''a''), (CHR ''b'', ''''), (CHR ''e'', ''c'')]"
  have "\<forall>(c, arg) \<in> set ?o. plain_option c" by (simp add: plain_option_def)
  from command_line [OF this, of image_host "''nemu''" boot_init] show ?thesis
    by (auto simp: first_arg_def boot_init_def machine_init_def mode_of_def)
qed

section \<open>The first instruction\<close>

definition not_started :: "machine \<Rightarrow> bool" where
  "not_started s \<longleftrightarrow> asm_buf_p (m_trace s) = None \<and> nemu_state (m_mon s) \<noteq> NEMU_END"

lemma not_started_frame:
  "not_started s \<Longrightarrow> m_trace t = m_trace s \<Longrightarrow> nemu_state (m_mon t) = nemu_state (m_mon s) \<Longrightarrow> not_started t"
  by (simp add: not_started_def)

lemma keeps_on_machine: "keeps I m \<Longrightarrow> keeps (\<lambda>s. I (b_machine s)) (on_machine m)"
  by (simp add: keeps_def on_machine_run)

lemma not_started_output:
  "keeps not_started (print_out msg)" "keeps not_started (Log line func msg)"
  "keeps not_started (print_help file)"
proof -
  show p: "keeps not_started (print_out msg)" for msg
    by (simp add: keeps_def print_out_def on_mon_def op_simps not_started_def)
  then show "keeps not_started (Log line func msg)" "keeps not_started (print_help file)"
    unfolding Log_def print_help_def by (auto intro!: keeps_rules)
qed

lemma paddr_map_region:
  "paddr_map a n = seq_op (check_op Assert_abort (is_unmapped a))
     (case region_at (iomap a) of None \<Rightarrow> raise Assert_abort
      | Some r \<Rightarrow> (case region_map r of None \<Rightarrow> raise Assert_abort
          | Some h \<Rightarrow> h (iomap a - region_start r) n))"
  by (simp add: paddr_map_def region_at_def Let_def check_op_def seq_op_def)

lemma not_started_map: "keeps not_started (paddr_map a n)"
proof -
  have "keeps not_started (on_ddr (ddr_map b n))" "keeps not_started (on_bram (bram_map b n))" for b
    by (simp_all add: keeps_def on_defs op_simps not_started_def)
  then show ?thesis
    unfolding paddr_map_region
    by (cases rule: region_at_cases [of "iomap a"])
      (auto simp: region_defs intro!: keeps_rules)
qed

lemma not_started_copy: "keeps not_started (copy_to p off bs)"
  by (auto simp: copy_to_def on_defs not_started_def keeps_def op_simps split: mem_ptr.split)

lemma keeps_host [keeps_rules]: "keeps I (host_op r)"
  by (auto simp: host_op_def intro: keeps_rules split: option.split)

lemma keeps_field [keeps_rules]: "keeps I (buf_field buf off n)"
  by (auto simp: buf_field_def intro: keeps_rules)

lemma not_started_image: "keeps not_started (load_image fs img a)"
  by (auto simp: load_image_def intro!: keeps_rules not_started_output not_started_map not_started_copy
      split: option.split)

lemma not_started_segment: "keeps not_started (load_segment buf i)"
  unfolding load_segment_def Let_def
  by (intro keeps_rules not_started_map not_started_copy)

lemma not_started_parse: "keeps (\<lambda>s. not_started (b_machine s)) (parse_option fs argv0 opt)"
proof -
  have mode: "keeps (\<lambda>s. not_started (b_machine s)) (or_mode m)" for m
    unfolding or_mode_def
    by (rule keeps_on_machine) (simp add: keeps_def on_mon_def op_simps not_started_def)
  show ?thesis
    unfolding parse_option_def split_def ignored_def
    by (intro keeps_rules mode keeps_on_machine not_started_image not_started_output) simp_all
qed

lemma not_started_elf: "keeps (\<lambda>s. not_started (b_machine s)) (load_elf fs)"
  unfolding load_elf_def
  by (auto intro!: keeps_rules keeps_on_machine not_started_output not_started_segment split: option.split)

lemma not_started_monitor: "keeps (\<lambda>s. not_started (b_machine s)) (init_monitor fs argv0 opts)"
proof -
  have "keeps not_started (on_bram (mod_op (bram_init e)))" "keeps not_started (init_cpu now a)" for e now a
    by (simp_all add: keeps_def on_bram_def op_simps init_cpu_run set_pc_def not_started_def)
  then show ?thesis
    unfolding init_monitor_def parse_args_def
    by (intro keeps_rules keeps_on_machine not_started_parse not_started_elf not_started_image) simp_all
qed

lemma cpu_exec_null:
  assumes "not_started s" "0 < n"
  shows "\<exists>t. cpu_exec n s = (Inl (Ub Null_pointer), t)"
proof -
  from assms(2) obtain k where "unat n = Suc k"
    by (metis gr0_implies_Suc unat_gt_0 word_neq_0_conv)
  then show ?thesis
    using assms(1)
    by (simp add: not_started_def cpu_exec_def cpu_step_def op_simps on_mon_def on_iq_def trace_def
        on_trace_def trace_append_null)
qed

text \<open>
  C23: As built by the Makefile, with the tracer compiled in, the emulator never gets past its
  first instruction, whatever the command line, the files and the display: \<^verbatim>\<open>main\<close> does not
  return, and when start-up succeeds the run ends in the tracer's null pointer.
\<close>

theorem main_stops:
  shows "\<exists>e. fst (main fs calls argv0 opts boot_init) = Inl e
    \<and> (\<forall>mode t. init_monitor fs argv0 opts boot_init = (Inr mode, t)
        \<and> ret_SDL_Init calls = 0 \<and> ret_sigaction calls = 0 \<and> ret_setitimer calls = 0
        \<longrightarrow> e = Ub Null_pointer)"
proof -
  have "not_started (b_machine boot_init)"
    by (simp add: not_started_def boot_init_def machine_init_def tracer_init_def)
  then have kept: "not_started (b_machine t)" if "init_monitor fs argv0 opts boot_init = (r, t)" for r t
    using keepsD [OF not_started_monitor _ that] by simp
  show ?thesis
  proof (cases "init_monitor fs argv0 opts boot_init")
    case (Pair r t)
    obtain v where "cpu_exec (- 1) (b_machine t) = (Inl (Ub Null_pointer), v)"
      using cpu_exec_null [OF kept [OF Pair], of "- 1"] by (auto simp: word_greater_zero_iff)
    then show ?thesis
      using Pair by (cases r) (auto simp: main_def op_simps on_machine_run init_mmio_run init_device_def init_sdl_def)
  qed
qed
text \<open>On a host where \<^verbatim>\<open>-i a.bin\<close> starts up, the run stops in the tracer.\<close>

theorem main_stops_witness:
  "\<exists>t. main image_host \<lparr>ret_SDL_Init = 0, ret_sigaction = 0, ret_setitimer = 0\<rparr> ''nemu''
     [(CHR ''i'', ''a.bin'')] boot_init = (Inl (Ub Null_pointer), t)"
proof -
  let ?calls = "\<lparr>ret_SDL_Init = 0, ret_sigaction = 0, ret_setitimer = 0\<rparr>"
  obtain t where "init_monitor image_host ''nemu'' [(CHR ''i'', ''a.bin'')] boot_init = (Inr MODE_GDB, t)"
    using image_monitor [OF image_host_file] by (auto simp: small_image_def)
  then have "fst (main image_host ?calls ''nemu'' [(CHR ''i'', ''a.bin'')] boot_init) = Inl (Ub Null_pointer)"
    using main_stops [of image_host ?calls "''nemu''" "[(CHR ''i'', ''a.bin'')]"] by auto
  then show ?thesis by (metis prod.collapse)
qed

section \<open>Segments of an ELF file\<close>

text \<open>
  The program header at index \<open>i\<close> of a file, as \<open>load_segment\<close> reads it, and the memory that
  the header asks for: the file's bytes, then zeros up to the segment's size.
\<close>

definition buf_word :: "u8 list \<Rightarrow> nat \<Rightarrow> nat \<Rightarrow> u32" where
  "buf_word buf off n = load_le (\<lambda>i. buf ! i) off n"

definition header_at :: "u8 list \<Rightarrow> nat \<Rightarrow> nat" where
  "header_at buf i = i * unat (buf_word buf 42 2) + unat (buf_word buf 28 4)"

definition placed :: "bytes \<Rightarrow> nat \<Rightarrow> u8 list \<Rightarrow> nat \<Rightarrow> nat \<Rightarrow> nat \<Rightarrow> bytes" where
  "placed m a buf off filesz memsz = (\<lambda>p.
     if a \<le> p \<and> p < a + filesz then buf ! (off + (p - a))
     else if a + filesz \<le> p \<and> p < a + memsz then 0 else m p)"

lemma placed_put_bytes:
  assumes "off + fsz \<le> length buf" "fsz \<le> msz"
  shows "put_bytes (put_bytes m a (take fsz (drop off buf))) (a + fsz) (replicate (msz - fsz) 0)
    = placed m a buf off fsz msz"
  using assms by (auto simp: put_bytes_def placed_def fun_eq_iff)

lemma paddr_map_ddr:
  assumes "0x80000000 \<le> unat a" "unat (prot_addr a) + unat n \<le> 0x8000000" "unat a < 0xC0000000"
    and "unat (prot_addr a) < 0x8000000"
  shows "\<exists>t. paddr_map a n s = (Inr (Ddr_ptr (unat (prot_addr a))), t) \<and> ddr (m_ddr t) = ddr (m_ddr s)
    \<and> m_bram t = m_bram s \<and> m_cpu t = m_cpu s"
proof -
  have un: "is_unmapped a" "iomap a = prot_addr a"
    using assms(1,3) by (simp_all add: is_unmapped_def UNMAPPED_BASE_def UNMAPPED_END_def
        word_le_nat_alt word_less_nat_alt prot_addr_def)
  have "unat (prot_addr a + n) = unat (prot_addr a) + unat n"
    using assms(2) by (simp add: unat_word_ariths)
  then have le: "prot_addr a < 0x8000000" "prot_addr a + n \<le> 0x8000000"
    using assms(2,4) by (simp_all add: word_le_nat_alt word_less_nat_alt)
  have "region_at (prot_addr a) = Some ddr_region"
    using assms(4) by (simp add: region_at_eq)
  then show ?thesis
    using un le by (auto simp: paddr_map_region op_simps ddr_region_def ddr_map_def check_ddr_def on_ddr_def)
qed

text \<open>
  A loadable segment that fits the file and DDR is placed as its header says: the file's
  bytes at the segment's address, zeros after them up to its memory size, and no other byte
  of DDR changed.
\<close>

lemma segment_loaded:
  fixes h :: nat
  assumes h: "h = header_at buf i" "i * unat (buf_word buf 42 2) < 2 ^ 31"
    and hdr: "44 \<le> length buf" "h + 24 \<le> length buf"
    and ph: "buf_word buf h 4 = PT_LOAD" "buf_word buf (h + 8) 4 = vaddr" "buf_word buf (h + 20) 4 = memsz"
      "buf_word buf (h + 4) 4 = off" "buf_word buf (h + 16) 4 = filesz"
    and fits: "unat off + unat filesz \<le> length buf" "filesz \<le> memsz"
    and ram: "0x80000000 \<le> unat vaddr" "unat vaddr < 0xC0000000" "unat (prot_addr vaddr) < 0x8000000"
      "unat (prot_addr vaddr) + unat memsz \<le> 0x8000000"
  shows "\<exists>t. load_segment buf i s = (Inr (), t) \<and> m_bram t = m_bram s \<and> m_cpu t = m_cpu s
    \<and> ddr (m_ddr t) = placed (ddr (m_ddr s)) (unat (prot_addr vaddr)) buf (unat off) (unat filesz) (unat memsz)"
proof -
  obtain u where u: "paddr_map vaddr memsz s = (Inr (Ddr_ptr (unat (prot_addr vaddr))), u)"
    "ddr (m_ddr u) = ddr (m_ddr s)" "m_bram u = m_bram s" "m_cpu u = m_cpu s"
    using paddr_map_ddr [OF ram(1,4,2,3)] by blast
  have fields: "buf_field buf k 4 = ok (buf_word buf k 4)" if "k + 4 \<le> length buf" for k
    using that by (simp add: buf_field_def buf_word_def)
  have first: "buf_field buf 42 2 = ok (buf_word buf 42 2)"
    using hdr(1) by (simp add: buf_field_def buf_word_def)
  have sizes: "unat (memsz - filesz) = unat memsz - unat filesz" "unat filesz \<le> unat memsz"
    using fits(2) by (simp_all add: unat_sub word_le_nat_alt)
  have "load_segment buf i s = seq_op (copy_to (Ddr_ptr (unat (prot_addr vaddr))) 0 (take (unat filesz) (drop (unat off) buf)))
      (copy_to (Ddr_ptr (unat (prot_addr vaddr))) (unat filesz) (replicate (unat (memsz - filesz)) 0)) u"
    using h hdr ph fits(1) u(1) by (simp add: load_segment_def Let_def first fields header_at_def op_simps)
  then show ?thesis
    using placed_put_bytes [OF fits(1) sizes(2)] ram(4) sizes fits(1) u(2-4)
    by (simp add: copy_to_def op_simps on_ddr_def)
qed
text \<open>A file with one segment of eight bytes, of which the file holds four.\<close>

definition elf_example :: "u8 list" where
  "elf_example = [0x7f, 0x45, 0x4c, 0x46] @ replicate 20 0 @ [0, 0x10, 0, 0x80] @ [52, 0, 0, 0] @ replicate 10 0
     @ [32, 0] @ [1, 0] @ replicate 6 0
     @ [1, 0, 0, 0] @ [84, 0, 0, 0] @ [0, 0x10, 0, 0x80] @ [0, 0, 0, 0] @ [4, 0, 0, 0] @ [8, 0, 0, 0]
     @ replicate 8 0 @ [0xb7, 0x53, 0x34, 0x12]"

section \<open>The table of options\<close>

text \<open>The short and the long form of an option agree on whether it takes an argument.\<close>

lemma options_agree:
  "set (short_options (tl optstring)) = set (map (\<lambda>(name, has_arg, val). (val, has_arg)) long_options)"
  by code_simp

text \<open>
  Every option of the table but the help has a branch of its own; and what \<^verbatim>\<open>getopt_long\<close> reports
  beside them, an unknown option and (for a string that begins with a dash) an argument that
  is no option, as the character 1, prints the help and leaves.
\<close>

lemma options_handled:
  "(name, has_arg, val) \<in> set long_options \<Longrightarrow> plain_option val \<or> val = CHR ''u'' \<or> val = CHR ''h''"
  by (auto simp: long_options_def plain_option_def)

lemma stray_argument:
  assumes "val = CHR ''h'' \<or> (\<forall>(name, has_arg, v) \<in> set long_options. v \<noteq> val)"
  shows "\<exists>t. parse_args fs argv0 ((val, arg) # opts) s = (Inl (Exit 0), t)
    \<and> mon_out (m_mon (b_machine t)) = mon_out (m_mon (b_machine s)) @ help_lines argv0"
proof -
  have out: "\<exists>m. for_op ls print_out u = (Inr (), m) \<and> mon_out (m_mon m) = mon_out (m_mon u) @ ls" for ls u
  proof (induction ls arbitrary: u)
    case (Cons l ls)
    let ?u = "u\<lparr>m_mon := (m_mon u)\<lparr>mon_out := mon_out (m_mon u) @ [l]\<rparr>\<rparr>"
    have "print_out l u = (Inr (), ?u)" by (simp add: print_out_def on_mon_def op_simps)
    moreover obtain m where "for_op ls print_out ?u = (Inr (), m)" "mon_out (m_mon m) = mon_out (m_mon ?u) @ ls"
      using Cons.IH by blast
    ultimately show ?case by (simp add: op_simps)
  qed (simp add: op_simps)
  obtain m where "print_help argv0 (b_machine s) = (Inr (), m)"
    "mon_out (m_mon m) = mon_out (m_mon (b_machine s)) @ help_lines argv0"
    using out [of "help_lines argv0" "b_machine s"] by (auto simp: print_help_def)
  moreover have "parse_option fs argv0 (val, arg) = seq_op (on_machine (print_help argv0)) (raise (Exit 0))"
    using assms by (auto simp: parse_option_def long_options_def)
  ultimately show ?thesis by (simp add: parse_args_def op_simps on_machine_run)
qed

end
