(* ===== verification/Elf.thy ===== *)
theory Elf
  imports Startup
begin

text \<open>
A whole ELF file: every program header of it, in the order of \<open>load_elf\<close>
  (\<^verbatim>\<open>src/monitor/monitor.c\<close>), and what the memory holds afterwards.
\<close>

unbundle bit_operations_syntax

section \<open>The segments of a file\<close>

text \<open>The fields of the \<open>i\<close>-th program header, and what \<open>load_segment\<close> makes of it.\<close>

definition ph_field :: "u8 list \<Rightarrow> nat \<Rightarrow> nat \<Rightarrow> u32" where
  "ph_field buf i off = buf_word buf (header_at buf i + off) 4"

definition seg_loads :: "u8 list \<Rightarrow> nat \<Rightarrow> bool" where "seg_loads buf i \<longleftrightarrow> ph_field buf i 0 = PT_LOAD"
definition seg_off :: "u8 list \<Rightarrow> nat \<Rightarrow> nat" where "seg_off buf i = unat (ph_field buf i 4)"
definition seg_addr :: "u8 list \<Rightarrow> nat \<Rightarrow> nat" where "seg_addr buf i = unat (prot_addr (ph_field buf i 8))"
definition seg_filesz :: "u8 list \<Rightarrow> nat \<Rightarrow> nat" where "seg_filesz buf i = unat (ph_field buf i 16)"
definition seg_memsz :: "u8 list \<Rightarrow> nat \<Rightarrow> nat" where "seg_memsz buf i = unat (ph_field buf i 20)"

lemmas seg_defs = seg_loads_def seg_off_def seg_addr_def seg_filesz_def seg_memsz_def

definition seg_place :: "u8 list \<Rightarrow> nat \<Rightarrow> bytes \<Rightarrow> bytes" where
  "seg_place buf i m =
     (if seg_loads buf i
      then placed m (seg_addr buf i) buf (seg_off buf i) (seg_filesz buf i) (seg_memsz buf i) else m)"

text \<open>A header inside the file; a loadable one fits the file and DDR.\<close>

definition seg_fits :: "u8 list \<Rightarrow> nat \<Rightarrow> bool" where
  "seg_fits buf i \<longleftrightarrow> i * unat (buf_word buf 42 2) < 2 ^ 31 \<and> header_at buf i + 24 \<le> length buf
     \<and> (seg_loads buf i \<longrightarrow> seg_off buf i + seg_filesz buf i \<le> length buf
         \<and> seg_filesz buf i \<le> seg_memsz buf i
         \<and> 0x80000000 \<le> unat (ph_field buf i 8) \<and> unat (ph_field buf i 8) < 0xC0000000
         \<and> seg_addr buf i < 0x8000000 \<and> seg_addr buf i + seg_memsz buf i \<le> 0x8000000)"

lemma buf_field_ok: "off + n \<le> length buf \<Longrightarrow> buf_field buf off n = ok (buf_word buf off n)"
  by (simp add: buf_field_def buf_word_def)

lemma segment_placed:
  assumes "seg_fits buf i" "44 \<le> length buf"
  shows "\<exists>t. load_segment buf i s = (Inr (), t) \<and> m_bram t = m_bram s \<and> m_cpu t = m_cpu s
    \<and> ddr (m_ddr t) = seg_place buf i (ddr (m_ddr s))"
proof (cases "seg_loads buf i")
  case True
  have "buf_word buf (header_at buf i) 4 = PT_LOAD"
    using True by (simp add: seg_loads_def ph_field_def)
  then show ?thesis
    using segment_loaded [of "header_at buf i" buf i "ph_field buf i 8" "ph_field buf i 20" "ph_field buf i 4"
        "ph_field buf i 16" s, OF refl] assms True
    by (simp add: seg_fits_def seg_place_def seg_defs ph_field_def word_le_nat_alt)
next
  case False
  have "(buf_field buf (i * unat (buf_word buf 42 2) + unat (buf_word buf 28 4)) 4 :: (machine, u32) op)
      = ok (ph_field buf i 0)"
    using assms(1) by (simp add: buf_field_ok ph_field_def header_at_def seg_fits_def)
  then have "load_segment buf i s = (Inr (), s)"
    using False assms by (simp add: load_segment_def Let_def buf_field_ok op_simps seg_loads_def seg_fits_def)
  with False show ?thesis by (simp add: seg_place_def)
qed

lemma segments_placed:
  assumes "\<forall>i \<in> set is. seg_fits buf i" "44 \<le> length buf"
  shows "\<exists>t. for_op is (load_segment buf) s = (Inr (), t) \<and> m_bram t = m_bram s \<and> m_cpu t = m_cpu s
    \<and> ddr (m_ddr t) = fold (seg_place buf) is (ddr (m_ddr s))"
  using assms(1)
proof (induction "is" arbitrary: s)
  case Nil
  then show ?case by (simp add: op_simps)
next
  case (Cons i "is")
  then obtain u where u: "load_segment buf i s = (Inr (), u)" "m_bram u = m_bram s" "m_cpu u = m_cpu s"
    "ddr (m_ddr u) = seg_place buf i (ddr (m_ddr s))"
    using segment_placed [OF _ assms(2)] by (metis list.set_intros(1))
  with Cons.IH [of u] Cons.prems show ?case by (simp add: op_simps)
qed

section \<open>Segments that do not overlap\<close>

definition seg_hits :: "u8 list \<Rightarrow> nat \<Rightarrow> nat \<Rightarrow> bool" where
  "seg_hits buf i p \<longleftrightarrow> seg_loads buf i \<and> seg_addr buf i \<le> p \<and> p < seg_addr buf i + seg_memsz buf i"

text \<open>The byte that a segment asks for at an address.\<close>

definition seg_byte :: "u8 list \<Rightarrow> nat \<Rightarrow> nat \<Rightarrow> u8" where
  "seg_byte buf i p =
     (if p - seg_addr buf i < seg_filesz buf i then buf ! (seg_off buf i + (p - seg_addr buf i)) else 0)"

lemma seg_place_at:
  "seg_fits buf i \<Longrightarrow> seg_place buf i m p = (if seg_hits buf i p then seg_byte buf i p else m p)"
  by (auto simp: seg_place_def placed_def seg_hits_def seg_byte_def seg_fits_def)

text \<open>The last segment that covers an address decides.\<close>

lemma fold_place_at:
  assumes "\<forall>i \<in> set is. seg_fits buf i"
  shows "fold (seg_place buf) is m p
    = (case find (\<lambda>i. seg_hits buf i p) (rev is) of None \<Rightarrow> m p | Some i \<Rightarrow> seg_byte buf i p)"
  using assms
proof (induction "is" rule: rev_induct)
  case (snoc i "is")
  then show ?case by (simp add: seg_place_at)
qed simp

section \<open>The whole file\<close>

text \<open>
  C25: An ELF file that the system reads whole, with the magic number and headers that fit the file
  and DDR, is loaded: \<open>load_elf\<close> returns, the entry point and the symbol file are set, and every
  byte of DDR holds what the last segment that covers it asks for (the file's byte, or zero past
  the file's part of the segment), and is unchanged when no segment covers it.
\<close>

theorem elf_loaded:
  assumes "elf_file s = Some f" "file_is fs f buf" "46 \<le> length buf" "buf_word buf 0 4 = 0x464c457f"
    and "n = unat (buf_word buf 44 2)" "\<forall>i < n. seg_fits buf i"
  shows "\<exists>t. load_elf fs s = (Inr (), t) \<and> elf_entry t = buf_word buf 24 4 \<and> symbol_file t = Some f
    \<and> m_bram (b_machine t) = m_bram (b_machine s) \<and> m_cpu (b_machine t) = m_cpu (b_machine s)
    \<and> (\<forall>p. ddr (m_ddr (b_machine t)) p
        = (case find (\<lambda>i. seg_hits buf i p) (rev [0..<n]) of
             None \<Rightarrow> ddr (m_ddr (b_machine s)) p | Some i \<Rightarrow> seg_byte buf i p))"
proof -
  let ?u = "(b_machine s)\<lparr>m_mon := (m_mon (b_machine s))\<lparr>mon_out := mon_out (m_mon (b_machine s))
      @ [''The elf is '' @ f @ newline]\<rparr>\<rparr>"
  have fits: "\<forall>i \<in> set [0..<n]. seg_fits buf i" using assms(6) by simp
  obtain v where v: "for_op [0..<n] (load_segment buf) ?u = (Inr (), v)" "m_bram v = m_bram (b_machine s)"
    "m_cpu v = m_cpu (b_machine s)" "ddr (m_ddr v) = fold (seg_place buf) [0..<n] (ddr (m_ddr (b_machine s)))"
    using segments_placed [OF fits, of ?u] assms(3) by auto
  have "load_elf fs s = (Inr (), s\<lparr>b_machine := v, symbol_file := Some f, elf_entry := buf_word buf 24 4\<rparr>)"
    using assms(1,3,4,5) v(1) read_whole_file [OF assms(2)]
    by (simp add: load_elf_def op_simps on_machine_run print_out_def on_mon_def host_op_def buf_field_ok)
  then show ?thesis
    using v(2-4) fold_place_at [OF fits] by auto
qed

definition elf_host :: host_files where "elf_host = host_with ''a'' 88 [elf_example]"

theorem elf_loaded_witness:
  "\<exists>t. load_elf elf_host (boot_init\<lparr>elf_file := Some ''a''\<rparr>) = (Inr (), t) \<and> elf_entry t = 0x80001000
     \<and> ddr (m_ddr (b_machine t)) 0x1003 = 0x12 \<and> ddr (m_ddr (b_machine t)) 0x1004 = 0"
proof -
  let ?s = "boot_init\<lparr>elf_file := Some ''a''\<rparr>"
  have len: "length elf_example = 88" by (simp add: elf_example_def)
  have hosted: "file_is elf_host ''a'' elf_example"
    by (simp add: file_is_def elf_host_def host_with_def len) (auto simp: elf_example_def)
  have head: "buf_word elf_example 42 2 = 32" "buf_word elf_example 28 4 = 52" "buf_word elf_example 0 4 = 0x464c457f"
    "buf_word elf_example 44 2 = 1" "buf_word elf_example 24 4 = 0x80001000"
    and ph: "buf_word elf_example 52 4 = PT_LOAD" "buf_word elf_example 60 4 = 0x80001000"
      "buf_word elf_example 72 4 = 8" "buf_word elf_example 56 4 = 84" "buf_word elf_example 68 4 = 4"
    by code_simp+
  have last: "elf_example ! 87 = 0x12" by code_simp
  have pa: "unat (prot_addr 0x80001000) = 0x1000" by (simp add: unat_prot_addr)
  have seg: "seg_loads elf_example 0" "seg_off elf_example 0 = 84" "seg_addr elf_example 0 = 0x1000"
    "seg_filesz elf_example 0 = 4" "seg_memsz elf_example 0 = 8" "ph_field elf_example 0 8 = 0x80001000"
    by (simp_all add: seg_defs ph_field_def header_at_def head ph pa)
  have fits: "\<forall>i < 1. seg_fits elf_example i"
    by (simp add: seg_fits_def seg header_at_def head len)
  have one: "(1 :: nat) = unat (buf_word elf_example 44 2)" by (simp add: head)
  have size: "46 \<le> length elf_example" by (simp add: len)
  obtain t where t: "load_elf elf_host ?s = (Inr (), t)" "elf_entry t = buf_word elf_example 24 4"
    "\<forall>p. ddr (m_ddr (b_machine t)) p = (case find (\<lambda>i. seg_hits elf_example i p) (rev [0..<1]) of
        None \<Rightarrow> ddr (m_ddr (b_machine ?s)) p | Some i \<Rightarrow> seg_byte elf_example i p)"
    using elf_loaded [of ?s, OF _ hosted size head(3) one fits] by auto
  have "ddr (m_ddr (b_machine t)) 0x1003 = 0x12" "ddr (m_ddr (b_machine t)) 0x1004 = 0"
    using t(3) by (simp_all add: seg_hits_def seg_byte_def seg last)
  with t(1,2) show ?thesis by (auto simp: head)
qed

end
