(* ===== verification/Io_Spec.thy ===== *)
theory Io_Spec
  imports Isa Machine
begin

text \<open>
  The abstract machine with its devices: the specification of the processor (\<open>Isa\<close>) extended by
  what a program sees of the devices. The UART is a list of characters received, a list of
  characters sent and a control register; the frame buffer is a byte memory; the trap ends the
  run with a code; the Ethernet controller is the state and the operations of \<open>Emac\<close>; an address
  of no device fails. Nothing is said of a program that reads the receive register
  of the UART when nothing was received, or that runs from the memory of a device.
\<close>

unbundle bit_operations_syntax

record io =
  io_cpu :: isa
  io_tx :: "u8 list"
  io_rx :: "int list"
  io_ctrl :: u32
  io_vmem :: bytes
  io_net :: emac_state
  io_batch :: bool

text \<open>
  The outcome of a step: it goes on, an illegal instruction ended the run, a byte in the trap ended
  it (in the batch modes the emulator exits there), a failure, or an access that
  is not specified.
\<close>

datatype io_outcome = Io_running io | Io_illegal io | Io_trap u8 io | Io_failed fault | Io_outside

fun io_lift :: "io \<Rightarrow> outcome \<Rightarrow> io_outcome" where
  "io_lift m (Running i) = Io_running (m\<lparr>io_cpu := i\<rparr>)"
| "io_lift m (Ended i) = Io_illegal (m\<lparr>io_cpu := i\<rparr>)"
| "io_lift m (Failed e) = Io_failed e"
| "io_lift m Outside = Io_outside"

section \<open>Device accesses\<close>

text \<open>A load of \<open>n\<close> bytes at the physical address \<open>p\<close>, outside RAM.\<close>

definition io_load :: "nat \<Rightarrow> nat \<Rightarrow> io \<Rightarrow> (fault + u32 \<times> io) option" where
  "io_load p n m =
     (if p = 0x1fe50000 then
        (case io_rx m of [] \<Rightarrow> None | c # cs \<Rightarrow> Some (Inr (word_of_int c, m\<lparr>io_rx := cs\<rparr>)))
      else if p = 0x1fe50008 then Some (Inr (if io_rx m = [] then 0 else 1, m))
      else if p = 0x1fe5000c then Some (Inr (io_ctrl m, m))
      else if 0x1ff00000 \<le> p \<and> p < 0x1ff10000 then
        (case mac_read (of_nat (p - 0x1ff00000)) (of_nat n) (io_net m) of
           (Inl e, _) \<Rightarrow> Some (Inl e) | (Inr v, c) \<Rightarrow> Some (Inr (v, m\<lparr>io_net := c\<rparr>)))
      else if 0x10400000 \<le> p \<and> p < 0x10500000 then
        Some (Inr (load_le (io_vmem m) (p - 0x10400000) n, m))
      else if 0x1fe96000 \<le> p \<and> p < 0x1fe97000 then Some (Inr (0, m))
      else Some (Inl Cpu_assert))"

definition io_store :: "nat \<Rightarrow> nat \<Rightarrow> u32 \<Rightarrow> io \<Rightarrow> io_outcome" where
  "io_store p n d m =
     (if p = 0x1fe50004 then Io_running (m\<lparr>io_tx := io_tx m @ [ucast d]\<rparr>)
      else if p = 0x1fe5000c then Io_running (m\<lparr>io_ctrl := d\<rparr>)
      else if p = 0x10000000 \<and> n = 1 then Io_trap (ucast d) m
      else if 0x1ff00000 \<le> p \<and> p < 0x1ff10000 then
        (case mac_write (of_nat (p - 0x1ff00000)) (of_nat n) d (io_net m) of
           (Inl e, _) \<Rightarrow> Io_failed e | (Inr _, c) \<Rightarrow> Io_running (m\<lparr>io_net := c\<rparr>))
      else if 0x10400000 \<le> p \<and> p < 0x10500000 then
        Io_running (m\<lparr>io_vmem := store_le (io_vmem m) (p - 0x10400000) n d\<rparr>)
      else if 0x1fe96000 \<le> p \<and> p < 0x1fe97000 then Io_running m
      else Io_failed Cpu_assert)"

section \<open>Steps\<close>

text \<open>An access that the processor's specification leaves open is one to a device.\<close>

fun io_device :: "instr \<Rightarrow> io \<Rightarrow> io_outcome" where
  "io_device (Load n sx rd r1 off) m =
     (case io_load (phys_addr (i_gpr (io_cpu m) r1 + off)) n m of
        None \<Rightarrow> Io_outside
      | Some (Inl e) \<Rightarrow> Io_failed e
      | Some (Inr (v, k)) \<Rightarrow> Io_running (k\<lparr>io_cpu := set_reg rd (load_extend n sx v) (io_cpu k)\<rparr>))"
| "io_device (Store n r2 r1 off) m =
     io_store (phys_addr (i_gpr (io_cpu m) r1 + off)) n (i_gpr (io_cpu m) r2) m"
| "io_device _ m = Io_outside"

definition io_exec :: "instr \<Rightarrow> io \<Rightarrow> io_outcome" where
  "io_exec d m =
     (case isa_exec d (io_cpu m) of Outside \<Rightarrow> io_device d m | r \<Rightarrow> io_lift m r)"

definition io_next :: "io \<Rightarrow> io" where
  "io_next m = m\<lparr>io_cpu := next_pc (io_cpu m)\<rparr>"

fun io_advance :: "io_outcome \<Rightarrow> io_outcome" where
  "io_advance (Io_running m) = Io_running (io_next m)"
| "io_advance (Io_illegal m) = Io_illegal (io_next m)"
| "io_advance (Io_trap c m) = Io_trap c (if io_batch m then m else io_next m)"
| "io_advance (Io_failed e) = Io_failed e"
| "io_advance Io_outside = Io_outside"

text \<open>The word at the program counter, when it is in RAM.\<close>

definition io_step :: "io \<Rightarrow> io_outcome" where
  "io_step m =
     (let a = i_pc (io_cpu m)
      in if unat a mod 4 \<noteq> 0 then Io_failed Assert_abort
         else if unat a < 0x1000 then Io_failed Cpu_assert
         else if in_ram (phys_addr a) 4 then
           io_advance (io_exec (decode (load_le (i_mem (io_cpu m)) (phys_addr a) 4)) m)
         else Io_outside)"

primrec io_run :: "nat \<Rightarrow> io \<Rightarrow> io_outcome" where
  "io_run 0 m = Io_running m"
| "io_run (Suc n) m = (case io_step m of Io_running k \<Rightarrow> io_run n k | r \<Rightarrow> r)"

section \<open>Runs\<close>

lemma io_run_add: "io_run m i = Io_running j \<Longrightarrow> io_run (m + n) i = io_run n j"
  by (induction m arbitrary: i) (auto split: io_outcome.splits)

text \<open>The specification of the processor is the part of it that stays within RAM.\<close>

lemma io_step_isa:
  assumes "isa_step (io_cpu m) \<noteq> Outside"
  shows "io_step m = io_lift m (isa_step (io_cpu m))"
proof -
  have adv: "io_advance (io_lift m r) = io_lift m (advance r)" for r
    by (cases r) (simp_all add: io_next_def)
  have "io_exec d m = io_lift m (isa_exec d (io_cpu m))" if "isa_exec d (io_cpu m) \<noteq> Outside" for d
    using that by (simp add: io_exec_def split: outcome.splits)
  moreover have "advance r \<noteq> Outside \<longleftrightarrow> r \<noteq> Outside" for r by (cases r) simp_all
  ultimately show ?thesis
    using assms by (auto simp: io_step_def isa_step_def isa_access_def Let_def split: if_splits simp flip: adv)
qed

lemma io_lift_again [simp]: "io_lift (m\<lparr>io_cpu := i\<rparr>) r = io_lift m r"
  by (cases r) simp_all

lemma io_run_isa:
  "isa_run n (io_cpu m) \<noteq> Outside \<Longrightarrow> io_run n m = io_lift m (isa_run n (io_cpu m))"
proof (induction n arbitrary: m)
  case (Suc n)
  then have "isa_step (io_cpu m) \<noteq> Outside" by auto
  then show ?case
    using Suc io_step_isa [of m] by (cases "isa_step (io_cpu m)") simp_all
qed simp

text \<open>The memory \<open>b\<close> holds, at the address \<open>a\<close>, a word that stands for the instruction \<open>d\<close>.\<close>

definition instr_at :: "bytes \<Rightarrow> u32 \<Rightarrow> instr \<Rightarrow> bool" where
  "instr_at b a d \<longleftrightarrow> unat a mod 4 = 0 \<and> 0x1000 \<le> unat a \<and> in_ram (phys_addr a) 4
     \<and> decode (load_le b (phys_addr a) 4) = d"

lemma io_step_at:
  "instr_at (i_mem (io_cpu m)) (i_pc (io_cpu m)) d \<Longrightarrow> io_step m = io_advance (io_exec d m)"
  by (auto simp: instr_at_def io_step_def Let_def)

end
