(* ===== verification/Mmio.thy ===== *)
theory Mmio
  imports Instructions
begin

text \<open>
  Load and store instructions at every address, those of the devices included: an instruction
  of \<^verbatim>\<open>src/cpu/exec-handlers.h\<close> is the access \<open>load_mem\<close> or \<open>store_mem\<close> of its operands, so that the
  lemmas about a device are lemmas about the instructions that reach it. The UART is spelled
  out.
\<close>

unbundle bit_operations_syntax

text \<open>The mnemonics in the trace.\<close>

fun load_name :: "nat \<Rightarrow> bool \<Rightarrow> string" where
  "load_name n sx = (if n = 4 then ''lw'' else
     if n = 2 then (if sx then ''lh'' else ''lhu'') else (if sx then ''lb'' else ''lbu''))"

fun store_name :: "nat \<Rightarrow> string" where
  "store_name n = (if n = 4 then ''sw'' else if n = 2 then ''sh'' else ''sb'')"

lemma name_short: "short_text 6 (load_name n sx)" "short_text 6 (store_name n)"
  by (simp_all add: short_text_def)

lemma load_dispatch:
  assumes "n \<in> {1, 2, 4}" "w = i_type imm rs1 (load_code n sx) rd 0x03"
  shows "exec_inst w = exec_load_as (load_name n sx) (of_nat n) (load_extend n (sx \<and> n \<noteq> 4)) w"
proof -
  have op: "inst_op w = 3" and f3: "inst_func3 w = load_code n sx" by (simp_all add: assms(2))
  have "exec_inst w = exec_load w"
    by (simp add: exec_inst_def op check_op_def opcode_dispatch)
  then show ?thesis
    using assms(1) f3 by (cases sx) (auto simp: exec_load_def load_table_def load_handlers)
qed

lemma store_dispatch:
  assumes "n \<in> {1, 2, 4}" "w = s_type imm rs2 rs1 (store_code n) 0x23"
  shows "exec_inst w = exec_store_as (store_name n) (of_nat n) w"
proof -
  have op: "inst_op w = 0x23" and f3: "inst_func3 w = store_code n" by (simp_all add: assms(2) s_type_def)
  have "exec_inst w = exec_store w"
    by (simp add: exec_inst_def op check_op_def opcode_dispatch)
  then show ?thesis
    using assms(1) f3 by (auto simp: exec_store_def store_table_def store_handlers)
qed

text \<open>Neither access touches the trace buffer, so that the handler's line fits.\<close>

lemma access_trace:
  "m_trace (snd (load_mem a n s)) = m_trace s" "m_trace (snd (store_mem a n d s)) = m_trace s"
  using load_mem_core [of a n s] store_mem_core [of a n d s] by (simp_all add: core_def)

lemma load_as_run:
  assumes "flushed s" "short_text 6 name" "access_width n" "a = src1 w s + I_simm_11_0 w"
    and "unat a mod unat n = 0"
  shows "case load_mem a n s of
      (Inl e, u) \<Rightarrow> exec_load_as name n f w s = (Inl e, u)
    | (Inr v, u) \<Rightarrow> \<exists>tr. exec_load_as name n f w s = (Inr (), (set_gpr (inst_rd w) (f v) u)\<lparr>m_trace := tr\<rparr>)"
proof -
  have msg: "short_text 40 (asm_mem name (inst_rd w) (sint (I_simm_11_0 w)) w)"
    using sint_range [of "I_simm_11_0 w"] by (intro asm_short(4) assms(2)) (simp add: abs_less_iff)
  obtain r u where r: "load_mem a n s = (r, u)" by (metis surj_pair)
  have al: "check_aligned_addr n a s = (Inr (), s)"
    using assms(3,5) aligned_iff [of n a] by (simp add: check_aligned_addr_def aligned_def op_simps)
  have "\<exists>tr. trace (asm_mem name (inst_rd w) (sint (I_simm_11_0 w)) w) (set_gpr (inst_rd w) (f v) u)
      = (Inr (), (set_gpr (inst_rd w) (f v) u)\<lparr>m_trace := tr\<rparr>)" for v
    by (rule trace_after [OF assms(1) _ msg]) (use access_trace(1) [of a n s] r in simp)
  then show ?thesis
    by (cases r) (simp_all add: r exec_load_as_def op_simps assms(4) [symmetric] al)
qed

lemma store_as_run:
  assumes "flushed s" "short_text 6 name" "access_width n" "a = src1 w s + STORE_SIMM w"
    and "unat a mod unat n = 0"
  shows "case store_mem a n (src2 w s) s of
      (Inl e, u) \<Rightarrow> exec_store_as name n w s = (Inl e, u)
    | (Inr _, u) \<Rightarrow> \<exists>tr. exec_store_as name n w s = (Inr (), u\<lparr>m_trace := tr\<rparr>)"
proof -
  have msg: "short_text 40 (asm_mem name (inst_rs2 w) (sint (STORE_SIMM w)) w)"
    using sint_range [of "STORE_SIMM w"] by (intro asm_short(4) assms(2)) (simp add: abs_less_iff)
  obtain r u where r: "store_mem a n (src2 w s) s = (r, u)" by (metis surj_pair)
  have al: "check_aligned_addr n a s = (Inr (), s)"
    using assms(3,5) aligned_iff [of n a] by (simp add: check_aligned_addr_def aligned_def op_simps)
  have "\<exists>tr. trace (asm_mem name (inst_rs2 w) (sint (STORE_SIMM w)) w) u = (Inr (), u\<lparr>m_trace := tr\<rparr>)"
    by (rule trace_after [OF assms(1) _ msg]) (use access_trace(2) [of a n "src2 w s" s] r in simp)
  then show ?thesis
    by (cases r) (simp_all add: r exec_store_as_def op_simps assms(4) [symmetric] al)
qed

text \<open>
  A device as the processor sees it, through the uncached window: an access at
  \<open>0xA0000000 + x\<close> is an access to the register \<open>x\<close> falls on.
\<close>

lemma window_address:
  assumes "unat x < 0x20000000"
  shows "prot_addr (0xA0000000 + x) = x" "0x1000 \<le> 0xA0000000 + x"
proof -
  have a: "unat (0xA0000000 + x) = 0xA0000000 + unat x"
    using assms by (simp add: unat_word_ariths)
  with assms have "unat (prot_addr (0xA0000000 + x)) = unat x" by (simp add: unat_prot_addr mod_if)
  then show "prot_addr (0xA0000000 + x) = x" by (simp add: word_unat_eq_iff)
  show "0x1000 \<le> 0xA0000000 + x" using a by (simp add: word_le_nat_alt)
qed

lemma window_access:
  assumes "0x8000000 \<le> unat x" "unat x < 0x1fc00000 \<or> 0x1fd00000 \<le> unat x \<and> unat x < 0x20000000"
    and "region_at x = Some r"
  shows "load_mem (0xA0000000 + x) n s = region_read r (x - region_start r) n s"
    and "store_mem (0xA0000000 + x) n d s = region_write r (x - region_start r) n d s"
proof -
  have x: "unat x < 0x20000000" using assms(2) by linarith
  have bus: "load_mem (0xA0000000 + x) n s = vaddr_read (0xA0000000 + x) n s"
    "store_mem (0xA0000000 + x) n d s = vaddr_write (0xA0000000 + x) n d s"
    using assms(1,2) by (intro load_mem_bus store_mem_bus; auto simp: window_address [OF x])+
  show "load_mem (0xA0000000 + x) n s = region_read r (x - region_start r) n s"
    "store_mem (0xA0000000 + x) n d s = region_write r (x - region_start r) n d s"
    by (simp_all add: bus vaddr_read_region vaddr_write_region window_address [OF x] assms(3))
qed

text \<open>The UART, the Ethernet controller and the frame buffer in that window.\<close>

lemma access_uart:
  assumes "unat i < 16"
  shows "load_mem (0xBFE50000 + i) n s = on_uart (serial_read i n) s"
    and "store_mem (0xBFE50000 + i) n d s = on_uart (serial_write i n d) s"
proof -
  have x: "unat (0x1fe50000 + i) = 0x1fe50000 + unat i" using assms by (simp add: unat_word_ariths)
  then have "region_at (0x1fe50000 + i) = Some serial_region" using assms by (simp add: region_at_eq)
  from window_access(1) [OF _ _ this, of n s] window_access(2) [OF _ _ this, of n d s] x assms
  show "load_mem (0xBFE50000 + i) n s = on_uart (serial_read i n) s"
    "store_mem (0xBFE50000 + i) n d s = on_uart (serial_write i n d) s"
    by (simp_all add: serial_region_def SERIAL_ADDR_def)
qed

lemma access_mac:
  assumes "unat i < 0x10000"
  shows "load_mem (0xBFF00000 + i) n s = on_mac (mac_read i n) s"
    and "store_mem (0xBFF00000 + i) n d s = on_mac (mac_write i n d) s"
proof -
  have x: "unat (0x1ff00000 + i) = 0x1ff00000 + unat i" using assms by (simp add: unat_word_ariths)
  then have "region_at (0x1ff00000 + i) = Some mac_region" using assms by (simp add: region_at_eq)
  from window_access(1) [OF _ _ this, of n s] window_access(2) [OF _ _ this, of n d s] x assms
  show "load_mem (0xBFF00000 + i) n s = on_mac (mac_read i n) s"
    "store_mem (0xBFF00000 + i) n d s = on_mac (mac_write i n d) s"
    by (simp_all add: mac_region_def MAC_ADDR_def)
qed

lemma access_vga:
  assumes "unat i < 0x100000"
  shows "load_mem (0xB0400000 + i) n s = on_vga (vga_read i n) s"
    and "store_mem (0xB0400000 + i) n d s = on_vga (vga_write i n d) s"
proof -
  have x: "unat (0x10400000 + i) = 0x10400000 + unat i" using assms by (simp add: unat_word_ariths)
  then have "region_at (0x10400000 + i) = Some vga_region" using assms by (simp add: region_at_eq)
  from window_access(1) [OF _ _ this, of n s] window_access(2) [OF _ _ this, of n d s] x assms
  show "load_mem (0xB0400000 + i) n s = on_vga (vga_read i n) s"
    "store_mem (0xB0400000 + i) n d s = on_vga (vga_write i n d) s"
    by (simp_all add: vga_region_def)
qed

lemma gpr_frame [simp]:
  "get_gpr q (s\<lparr>m_trace := tr\<rparr>) = get_gpr q s" "get_gpr q (s\<lparr>m_iq := e\<rparr>) = get_gpr q s"
  "get_gpr q (s\<lparr>m_mac := c\<rparr>) = get_gpr q s"
  by (simp_all add: get_gpr_def)

lemma uart_machine: "m_uart (code_machine w) = serial_init"
  by (simp add: code_machine_def machine_traced_def machine_init_def)

lemma set_gpr_uart [simp]: "m_uart (set_gpr r v s) = m_uart s"
  by (simp add: set_gpr_def)

text \<open>The encoded instructions, when the access succeeds.\<close>

lemma load_run:
  assumes "flushed s" "n \<in> {1, 2, 4}" "a = get_gpr rs1 s + scast imm" "unat a mod n = 0"
    and "load_mem a (of_nat n) s = (Inr v, u)"
  shows "\<exists>tr. exec_inst (i_type imm rs1 (load_code n sx) rd 0x03) s
    = (Inr (), (set_gpr rd (load_extend n (sx \<and> n \<noteq> 4) v) u)\<lparr>m_trace := tr\<rparr>)"
proof -
  have n: "access_width (of_nat n)" "unat (of_nat n :: u32) = n"
    using assms(2) by (auto simp: access_width_def)
  show ?thesis
    using load_as_run [OF assms(1) name_short(1) [of n sx] n(1), where w = "i_type imm rs1 (load_code n sx) rd 0x03"
        and a = a and f = "load_extend n (sx \<and> n \<noteq> 4)"]
    unfolding load_dispatch [OF assms(2) refl] n(2)
    by (simp add: assms(4,5) I_simm_11_0_def del: load_code.simps load_name.simps flip: assms(3))
qed

lemma store_run:
  assumes "flushed s" "n \<in> {1, 2, 4}"
    and "a = get_gpr rs1 s + (ucast imm + (if sint imm < 0 then 0x1000 else 0))" "unat a mod n = 0"
    and "store_mem a (of_nat n) (get_gpr rs2 s) s = (Inr x, u)"
  shows "\<exists>tr. exec_inst (s_type imm rs2 rs1 (store_code n) 0x23) s = (Inr (), u\<lparr>m_trace := tr\<rparr>)"
proof -
  let ?w = "s_type imm rs2 rs1 (store_code n) 0x23"
  have f: "inst_rs2 ?w = rs2" "inst_rs1 ?w = rs1" by (simp_all add: s_type_def)
  have n: "access_width (of_nat n)" "unat (of_nat n :: u32) = n"
    using assms(2) by (auto simp: access_width_def)
  show ?thesis
    using store_as_run [OF assms(1) name_short(2) [of n] n(1), where w = ?w and a = a]
    unfolding store_dispatch [OF assms(2) refl] n(2) f STORE_SIMM_sum
    by (simp add: assms(4,5) del: store_code.simps store_name.simps flip: assms(3))
qed

text \<open>
  C13: A load instruction at any aligned address, a device's included, is the processor's access
  \<open>load_mem\<close>: a fault of the access is the fault of the instruction; otherwise the device has
  changed as the access says, and \<open>rd\<close> holds the value, extended, and nothing else but the trace
  has changed.
\<close>

theorem load_is_access:
  assumes "flushed s" "n \<in> {1, 2, 4}" "a = get_gpr rs1 s + scast imm" "unat a mod n = 0"
    and "w = i_type imm rs1 (load_code n sx) rd 0x03"
  shows "case load_mem a (of_nat n) s of
      (Inl e, u) \<Rightarrow> exec_inst w s = (Inl e, u)
    | (Inr v, u) \<Rightarrow>
        \<exists>tr. exec_inst w s = (Inr (), (set_gpr rd (load_extend n (sx \<and> n \<noteq> 4) v) u)\<lparr>m_trace := tr\<rparr>)"
proof -
  have f: "inst_rd w = rd" "inst_rs1 w = rs1" "I_simm_11_0 w = scast imm"
    by (simp_all add: assms(5) I_simm_11_0_def)
  have n: "access_width (of_nat n)" "unat (of_nat n :: u32) = n"
    using assms(2) by (auto simp: access_width_def)
  show ?thesis
    using load_as_run [OF assms(1) name_short(1) [of n sx] n(1), where w = w and a = a and f = "load_extend n (sx \<and> n \<noteq> 4)"]
    unfolding load_dispatch [OF assms(2,5)] n(2) f by (simp add: assms(4) flip: assms(3))
qed

theorem load_is_access_witness:
  "\<exists>t. exec_inst (i_type 0 1 2 5 0x03) (set_gpr 1 0xBFE50008 (set_gpr 5 7 (code_machine 0))) = (Inr (), t)
     \<and> get_gpr 5 t = 0"
proof -
  let ?s = "set_gpr 1 0xBFE50008 (set_gpr 5 7 (code_machine 0))"
  have "load_mem 0xBFE50008 4 ?s = (Inr 0, ?s)"
    using access_uart(1) [of 8 4 ?s] serial_read_status [OF serial_examples(1)] uart_machine [of 0]
    by (simp add: on_uart_def op_simps UARTLITE_STAT_def serial_examples set_gpr_def)
  moreover have "flushed ?s" by (simp add: code_machine_traced)
  ultimately show ?thesis
    using load_is_access [of ?s 4 "0xBFE50008" 1 0 "i_type 0 1 2 5 0x03" False 5]
    by (auto simp: load_extend_def get_set)
qed

text \<open>
  C14: The same for stores, whose address has the immediate as this emulator computes it: storing
  a register to any aligned address is \<open>store_mem\<close> of its value, with no other effect but the
  trace.
\<close>

theorem store_is_access:
  assumes "flushed s" "n \<in> {1, 2, 4}"
    and "a = get_gpr rs1 s + (ucast imm + (if sint imm < 0 then 0x1000 else 0))" "unat a mod n = 0"
    and "w = s_type imm rs2 rs1 (store_code n) 0x23"
  shows "case store_mem a (of_nat n) (get_gpr rs2 s) s of
      (Inl e, u) \<Rightarrow> exec_inst w s = (Inl e, u)
    | (Inr _, u) \<Rightarrow> \<exists>tr. exec_inst w s = (Inr (), u\<lparr>m_trace := tr\<rparr>)"
proof -
  have f: "inst_rs2 w = rs2" "inst_rs1 w = rs1" by (simp_all add: assms(5) s_type_def)
  have off: "STORE_SIMM w = ucast imm + (if sint imm < 0 then 0x1000 else 0)"
    unfolding assms(5) by (rule STORE_SIMM_sum)
  have n: "access_width (of_nat n)" "unat (of_nat n :: u32) = n"
    using assms(2) by (auto simp: access_width_def)
  show ?thesis
    using store_as_run [OF assms(1) name_short(2) [of n] n(1), where w = w and a = a]
    unfolding store_dispatch [OF assms(2,5)] n(2) f off by (simp add: assms(4) flip: assms(3))
qed

theorem store_is_access_witness:
  "\<exists>t. exec_inst (s_type 4 2 1 0 0x23) (set_gpr 2 65 (set_gpr 1 0xBFE50000 (code_machine 0))) = (Inr (), t)
     \<and> uart_tx (m_uart t) = [65]"
proof -
  let ?s = "set_gpr 2 65 (set_gpr 1 0xBFE50000 (code_machine 0))"
  have "serial_write 4 1 65 serial_init = (Inr (), serial_init\<lparr>uart_tx := [65]\<rparr>)"
    by (simp add: serial_write_def check_serial_def op_simps serial_const_defs serial_init_def)
  then have "store_mem 0xBFE50004 1 65 ?s = (Inr (), ?s\<lparr>m_uart := serial_init\<lparr>uart_tx := [65]\<rparr>\<rparr>)"
    using access_uart(2) [of 4 1 65 ?s] uart_machine [of 0] by (simp add: on_uart_def op_simps)
  moreover have "flushed ?s" by (simp add: code_machine_traced)
  ultimately show ?thesis
    using store_is_access [of ?s 1 "0xBFE50004" 1 4 "s_type 4 2 1 0 0x23" 2]
    by (auto simp: get_set)
qed

end
