(* ===== verification/Driver.thy ===== *)
theory Driver
  imports Mmio
begin

text \<open>
A guest program that drives a device. First one iteration of the loop of \<open>cpu_exec\<close> around a
  load from, or a store to, the Ethernet controller (\<^verbatim>\<open>src/dev/mac.c\<close>); then three
  instructions that read a PHY register over MDIO, executed by \<open>cpu_exec\<close>.
\<close>

unbundle bit_operations_syntax

section \<open>An iteration of the loop around an access\<close>

text \<open>The machine can fetch the word \<open>w\<close> at its program counter.\<close>

definition fetches :: "machine \<Rightarrow> u32 \<Rightarrow> bool" where
  "fetches s w \<longleftrightarrow> unat (get_pc s) mod 4 = 0 \<and> 0x1000 \<le> get_pc s \<and> in_ram (phys_addr (get_pc s)) 4
     \<and> load_le (phys s) (phys_addr (get_pc s)) 4 = w"

lemma step_exec:
  assumes "traced s" "fetches s w"
  obtains tr where "flushed (s\<lparr>m_iq := iq_record (get_pc s) w (m_iq s), m_trace := tr\<rparr>)"
    and "cpu_step s = seq_op (exec_inst w) (cpu_finish w)
      (s\<lparr>m_iq := iq_record (get_pc s) w (m_iq s), m_trace := tr\<rparr>)"
proof -
  obtain tx where tx: "tracer_at tx (m_trace s)" "length tx \<le> 40" using assms(1) by (auto simp: traced_def)
  obtain u where u: "cpu_fetch s = (Inr w, u)" "fetched s tx w u"
    using wp_result [OF wp_fetch_ram [OF tx]] assms(2) by (auto simp: fetches_def)
  have "u = s\<lparr>m_iq := iq_record (get_pc s) w (m_iq s), m_trace := m_trace u\<rparr>" "flushed u"
    using u(2) unfolding fetched_def by blast+
  then show thesis
    using that [of "m_trace u"] u(1) by (simp add: cpu_step_phases op_simps)
qed

lemma finish_run:
  "\<exists>m k. cpu_finish w t = (Inr (), (set_pc (get_pc t + 4) t)\<lparr>m_mon := m, ninstr := k\<rparr>)
     \<and> nemu_state m = nemu_state (m_mon t)"
proof (cases "work_mode (m_mon t) = MODE_LOG")
  case True
  then show ?thesis
    by (intro exI [of _ "(m_mon t)\<lparr>mon_err := mon_err (m_mon t) @ register_lines w t\<rparr>"]
        exI [of _ "ninstr t + 1"])
      (simp add: cpu_finish_def print_registers_def op_simps on_mon_def set_pc_def get_pc_def)
next
  case False
  then show ?thesis
    by (auto simp: cpu_finish_def op_simps set_pc_def intro!: exI [of _ "m_mon t"] exI [of _ "ninstr t"])
qed

text \<open>
  What an iteration leaves that accessed the Ethernet controller: the registers \<open>f\<close>, the
  controller in state \<open>c\<close>, and the rest as it was.
\<close>

definition stepped :: "machine \<Rightarrow> (5 word \<Rightarrow> u32) \<Rightarrow> emac_state \<Rightarrow> machine \<Rightarrow> bool" where
  "stepped s f c t \<longleftrightarrow> traced t \<and> get_pc t = get_pc s + 4 \<and> (\<forall>r. get_gpr r t = f r) \<and> phys t = phys s
     \<and> m_mac t = c \<and> nemu_state (m_mon t) = nemu_state (m_mon s)"

lemma stepped_finish:
  assumes "traced s" "cpu_step s = seq_op (exec_inst w) (cpu_finish w) u"
    and "exec_inst w u = (Inr (), v)" "get_pc v = get_pc s" "phys v = phys s" "m_mac v = c"
    and "nemu_state (m_mon v) = nemu_state (m_mon s)" "\<And>r. get_gpr r v = f r"
  shows "\<exists>t. cpu_step s = (Inr (), t) \<and> stepped s f c t"
proof -
  obtain m k where fin: "cpu_finish w v = (Inr (), (set_pc (get_pc v + 4) v)\<lparr>m_mon := m, ninstr := k\<rparr>)"
    "nemu_state m = nemu_state (m_mon v)"
    using finish_run by blast
  let ?t = "(set_pc (get_pc v + 4) v)\<lparr>m_mon := m, ninstr := k\<rparr>"
  have run: "cpu_step s = (Inr (), ?t)" using assms(2,3) fin by (simp add: op_simps)
  moreover have "traced ?t" using leadsD [OF tracing.post_step assms(1) run] .
  moreover have "get_gpr r ?t = get_gpr r v" "get_pc ?t = get_pc v + 4" "phys ?t = phys v" "m_mac ?t = m_mac v" for r
    by (simp_all add: get_gpr_def get_pc_def set_pc_def phys_def fun_eq_iff)
  ultimately show ?thesis using assms fin(2) by (auto simp: stepped_def)
qed

lemma mac_load_step:
  assumes "traced s" "fetches s (i_type imm rs1 2 rd 0x03)" "get_gpr rs1 s + scast imm = 0xBFF00000 + i"
    and "unat i < 0x10000" "unat i mod 4 = 0" "mac_read i 4 (m_mac s) = (Inr v, c)"
  shows "\<exists>t. cpu_step s = (Inr (), t) \<and> stepped s (\<lambda>r. if r = rd then v else get_gpr r s) c t"
proof -
  let ?w = "i_type imm rs1 2 rd 0x03"
  obtain tr where u: "flushed (s\<lparr>m_iq := iq_record (get_pc s) ?w (m_iq s), m_trace := tr\<rparr>)"
    "cpu_step s = seq_op (exec_inst ?w) (cpu_finish ?w)
       (s\<lparr>m_iq := iq_record (get_pc s) ?w (m_iq s), m_trace := tr\<rparr>)"
    by (rule step_exec [OF assms(1,2)])
  let ?u = "s\<lparr>m_iq := iq_record (get_pc s) ?w (m_iq s), m_trace := tr\<rparr>"
  have acc: "load_mem (0xBFF00000 + i) 4 ?u = (Inr v, ?u\<lparr>m_mac := c\<rparr>)"
    using access_mac(1) [OF assms(4), of 4 ?u] assms(6) by (simp add: on_mac_def op_simps)
  have "unat (0xBFF00000 + i) = 0xBFF00000 + unat i" using assms(4) by (simp add: unat_word_ariths)
  then have al: "unat (0xBFF00000 + i) mod 4 = 0" using assms(5) by presburger
  obtain tr' where run: "exec_inst (i_type imm rs1 2 rd 0x03) ?u
      = (Inr (), (set_gpr rd v (?u\<lparr>m_mac := c\<rparr>))\<lparr>m_trace := tr'\<rparr>)"
    using load_run [OF u(1), of 4 "0xBFF00000 + i" rs1 imm v "?u\<lparr>m_mac := c\<rparr>" False rd] al acc assms(3)
    by (auto simp: load_extend_def)
  show ?thesis
    by (rule stepped_finish [OF assms(1) u(2) run])
      (simp_all add: get_gpr_def set_gpr_def get_pc_def phys_def fun_eq_iff)
qed

lemma mac_store_step:
  assumes "traced s" "fetches s (s_type imm rs2 rs1 2 0x23)" "get_gpr rs1 s + ucast imm = 0xBFF00000 + i"
    and "0 \<le> sint imm" "unat i < 0x10000" "unat i mod 4 = 0"
    and "mac_write i 4 (get_gpr rs2 s) (m_mac s) = (Inr x, c)"
  shows "\<exists>t. cpu_step s = (Inr (), t) \<and> stepped s (\<lambda>r. get_gpr r s) c t"
proof -
  let ?w = "s_type imm rs2 rs1 2 0x23"
  obtain tr where u: "flushed (s\<lparr>m_iq := iq_record (get_pc s) ?w (m_iq s), m_trace := tr\<rparr>)"
    "cpu_step s = seq_op (exec_inst ?w) (cpu_finish ?w)
       (s\<lparr>m_iq := iq_record (get_pc s) ?w (m_iq s), m_trace := tr\<rparr>)"
    by (rule step_exec [OF assms(1,2)])
  let ?u = "s\<lparr>m_iq := iq_record (get_pc s) ?w (m_iq s), m_trace := tr\<rparr>"
  have acc: "store_mem (0xBFF00000 + i) 4 (get_gpr rs2 s) ?u = (Inr (), ?u\<lparr>m_mac := c\<rparr>)"
    using access_mac(2) [OF assms(5), of 4 "get_gpr rs2 s" ?u] assms(7) by (simp add: on_mac_def op_simps)
  have "unat (0xBFF00000 + i) = 0xBFF00000 + unat i" using assms(5) by (simp add: unat_word_ariths)
  then have al: "unat (0xBFF00000 + i) mod 4 = 0" using assms(6) by presburger
  obtain tr' where run: "exec_inst (s_type imm rs2 rs1 2 0x23) ?u = (Inr (), ?u\<lparr>m_mac := c, m_trace := tr'\<rparr>)"
    using store_run [OF u(1), of 4 "0xBFF00000 + i" rs1 imm rs2 "()" "?u\<lparr>m_mac := c\<rparr>"] al acc assms(3,4)
    by auto
  show ?thesis
    by (rule stepped_finish [OF assms(1) u(2) run])
      (simp_all add: get_gpr_def get_pc_def phys_def fun_eq_iff)
qed

section \<open>A driver\<close>

lemma mdio_read_fields:
  assumes "unat reg < 32"
  shows "mdio_phyaddr (0x420 OR reg) = 1" "mdio_regnum (0x420 OR reg) = unat reg" "mdio_op (0x420 OR reg) = 1"
proof -
  have reg: "take_bit 5 reg = reg"
    using assms by (simp add: word_unat_eq_iff unsigned_take_bit_eq take_bit_nat_eq_self)
  have high: "\<not> bit reg n" if "5 \<le> n" for n
    using bit_take_bit_iff [of 5 reg n] that by (simp add: reg)
  have "drop_bit 5 reg = 0" "drop_bit 10 reg = 0"
    by (rule bit_word_eqI, simp add: bit_drop_bit_eq high)+
  moreover from reg have "reg AND 0x1F = reg"
    by (simp add: take_bit_eq_mask mask_eq_exp_minus_1)
  ultimately show "mdio_phyaddr (0x420 OR reg) = 1" "mdio_regnum (0x420 OR reg) = unat reg"
    "mdio_op (0x420 OR reg) = 1"
    by (simp_all add: mdio_phyaddr_def mdio_regnum_def mdio_op_def drop_bit_or bit.conj_disj_distrib2)
qed

text \<open>The read of any PHY register, as the controller performs it.\<close>

lemma mdio_get_any:
  assumes "unat reg < 32"
  shows "\<exists>a b c. mac_write MDIO_ADDR 4 (0x420 OR reg) s = (Inr (), a) \<and> mac_write MDIO_CTRL 4 1 a = (Inr (), b)
    \<and> mac_read MDIO_RD 4 b = (Inr (ucast (phy_regs (mii_init s) 1 (unat reg))), c)"
  by (simp add: mac_write_mdio_addr mac_write_mdio_ctrl mac_read_mdio mii_transaction_def op_simps
      mdio_read_fields [OF assms] mii_read_def Let_def)

text \<open>
  The machine code of that driver: \<open>x1\<close> holds the controller's address, \<open>x2\<close> the request and \<open>x3\<close>
  the start bit; the result goes to \<open>x5\<close>.
\<close>

definition driver_code :: "u32 list" where
  "driver_code = [s_type 0x7E4 2 1 2 0x23, s_type 0x7F0 3 1 2 0x23, i_type 0x7EC 1 2 5 0x03]"

definition driver_at :: "machine \<Rightarrow> bool" where
  "driver_at s \<longleftrightarrow> fetches s (driver_code ! 0) \<and> fetches (set_pc (get_pc s + 4) s) (driver_code ! 1)
     \<and> fetches (set_pc (get_pc s + 8) s) (driver_code ! 2)
     \<and> get_gpr 1 s = 0xBFF00000 \<and> get_gpr 3 s = 1"

lemma phys_set_pc [simp]: "phys (set_pc a s) = phys s"
  by (simp add: phys_def set_pc_def fun_eq_iff)

lemma mon_frame [simp]:
  "get_gpr r (s\<lparr>m_mon := m\<rparr>) = get_gpr r s" "get_pc (s\<lparr>m_mon := m\<rparr>) = get_pc s"
  "phys (s\<lparr>m_mon := m\<rparr>) = phys s"
  by (simp_all add: get_gpr_def get_pc_def phys_def fun_eq_iff)

lemma stepped_fetches:
  "stepped s f c t \<Longrightarrow> fetches t w \<longleftrightarrow> fetches (set_pc (get_pc s + 4) s) w"
  by (simp add: stepped_def fetches_def)

lemma cpu_loop_step:
  "cpu_step s = (Inr (), t) \<Longrightarrow> nemu_state (m_mon t) = NEMU_RUNNING \<Longrightarrow> cpu_loop (Suc n) s = cpu_loop n t"
  by (simp add: op_simps)

text \<open>
  C30: A driver reads a PHY register: three instructions of a program in RAM, executed by
  \<open>cpu_exec\<close>, leave in \<open>x5\<close> the register's content as the controller holds it, power-on values
  included if nothing was asked before.
\<close>

theorem driver_reads_phy:
  assumes "traced s" "nemu_state (m_mon s) \<noteq> NEMU_END" "driver_at s"
    and "unat reg < 32" "get_gpr 2 s = 0x420 OR reg"
  shows "\<exists>t. cpu_exec 3 s = (Inr (), t) \<and> get_gpr 5 t = ucast (phy_regs (mii_init (m_mac s)) 1 (unat reg))
    \<and> get_pc t = get_pc s + 12 \<and> phys t = phys s \<and> nemu_state (m_mon t) = NEMU_STOP"
proof -
  let ?s = "s\<lparr>m_mon := (m_mon s)\<lparr>nemu_state := NEMU_RUNNING\<rparr>\<rparr>"
  have same: "get_gpr r ?s = get_gpr r s" "get_pc ?s = get_pc s" "phys ?s = phys s" "fetches ?s w = fetches s w"
    "fetches (set_pc a ?s) w = fetches (set_pc a s) w" for r w a
    by (simp_all add: fetches_def)
  obtain a b c where mac: "mac_write MDIO_ADDR 4 (0x420 OR reg) (m_mac s) = (Inr (), a)"
    "mac_write MDIO_CTRL 4 1 a = (Inr (), b)"
    "mac_read MDIO_RD 4 b = (Inr (ucast (phy_regs (mii_init (m_mac s)) 1 (unat reg))), c)"
    using mdio_get_any [OF assms(4)] by blast
  have "\<exists>t. cpu_step ?s = (Inr (), t) \<and> stepped ?s (\<lambda>r. get_gpr r ?s) a t"
    by (rule mac_store_step [of _ "0x7E4" 2 1 MDIO_ADDR])
      (use assms mac(1) same in \<open>simp_all add: driver_at_def driver_code_def MDIO_ADDR_def\<close>)
  then obtain t where t: "cpu_step ?s = (Inr (), t)" "stepped ?s (\<lambda>r. get_gpr r ?s) a t" by blast
  have "\<exists>u. cpu_step t = (Inr (), u) \<and> stepped t (\<lambda>r. get_gpr r t) b u"
    by (rule mac_store_step [of _ "0x7F0" 3 1 MDIO_CTRL])
      (use assms mac(2) same t(2) in \<open>simp_all add: stepped_fetches [OF t(2)] stepped_def driver_at_def
        driver_code_def MDIO_CTRL_def\<close>)
  then obtain u where u: "cpu_step t = (Inr (), u)" "stepped t (\<lambda>r. get_gpr r t) b u" by blast
  have fetch: "fetches u (driver_code ! 2)"
    using assms(3) same t(2) u(2) by (simp add: driver_at_def stepped_def fetches_def add.assoc)
  have "\<exists>v. cpu_step u = (Inr (), v) \<and> stepped u (\<lambda>r. if r = 5
      then ucast (phy_regs (mii_init (m_mac s)) 1 (unat reg)) else get_gpr r u) c v"
    by (rule mac_load_step [of _ "0x7EC" 1 5 MDIO_RD])
      (use fetch assms mac(3) same t(2) u(2) in \<open>simp_all add: stepped_def driver_at_def
        driver_code_def MDIO_RD_def\<close>)
  then obtain v where v: "cpu_step u = (Inr (), v)" "stepped u (\<lambda>r. if r = 5
      then ucast (phy_regs (mii_init (m_mac s)) 1 (unat reg)) else get_gpr r u) c v" by blast
  have st: "nemu_state (m_mon t) = NEMU_RUNNING" "nemu_state (m_mon u) = NEMU_RUNNING" "nemu_state (m_mon v) = NEMU_RUNNING"
    using t(2) u(2) v(2) by (simp_all add: stepped_def)
  have "cpu_loop 3 ?s = cpu_loop 0 v"
    using cpu_loop_step [OF t(1) st(1)] cpu_loop_step [OF u(1) st(2)] cpu_loop_step [OF v(1) st(3)]
    by (simp add: numeral_3_eq_3)
  then have "cpu_exec 3 s = (Inr (), v\<lparr>m_mon := (m_mon v)\<lparr>nemu_state := NEMU_STOP\<rparr>\<rparr>)"
    using assms(2) st(3) by (simp add: cpu_exec_def op_simps on_mon_def)
  moreover have "get_pc v = get_pc s + 12" "phys v = phys s"
    using t(2) u(2) v(2) same by (simp_all add: stepped_def)
  ultimately show ?thesis
    using v(2) by (simp add: stepped_def)
qed

definition driver_machine :: "u32 \<Rightarrow> machine" where
  "driver_machine reg = set_gpr 1 0xBFF00000 (set_gpr 2 (0x420 OR reg) (set_gpr 3 1 (machine_traced\<lparr>
     m_cpu := (m_cpu machine_init)\<lparr>pc := 0x80001000\<rparr>,
     m_ddr := \<lparr>ddr = store_le (store_le (store_le (\<lambda>_. 0) 0x1000 4 (driver_code ! 0)) 0x1004 4 (driver_code ! 1))
       0x1008 4 (driver_code ! 2), ddr_mapped_size = 0\<rparr>\<rparr>)))"

lemma driver_machine:
  "traced (driver_machine reg)" "nemu_state (m_mon (driver_machine reg)) = NEMU_STOP"
  "driver_at (driver_machine reg)" "get_gpr 2 (driver_machine reg) = 0x420 OR reg"
  "m_mac (driver_machine reg) = emac_init"
proof -
  show "traced (driver_machine reg)"
    using tracer_started by (auto simp: traced_def driver_machine_def machine_traced_def set_gpr_def)
  show "nemu_state (m_mon (driver_machine reg)) = NEMU_STOP" "get_gpr 2 (driver_machine reg) = 0x420 OR reg"
    "m_mac (driver_machine reg) = emac_init"
    by (simp_all add: driver_machine_def machine_traced_def) (simp_all add: machine_init_def set_gpr_def)
  have pc: "get_pc (driver_machine reg) = 0x80001000" by (simp add: driver_machine_def) (simp add: get_pc_def)
  let ?m = "store_le (store_le (store_le (\<lambda>_. 0) 0x1000 4 (driver_code ! 0)) 0x1004 4 (driver_code ! 1))
       0x1008 4 (driver_code ! 2)"
  have mem: "load_le (phys (driver_machine reg)) a 4 = load_le ?m a 4" if "a + 4 \<le> 0x8000000" for a
    by (rule load_le_cong) (use that in \<open>simp add: phys_def driver_machine_def set_gpr_def\<close>)
  have "load_le ?m 0x1000 4 = driver_code ! 0" "load_le ?m 0x1004 4 = driver_code ! 1"
    "load_le ?m 0x1008 4 = driver_code ! 2"
    by (simp_all add: load_store_other load_store_same take_bit_word_eq_self)
  then show "driver_at (driver_machine reg)"
    using pc by (simp add: driver_at_def fetches_def mem phys_addr_def in_ram_def)
      (simp add: driver_machine_def)
qed

theorem driver_reads_phy_witness:
  "\<exists>t. cpu_exec 3 (driver_machine 2) = (Inr (), t) \<and> get_gpr 5 t = 0x181"
proof -
  have "phy_regs (mii_init emac_init) 1 2 = 0x181"
    by (simp add: mii_init_def emac_init_def Let_def set_phy_reg_def mii_defs)
  with driver_reads_phy [of "driver_machine 2" 2] driver_machine [of 2] show ?thesis by auto
qed

end
