(* ===== verification/Assembler.thy ===== *)
theory Assembler
  imports Instructions
begin

text \<open>
An encoder for the instructions of theory \<open>Isa\<close>, inverse to its decoder. Theory \<open>Canonical\<close> relates it
  to the handlers of \<^verbatim>\<open>src/cpu/exec-handlers.h\<close>.
\<close>

unbundle bit_operations_syntax

section \<open>Encoding\<close>

definition imm_code :: "alu_op \<Rightarrow> u32 \<Rightarrow> 12 word" where
  "imm_code op v = (if op = Sra then 0x20 OR ucast v else ucast v)"

fun csr_code :: "csr_op \<Rightarrow> 3 word" where
  "csr_code CSRRW = 1" | "csr_code CSRRS = 2" | "csr_code CSRRC = 3" | "csr_code CSRRWI = 5"
| "csr_code CSRRSI = 6" | "csr_code CSRRCI = 7"

text \<open>An offset of a branch, in units of two bytes.\<close>

definition branch_imm :: "u32 \<Rightarrow> 13 word" where
  "branch_imm off = ucast (drop_bit 1 off)"

text \<open>
  The words by which this emulator, not the manual, knows the instructions. \<open>Compressed\<close> and
  \<open>Illegal\<close> stand for the words that fail.
\<close>

fun encode :: "instr \<Rightarrow> u32" where
  "encode (Op op rd r1 r2) = alu_word op rd r1 r2"
| "encode (Op_imm op rd r1 v) = i_type (imm_code op v) r1 (snd (alu_code op)) rd 0x13"
| "encode (Load n sx rd r1 off) = i_type (ucast off) r1 (load_code n sx) rd 0x03"
| "encode (Store n r2 r1 off) = s_type (ucast off) r2 r1 (store_code n) 0x23"
| "encode (Branch c r1 r2 off) = b_type (branch_imm off) r2 r1 (cond_code c) 0x63"
| "encode (Jal rd off) = u_type (ucast (drop_bit 12 off)) rd 0x77"
| "encode (Jalr rd r1) = i_type 0 r1 0 rd 0x6F"
| "encode (Lui rd v) = u_type (ucast (drop_bit 12 v)) rd 0x37"
| "encode (Auipc rd v) = u_type (ucast (drop_bit 12 v)) rd 0x17"
| "encode Fence = 0x0F"
| "encode (Csr c rd n rs) = i_type n rs (csr_code c) rd 0x73"
| "encode Ecall = 0x73"
| "encode Compressed = 0"
| "encode Illegal = 0x7F"

text \<open>The instructions whose immediates fit their fields.\<close>

definition store_offset :: "12 word \<Rightarrow> u32" where
  "store_offset imm = ucast imm OR push_bit 12 (ucast (drop_bit 11 imm))"

fun encodable :: "instr \<Rightarrow> bool" where
  "encodable (Op_imm op rd r1 v) \<longleftrightarrow> op \<in> {Add, Sll, Slt, Sltu, Xor, Srl, Or, And, Sra} \<and> unat v < 32"
| "encodable (Load n sx rd r1 off) \<longleftrightarrow> n \<in> {1, 2, 4} \<and> \<not> (sx \<and> n = 4) \<and> scast (ucast off :: 12 word) = off"
| "encodable (Store n r2 r1 off) \<longleftrightarrow> n \<in> {1, 2, 4} \<and> store_offset (ucast off) = off"
| "encodable (Branch c r1 r2 off) \<longleftrightarrow> even (branch_imm off) \<and> 2 * scast (branch_imm off) = off"
| "encodable (Jal rd off) \<longleftrightarrow> push_bit 12 (ucast (ucast (drop_bit 12 off) :: 20 word)) = off"
| "encodable (Lui rd v) \<longleftrightarrow> push_bit 12 (ucast (ucast (drop_bit 12 v) :: 20 word)) = v"
| "encodable (Auipc rd v) \<longleftrightarrow> push_bit 12 (ucast (ucast (drop_bit 12 v) :: 20 word)) = v"
| "encodable i \<longleftrightarrow> True"

section \<open>Decoding what was encoded\<close>

lemma b_op [simp]:
  "inst_op (b_type imm rs2 rs1 f3 opc) = opc" "inst_func3 (b_type imm rs2 rs1 f3 opc) = f3"
  "inst_rs1 (b_type imm rs2 rs1 f3 opc) = rs1" "inst_rs2 (b_type imm rs2 rs1 f3 opc) = rs2"
  by (simp_all add: b_type_def)

lemma s_op [simp]:
  "inst_op (s_type imm rs2 rs1 f3 opc) = opc" "inst_func3 (s_type imm rs2 rs1 f3 opc) = f3"
  "inst_rs1 (s_type imm rs2 rs1 f3 opc) = rs1" "inst_rs2 (s_type imm rs2 rs1 f3 opc) = rs2"
  by (simp_all add: s_type_def)

lemma upper_signed: "push_bit 12 (scast (x :: 20 word)) = (push_bit 12 (ucast x) :: u32)"
proof (rule bit_word_eqI)
  fix k assume "k < LENGTH(32)"
  then show "bit (push_bit 12 (scast x) :: u32) k = bit (push_bit 12 (ucast x) :: u32) k"
    by (cases "k = 31") (auto simp: bit_simps min_def)
qed

lemma small_immediate:
  assumes "unat v < 32"
  shows "unat (ucast v :: 12 word) < 32" "ucast (ucast v :: 12 word) = v" "ucast (ucast v :: 5 word) = v"
proof -
  have "unat (ucast v :: 12 word) = unat v" "unat (ucast v :: 5 word) = unat v"
    using assms by (simp_all add: unsigned_ucast_eq unsigned_take_bit_eq take_bit_nat_eq_self)
  then show "unat (ucast v :: 12 word) < 32" "ucast (ucast v :: 12 word) = v" "ucast (ucast v :: 5 word) = v"
    using assms by (simp_all add: word_unat_eq_iff unsigned_ucast_eq unsigned_take_bit_eq take_bit_nat_eq_self)
qed

lemma decode_imm:
  assumes "unat v < 32" "op \<in> {Add, Sll, Slt, Sltu, Xor, Srl, Or, And, Sra}"
  shows "decode (i_type (imm_code op v) r1 (snd (alu_code op)) rd 0x13) = Op_imm op rd r1 v"
proof -
  note small = small_immediate [OF assms(1)]
  have f7: "(ucast (drop_bit 5 (ucast v :: 12 word)) :: 7 word) = 0"
    using small(1) by (simp only: imm_high_bits)
  have simm: "(scast (ucast v :: 12 word) :: u32) = v"
    using small_imm [OF small(1)] small(2) by simp
  have sh: "(ucast (ucast v :: 12 word) :: 5 word) = ucast v"
    by (rule bit_word_eqI) (auto simp: bit_simps)
  have sra: "(ucast (drop_bit 5 (0x20 OR ucast v :: 12 word)) :: 7 word) = 1"
    "(ucast (0x20 OR ucast v :: 12 word) :: 5 word) = ucast v"
  proof -
    have "drop_bit 5 (0x20 OR ucast v :: 12 word) = 1 OR drop_bit 5 (ucast v)" by simp
    moreover have "(ucast (1 OR x :: 12 word) :: 7 word) = 1 OR ucast x" for x
      by (rule bit_word_eqI) (auto simp: bit_simps bit_1_iff)
    ultimately show "(ucast (drop_bit 5 (0x20 OR ucast v :: 12 word)) :: 7 word) = 1"
      using f7 by simp
    have "(ucast (push_bit 5 x OR y :: 12 word) :: 5 word) = ucast y" for x y
      by (rule bit_word_eqI) (auto simp: bit_simps)
    from this [of 1 "ucast v"] show "(ucast (0x20 OR ucast v :: 12 word) :: 5 word) = ucast v"
      by (simp add: sh)
  qed
  show ?thesis
    using assms(2) f7 simm sh sra small
    by (elim insertE emptyE) (simp_all add: imm_code_def decode_def major_def decode_op_imm_def I_simm_11_0_def)
qed

lemma decode_encode:
  assumes "encodable i"
  shows "decode (encode i) = i"
  using assms
proof (cases i)
  case (Op_imm op rd r1 v)
  then show ?thesis using assms decode_imm by simp
next
  case (Load n sx rd r1 off)
  then show ?thesis using assms decode_load_word [of n "ucast off" r1 sx rd] by auto
next
  case (Store n r2 r1 off)
  have "STORE_SIMM (s_type (ucast off) r2 r1 f3 opc) = store_offset (ucast off)" for f3 opc
    by (simp add: STORE_SIMM_encoded store_offset_def)
  then show ?thesis using assms Store by (auto simp: decode_def major_def decode_store_def)
next
  case (Branch c r1 r2 off)
  then have "BRANCH_SIMM (b_type (branch_imm off) r2 r1 f3 opc) = scast (branch_imm off)" for f3 opc
    using assms BRANCH_SIMM_encoded by simp
  then show ?thesis
    using assms Branch by (cases c) (simp_all add: decode_def major_def decode_cond_def)
next
  case (Csr c rd n rs)
  then show ?thesis by (cases c) (simp_all add: decode_def major_def decode_csr_def)
next
  case Ecall
  then show ?thesis by (simp add: decode_def major_def decode_csr_def inst_op_def inst_func3_def)
next
  case Fence
  then show ?thesis by (simp add: decode_def major_def inst_op_def)
next
  case Compressed
  then show ?thesis by (simp add: decode_def inst_op_def)
next
  case Illegal
  then show ?thesis by (simp add: decode_def major_def inst_op_def)
next
  case (Op op rd r1 r2)
  then show ?thesis by (simp add: decode_alu_word)
qed (use assms in \<open>simp_all add: decode_def major_def U_simm_31_12_def upper_signed\<close>)

section \<open>Every word has a canonical form\<close>

lemma upper_canonical:
  "push_bit 12 (ucast (ucast (drop_bit 12 (push_bit 12 (ucast (x :: 20 word) :: u32))) :: 20 word))
    = (push_bit 12 (ucast x) :: u32)"
  by (rule bit_word_eqI) (auto simp: bit_simps)

lemma load_canonical: "scast (ucast (I_simm_11_0 w) :: 12 word) = I_simm_11_0 w"
proof -
  have "(ucast (scast x :: u32) :: 12 word) = x" for x :: "12 word"
  proof (rule bit_word_eqI)
    fix k assume "k < LENGTH(12)"
    then show "bit (ucast (scast x :: u32) :: 12 word) k = bit x k"
      by (cases "k = 11") (auto simp: bit_simps min_def)
  qed
  then show ?thesis by (simp add: I_simm_11_0_def)
qed

lemma store_canonical: "store_offset (ucast (STORE_SIMM w)) = STORE_SIMM w"
proof (rule bit_word_eqI)
  fix k assume k: "k < LENGTH(32)"
  have imm: "bit (ucast (STORE_SIMM w) :: 12 word) j = (j < 12 \<and> bit (STORE_SIMM w) j)" for j
    by (simp add: bit_unsigned_iff)
  have top: "bit (STORE_SIMM w) j = (if j < 5 then bit w (7 + j) else if j < 12 then bit w (20 + j)
      else j = 12 \<and> bit w 31)" for j
    by (auto simp: STORE_SIMM_def field_defs bit_simps not_less dest: bit_imp_le_length)
  show "bit (store_offset (ucast (STORE_SIMM w))) k \<longleftrightarrow> bit (STORE_SIMM w) k"
    using k by (auto simp: store_offset_def bit_or_iff bit_push_bit_iff bit_unsigned_iff bit_drop_bit_eq imm top)
qed

lemma branch_canonical:
  "even (branch_imm (2 * BRANCH_SIMM w))" "scast (branch_imm (2 * BRANCH_SIMM w)) = BRANCH_SIMM w"
proof -
  have B: "bit (BRANCH_SIMM w) j \<longleftrightarrow> j < 32 \<and> (if j = 0 then False else if j < 5 then bit w (7 + j)
      else if j < 11 then bit w (20 + j) else if j = 11 then bit w 7 else bit w 31)" for j
    by (simp only: BRANCH_SIMM_def field_defs bits_only) (auto simp: not_less dest: bit_imp_le_length)
  have "2 * BRANCH_SIMM w = push_bit 1 (BRANCH_SIMM w)" by (simp add: push_bit_eq_mult)
  then have "branch_imm (2 * BRANCH_SIMM w) = ucast (BRANCH_SIMM w)"
    by (simp only: branch_imm_def) (rule bit_word_eqI, simp only: bits_only, auto)
  then have imm: "bit (branch_imm (2 * BRANCH_SIMM w)) j = (j < 13 \<and> bit (BRANCH_SIMM w) j)" for j
    by (simp add: bit_unsigned_iff)
  show "even (branch_imm (2 * BRANCH_SIMM w))" using imm [of 0] B [of 0] by (simp add: bit_0)
  show "scast (branch_imm (2 * BRANCH_SIMM w)) = BRANCH_SIMM w"
    by (rule bit_word_eqI) (auto simp: bit_signed_iff imm B min_def)
qed

lemma imm_canonical:
  assumes "decode_op_imm w = Some (op, v)"
  shows "op \<in> {Add, Sll, Slt, Sltu, Xor, Srl, Or, And, Sra} \<and> unat v < 32"
proof -
  have sh: "unat (ucast (I_shamt w) :: u32) < 32"
    using unsigned_less [of "I_shamt w", where ?'a = nat] by (simp add: unsigned_ucast_eq unsigned_take_bit_eq take_bit_nat_eq_self)
  show ?thesis
  proof (cases "inst_func7 w = 0")
    case True
    have "inst_func7 w = ucast (drop_bit 5 (I_imm_11_0 w))"
      by (rule bit_word_eqI) (auto simp: field_defs bit_simps)
    with True have lt: "unat (I_imm_11_0 w) < 32" using imm_high_bits by metis
    then have "unat (I_simm_11_0 w) < 32" "unat (ucast (I_imm_11_0 w) :: u32) < 32"
      by (simp_all add: I_simm_11_0_def small_imm unsigned_ucast_eq unsigned_take_bit_eq take_bit_nat_eq_self)
    with True sh assms show ?thesis
      by (cases rule: func3_cases [of "inst_func3 w"]) (auto simp: decode_op_imm_def)
  next
    case False
    with sh assms show ?thesis by (auto simp: decode_op_imm_def split: if_splits)
  qed
qed

lemma encodable_decode: "encodable (decode w)"
proof -
  have "decode_load w = Some (n, sx) \<Longrightarrow> n \<in> {1, 2, 4} \<and> \<not> (sx \<and> n = 4)" for n sx
    by (cases rule: func3_cases [of "inst_func3 w"]) (auto simp: decode_load_def)
  moreover have "decode_store w = Some n \<Longrightarrow> n \<in> {1, 2, 4}" for n
    by (cases rule: func3_cases [of "inst_func3 w"]) (auto simp: decode_store_def)
  moreover have "encodable (decode_csr w)"
    by (cases rule: func3_cases [of "inst_func3 w"]) (auto simp: decode_csr_def)
  ultimately show ?thesis
    by (auto simp: decode_def load_canonical store_canonical branch_canonical upper_canonical
        U_simm_31_12_def upper_signed dest: imm_canonical split: option.split)
qed

end
