(* ===== verification/Io.thy ===== *)
theory Io
  imports Io_Spec Driver Runs Assembler
begin

text \<open>
  The emulator implements the abstract machine with devices of \<open>Io_Spec\<close>: its instructions, an
  iteration of its loop, and a call of \<^verbatim>\<open>cpu_exec\<close>. This extends the theorems of \<open>Refine\<close>, which
  say nothing of a program once it accesses a device.
\<close>

unbundle bit_operations_syntax

section \<open>The abstract view\<close>

definition io_of :: "machine \<Rightarrow> io" where
  "io_of s = \<lparr>io_cpu = isa_of s, io_tx = uart_tx (m_uart s), io_rx = rx_chars (m_uart s),
     io_ctrl = uartlite_ctrl_reg (m_uart s), io_vmem = vmem (m_vga s), io_net = m_mac s,
     io_batch = odd (work_mode (m_mon s))\<rparr>"

lemma io_of_sel [simp]:
  "io_cpu (io_of s) = isa_of s" "io_tx (io_of s) = uart_tx (m_uart s)"
  "io_rx (io_of s) = rx_chars (m_uart s)" "io_ctrl (io_of s) = uartlite_ctrl_reg (m_uart s)"
  "io_vmem (io_of s) = vmem (m_vga s)" "io_net (io_of s) = m_mac s"
  "io_batch (io_of s) = odd (work_mode (m_mon s))"
  by (simp_all add: io_of_def)

text \<open>
  The rest of the machine that no program changes: the keyboard and the keys held down, the clock
  and the window.
\<close>

definition offstage :: "machine \<Rightarrow> keyboard_state \<times> (int \<Rightarrow> bool) \<times> u64 \<times> (nat \<Rightarrow> nat \<Rightarrow> u32) \<times> nat" where
  "offstage s = (m_kb s, sdlk_state (m_uart s), jiffy s, pixels (m_vga s), flips (m_vga s))"

text \<open>What the trap prints for a code.\<close>

definition trap_line :: "u8 \<Rightarrow> string" where
  "trap_line c =
     (if c = 0 then ANSI_WIDTHOR_GREEN @ ''HIT GOOD TRAP'' @ newline @ ANSI_WIDTHOR_RESET
      else ANSI_WIDTHOR_RED @ ''HIT BAD TRAP code: 0'' @ newline @ ANSI_WIDTHOR_RESET)"

definition seen_as :: "machine \<Rightarrow> io \<Rightarrow> machine \<Rightarrow> bool" where
  "seen_as s m t \<longleftrightarrow> io_of t = m \<and> offstage t = offstage s"

text \<open>
  The result and the state that an outcome prescribes, from the state \<open>s\<close> and when the run goes on
  with the run state \<open>q\<close>.
\<close>

fun io_leaves :: "nemu_state_t \<Rightarrow> machine \<Rightarrow> io_outcome \<Rightarrow> (fault + unit) \<times> machine \<Rightarrow> bool" where
  "io_leaves q s (Io_running m) (x, t) \<longleftrightarrow> x = Inr () \<and> seen_as s m t \<and> nemu_state (m_mon t) = q"
| "io_leaves q s (Io_illegal m) (x, t) \<longleftrightarrow> x = Inr () \<and> seen_as s m t \<and> nemu_state (m_mon t) = NEMU_END"
| "io_leaves q s (Io_trap c m) (x, t) \<longleftrightarrow> x = (if io_batch m then Inl (Exit 0) else Inr ()) \<and> seen_as s m t
     \<and> nemu_state (m_mon t) = NEMU_END \<and> trap_line c \<in> set (mon_err (m_mon t))"
| "io_leaves q s (Io_failed e) (x, t) \<longleftrightarrow> x = Inl e"
| "io_leaves q s Io_outside (x, t) \<longleftrightarrow> True"

lemma io_leaves_outside: "io_leaves q s Io_outside y"
  by (cases y) simp

section \<open>Device accesses\<close>

lemma offstage_frame [simp]:
  "sdlk_state u = sdlk_state (m_uart s) \<Longrightarrow> offstage (s\<lparr>m_uart := u\<rparr>) = offstage s"
  "offstage (s\<lparr>m_mac := c\<rparr>) = offstage s"
  "offstage (s\<lparr>m_mon := m\<rparr>) = offstage s" "offstage (s\<lparr>m_trace := tr\<rparr>) = offstage s"
  "offstage (s\<lparr>m_iq := q\<rparr>) = offstage s" "offstage (s\<lparr>ninstr := k\<rparr>) = offstage s"
  "offstage (set_pc a s) = offstage s" "offstage (set_gpr r v s) = offstage s"
  "offstage (s\<lparr>m_vga := (m_vga s)\<lparr>vmem := b\<rparr>\<rparr>) = offstage s"
  by (simp_all add: offstage_def set_pc_def set_gpr_def)

lemma isa_of_devices [simp]:
  "isa_of (s\<lparr>m_uart := u\<rparr>) = isa_of s" "isa_of (s\<lparr>m_mac := c\<rparr>) = isa_of s" "isa_of (s\<lparr>m_vga := v\<rparr>) = isa_of s"
  by (simp_all add: isa_of_def phys_def fun_eq_iff)

lemma io_of_frame [simp]:
  "io_of (s\<lparr>m_trace := tr\<rparr>) = io_of s" "io_of (s\<lparr>m_iq := q\<rparr>) = io_of s"
  "io_of (s\<lparr>ninstr := k\<rparr>) = io_of s"
  "io_of (s\<lparr>m_mac := c\<rparr>) = (io_of s)\<lparr>io_net := c\<rparr>"
  "io_of (set_pc a s) = (io_of s)\<lparr>io_cpu := (isa_of s)\<lparr>i_pc := a\<rparr>\<rparr>"
  "io_of (set_gpr r v s) = (io_of s)\<lparr>io_cpu := set_reg r v (isa_of s)\<rparr>"
  "io_of (s\<lparr>m_vga := (m_vga s)\<lparr>vmem := b\<rparr>\<rparr>) = (io_of s)\<lparr>io_vmem := b\<rparr>"
  "io_of (s\<lparr>m_uart := u\<rparr>)
    = (io_of s)\<lparr>io_tx := uart_tx u, io_rx := rx_chars u, io_ctrl := uartlite_ctrl_reg u\<rparr>"
  by (simp_all add: io_of_def isa_of_def set_pc_def set_gpr_def set_reg_def phys_def fun_eq_iff)

text \<open>Outside RAM an aligned access goes to the bus.\<close>

lemma outside_ram:
  assumes "access_width n" "unat a mod unat n = 0" "\<not> in_ram (phys_addr a) (unat n)"
  shows "0x8000000 \<le> unat (prot_addr a)"
    "\<not> (0x1fc00000 \<le> unat (prot_addr a) \<and> unat (prot_addr a) < 0x1fd00000)"
proof -
  have al: "aligned n a" using aligned_iff [OF assms(1)] assms(2) by simp
  note room = aligned_room [OF assms(1) al]
  show ddr: "0x8000000 \<le> unat (prot_addr a)"
    using assms(3) room [of "0x8000000"] by (force simp: in_ram_def phys_addr_prot not_less)
  show "\<not> (0x1fc00000 \<le> unat (prot_addr a) \<and> unat (prot_addr a) < 0x1fd00000)"
    using assms(3) room [of "0x1fd00000"] ddr by (auto simp: in_ram_def phys_addr_prot)
qed

lemma region_offset:
  fixes p :: u32
  assumes "b \<le> unat p" "unat (of_nat b :: u32) = b"
  shows "unat (p - of_nat b) = unat p - b"
  using assms by (simp add: unat_sub word_le_nat_alt)

lemma serial_read_io:
  assumes "serial_wf u"
  shows "rx_chars u = c # cs \<Longrightarrow> \<exists>t. serial_read 0 n u = (Inr (word_of_int c), t) \<and> rx_chars t = cs
      \<and> uart_tx t = uart_tx u \<and> uartlite_ctrl_reg t = uartlite_ctrl_reg u \<and> sdlk_state t = sdlk_state u"
    and "serial_read 8 n u = (Inr (if rx_chars u = [] then 0 else 1), u)"
    and "serial_read 0xc n u = (Inr (uartlite_ctrl_reg u), u)"
    and "i \<notin> {0, 8, 0xc} \<Longrightarrow> \<exists>t. serial_read i n u = (Inl Cpu_assert, t)"
proof -
  show "\<exists>t. serial_read 0 n u = (Inr (word_of_int c), t) \<and> rx_chars t = cs
      \<and> uart_tx t = uart_tx u \<and> uartlite_ctrl_reg t = uartlite_ctrl_reg u \<and> sdlk_state t = sdlk_state u" if rx: "rx_chars u = c # cs"
  proof -
    obtain t where t: "serial_read 0 n u = (Inr (word_of_int c), t)" "rx_chars t = cs"
      using serial_read_rx [OF assms rx, of n] by (auto simp: UARTLITE_Rx_def)
    then have "t = serial_pop u"
      by (simp add: serial_read_def serial_peek_def check_serial_def op_simps serial_const_defs serial_pop_simp)
    with t show ?thesis by (simp add: serial_pop_simp)
  qed
  show "serial_read 8 n u = (Inr (if rx_chars u = [] then 0 else 1), u)"
    using assms ring_empty_iff [of "serial_f u" SERIAL_QUEUE_LEN "serial_r u" "serial_queue u"]
    by (auto simp: serial_read_def serial_peek_def check_serial_def op_simps serial_const_defs
        rx_chars_def serial_wf_def)
qed (simp_all add: serial_read_def serial_peek_def check_serial_def op_simps serial_const_defs)

lemma serial_write_io:
  "serial_write 4 n d u = (Inr (), u\<lparr>uart_tx := uart_tx u @ [ucast d]\<rparr>)"
  "serial_write 0xc n d u = (Inr (), u\<lparr>uartlite_ctrl_reg := d\<rparr>)"
  "i \<notin> {4, 0xc} \<Longrightarrow> \<exists>t. serial_write i n d u = (Inl Cpu_assert, t)"
  by (simp_all add: serial_write_def check_serial_def op_simps serial_const_defs)

text \<open>A load outside RAM.\<close>

definition load_leaves :: "machine \<Rightarrow> (fault + u32 \<times> io) option \<Rightarrow> (fault + u32) \<times> machine \<Rightarrow> bool" where
  "load_leaves s r res \<longleftrightarrow>
     (case r of None \<Rightarrow> True
      | Some (Inl e) \<Rightarrow> fst res = Inl e
      | Some (Inr (v, m)) \<Rightarrow> fst res = Inr v \<and> seen_as s m (snd res) \<and> m_mon (snd res) = m_mon s)"

lemma load_device:
  assumes "serial_wf (m_uart s)" "access_width n" "0x1000 \<le> a" "unat a mod unat n = 0"
    and "\<not> in_ram (phys_addr a) (unat n)"
  shows "load_leaves s (io_load (phys_addr a) (unat n) (io_of s)) (load_mem a n s)"
proof -
  let ?p = "prot_addr a"
  note out = outside_ram [OF assms(2,4,5)]
  have bus: "load_mem a n s = (case region_at ?p of None \<Rightarrow> raise Cpu_assert
     | Some r \<Rightarrow> region_read r (?p - region_start r) n) s"
    using out assms(3) by (simp add: load_mem_bus vaddr_read_region)
  have n: "of_nat (unat n) = n" by simp
  show ?thesis
  proof (cases rule: region_at_cases [of ?p])
    case none
    then have "\<not> (0x1fe96000 \<le> unat ?p \<and> unat ?p < 0x1fe97000)"
      "\<not> (0x10000000 \<le> unat ?p \<and> unat ?p < 0x10001000)" "\<not> (0x1fe50000 \<le> unat ?p \<and> unat ?p < 0x1fe50010)"
      "\<not> (0x1ff00000 \<le> unat ?p \<and> unat ?p < 0x1ff10000)" "\<not> (0x10400000 \<le> unat ?p \<and> unat ?p < 0x10500000)"
      using region_at_eq [of ?p] by (simp_all split: if_splits)
    then show ?thesis
      by (auto simp: bus none load_leaves_def io_load_def phys_addr_prot op_simps)
  next
    case serial
    define i where "i = ?p - 0x1fe50000"
    have p: "unat ?p = 0x1fe50000 + unat i"
      using serial region_offset [of "0x1fe50000" ?p] by (simp add: i_def)
    have i: "unat i = 0 \<longleftrightarrow> i = 0" "unat i = 8 \<longleftrightarrow> i = 8" "unat i = 12 \<longleftrightarrow> i = 12"
      by (simp_all add: word_unat_eq_iff)
    have run: "load_mem a n s = on_uart (serial_read i n) s"
      by (simp add: bus serial serial_region_def SERIAL_ADDR_def i_def)
    consider "i = 0" "rx_chars (m_uart s) = []" | c cs where "i = 0" "rx_chars (m_uart s) = c # cs"
      | "i = 8" | "i = 12" | "i \<notin> {0, 8, 12}" by (cases "rx_chars (m_uart s)") auto
    then show ?thesis
    proof cases
      case 2
      from serial_read_io(1) [OF assms(1) 2(2), of n] show ?thesis
        unfolding run 2(1) by (auto simp: load_leaves_def io_load_def phys_addr_prot p 2 on_uart_def op_simps seen_as_def)
    next
      case 5
      from serial_read_io(4) [OF assms(1) 5, of n] show ?thesis
        using 5 serial i unfolding run by (auto simp: load_leaves_def io_load_def phys_addr_prot p on_uart_def op_simps)
    qed (simp_all add: run serial_read_io(2,3) [OF assms(1)] load_leaves_def io_load_def phys_addr_prot p on_uart_def op_simps seen_as_def)
  next
    case mac
    have run: "load_mem a n s = on_mac (mac_read (?p - 0x1ff00000) n) s"
      by (simp add: bus mac mac_region_def MAC_ADDR_def)
    obtain r c where c: "mac_read (?p - 0x1ff00000) n (m_mac s) = (r, c)" by (metis surj_pair)
    show ?thesis
      using mac by (cases r) (simp_all add: run load_leaves_def io_load_def phys_addr_prot on_mac_def op_simps c seen_as_def)
  next
    case vga
    have off: "unat (?p - 0x10400000) = unat ?p - 0x10400000"
      using region_offset [of "0x10400000" ?p] vga by simp
    then have "unat (?p - 0x10400000) + 4 \<le> unat VMEM_SIZE" using vga by simp
    from vga_ram.rd_inside [OF assms(2) this]
    have "load_mem a n s = (Inr (load_le (vmem (m_vga s)) (unat ?p - 0x10400000) (unat n)), s)"
      by (simp add: bus vga vga_region_def on_vga_def op_simps off)
    then show ?thesis
      using vga by (simp add: load_leaves_def io_load_def phys_addr_prot seen_as_def)
  next
    case badp
    then show ?thesis
      by (simp add: bus load_leaves_def io_load_def phys_addr_prot op_simps badp_region_def badp_read_def seen_as_def)
  next
    case gpio
    then show ?thesis
      by (simp add: bus load_leaves_def io_load_def phys_addr_prot op_simps gpio_region_def invalid_read_def)
  qed (use out in simp_all)
qed

text \<open>A store outside RAM.\<close>

lemma gpio_write_io:
  "gpio_write 0 1 d m = (if odd (work_mode m) then Inl (Exit 0) else Inr (),
     m\<lparr>nemu_state := NEMU_END, mon_err := mon_err m @ [trap_line (ucast d)]\<rparr>)"
  "\<not> (a = 0 \<and> n = 1) \<Longrightarrow> \<exists>t. gpio_write a n d m = (Inl Cpu_assert, t)"
  by (simp add: gpio_write_trap trap_line_def) (simp add: gpio_write_def check_gpio_def op_simps)

lemma store_device:
  assumes "access_width n" "0x1000 \<le> a" "unat a mod unat n = 0" "\<not> in_ram (phys_addr a) (unat n)"
  shows "io_leaves (nemu_state (m_mon s)) s (io_store (phys_addr a) (unat n) d (io_of s)) (store_mem a n d s)"
proof -
  let ?p = "prot_addr a"
  note out = outside_ram [OF assms(1,3,4)]
  have bus: "store_mem a n d s = (case region_at ?p of None \<Rightarrow> raise Cpu_assert
     | Some r \<Rightarrow> region_write r (?p - region_start r) n d) s"
    using out assms(2) by (simp add: store_mem_bus vaddr_write_region)
  show ?thesis
  proof (cases rule: region_at_cases [of ?p])
    case none
    then have "\<not> (0x1fe96000 \<le> unat ?p \<and> unat ?p < 0x1fe97000)"
      "\<not> (0x10000000 \<le> unat ?p \<and> unat ?p < 0x10001000)" "\<not> (0x1fe50000 \<le> unat ?p \<and> unat ?p < 0x1fe50010)"
      "\<not> (0x1ff00000 \<le> unat ?p \<and> unat ?p < 0x1ff10000)" "\<not> (0x10400000 \<le> unat ?p \<and> unat ?p < 0x10500000)"
      using region_at_eq [of ?p] by (simp_all split: if_splits)
    then show ?thesis
      by (auto simp: bus none io_store_def phys_addr_prot op_simps)
  next
    case serial
    define i where "i = ?p - 0x1fe50000"
    have p: "unat ?p = 0x1fe50000 + unat i"
      using serial region_offset [of "0x1fe50000" ?p] by (simp add: i_def)
    have i: "unat i = 4 \<longleftrightarrow> i = 4" "unat i = 12 \<longleftrightarrow> i = 12"
      by (simp_all add: word_unat_eq_iff)
    have run: "store_mem a n d s = on_uart (serial_write i n d) s"
      by (simp add: bus serial serial_region_def SERIAL_ADDR_def i_def)
    show ?thesis
    proof (cases "i \<in> {4, 12}")
      case True
      then show ?thesis
        by (auto simp: run serial_write_io io_store_def phys_addr_prot p on_uart_def op_simps seen_as_def io_of_def)
    next
      case False
      from serial_write_io(3) [OF False, of n d "m_uart s"] show ?thesis
        using False serial i unfolding run by (auto simp: io_store_def phys_addr_prot p on_uart_def op_simps)
    qed
  next
    case mac
    have run: "store_mem a n d s = on_mac (mac_write (?p - 0x1ff00000) n d) s"
      by (simp add: bus mac mac_region_def MAC_ADDR_def)
    obtain r c where c: "mac_write (?p - 0x1ff00000) n d (m_mac s) = (r, c)" by (metis surj_pair)
    show ?thesis
      using mac by (cases r) (simp_all add: run io_store_def phys_addr_prot on_mac_def op_simps c seen_as_def)
  next
    case vga
    have off: "unat (?p - 0x10400000) = unat ?p - 0x10400000"
      using region_offset [of "0x10400000" ?p] vga by simp
    have "unat ?p - 0x10400000 + unat n \<le> 1920000"
      using vga access_width_pos [OF assms(1)] by linarith
    then have room: "unat (?p - 0x10400000) + unat n \<le> unat VMEM_SIZE" by (simp add: off)
    obtain c where c: "vga_write (?p - 0x10400000) n d (m_vga s) = (Inr (), c)"
      "vmem c = store_le (vmem (m_vga s)) (unat ?p - 0x10400000) (unat n) d"
      by (rule vga_ram.wr_inside [OF assms(1) room]) (simp add: off)
    have "c = (m_vga s)\<lparr>vmem := vmem c\<rparr>"
      using c(1) by (auto simp: vga_write_def check_vga_def op_simps split: if_splits sum.splits)
    then show ?thesis
      using vga c by (simp add: bus vga_region_def on_vga_def op_simps io_store_def phys_addr_prot seen_as_def)
  next
    case badp
    then show ?thesis
      by (simp add: bus io_store_def phys_addr_prot op_simps badp_region_def badp_write_def seen_as_def)
  next
    case gpio
    have run: "store_mem a n d s = on_mon (gpio_write (?p - 0x10000000) n d) s"
      by (simp add: bus gpio gpio_region_def GPIO_BASE_def)
    show ?thesis
    proof (cases "unat ?p = 0x10000000 \<and> n = 1")
      case True
      then have "?p = 0x10000000" by (simp add: word_unat_eq_iff)
      with True show ?thesis
        unfolding run by (simp add: on_mon_def op_simps io_store_def phys_addr_prot gpio_write_io seen_as_def io_of_def)
    next
      case False
      then have "\<not> (?p - 0x10000000 = 0 \<and> n = 1)"
        using region_offset [of "0x10000000" ?p] gpio by (auto simp: word_unat_eq_iff)
      from gpio_write_io(2) [OF this, of d "m_mon s"] have "fst (store_mem a n d s) = Inl Cpu_assert"
        unfolding run by (auto simp: on_mon_def op_simps)
      moreover have "unat n \<noteq> 1 \<or> unat ?p \<noteq> 0x10000000"
        using False by (auto simp: word_unat_eq_iff)
      ultimately show ?thesis
        using gpio by (cases "store_mem a n d s") (auto simp: io_store_def phys_addr_prot)
    qed
  qed (use out in simp_all)
qed

section \<open>Instructions\<close>

lemma decode_csr_plain:
  "decode_csr w \<noteq> Load n sx rd r1 off" "decode_csr w \<noteq> Store n r2 r1 off"
  by (cases rule: func3_cases [of "inst_func3 w"]; simp add: decode_csr_def)+

text \<open>The handler that a load or a store reaches.\<close>

lemma load_handler:
  assumes "decode w = Load k sx rd r1 off"
  shows "\<exists>name n. exec_inst w = exec_load_as name n (load_extend k sx) w \<and> short_text 6 name
    \<and> access_width n \<and> k = unat n \<and> rd = inst_rd w \<and> r1 = inst_rs1 w \<and> off = I_simm_11_0 w"
proof -
  have d: "inst_op w AND 3 = 3" "major w = 0" "decode_load w = Some (k, sx)"
    and f: "rd = inst_rd w" "r1 = inst_rs1 w" "off = I_simm_11_0 w"
    using assms by (auto simp: decode_def decode_csr_plain split: if_splits option.splits prod.splits)
  have "exec_inst w = exec_load w"
    using d by (simp add: exec_inst_def check_op_def opcode_dispatch flip: major_def)
  then show ?thesis
    using d(3) f
    by (cases rule: func3_cases [of "inst_func3 w"])
      (auto simp: exec_load_def decode_load_def load_table_def load_handlers short_text_def access_width_def intro!: exI)
qed

lemma store_handler:
  assumes "decode w = Store k r2 r1 off"
  shows "\<exists>name n. exec_inst w = exec_store_as name n w \<and> short_text 6 name
    \<and> access_width n \<and> k = unat n \<and> r2 = inst_rs2 w \<and> r1 = inst_rs1 w \<and> off = STORE_SIMM w"
proof -
  have d: "inst_op w AND 3 = 3" "major w = 8" "decode_store w = Some k"
    and f: "r2 = inst_rs2 w" "r1 = inst_rs1 w" "off = STORE_SIMM w"
    using assms by (auto simp: decode_def decode_csr_plain split: if_splits option.splits prod.splits)
  have "exec_inst w = exec_store w"
    using d by (simp add: exec_inst_def check_op_def opcode_dispatch flip: major_def)
  then show ?thesis
    using d(3) f
    by (cases rule: func3_cases [of "inst_func3 w"])
      (auto simp: exec_store_def decode_store_def store_table_def store_handlers short_text_def access_width_def intro!: exI)
qed

lemma io_leaves_trace:
  "io_leaves q s r (x, t\<lparr>m_trace := tr\<rparr>) = io_leaves q s r (x, t)"
  by (cases r) (simp_all add: seen_as_def)

lemma device_load:
  assumes "flushed s" "serial_wf (m_uart s)" "decode w = Load k sx rd r1 off"
    and "isa_exec (Load k sx rd r1 off) (isa_of s) = Outside"
  shows "io_leaves (nemu_state (m_mon s)) s (io_device (Load k sx rd r1 off) (io_of s)) (exec_inst w s)"
proof -
  let ?a = "get_gpr r1 s + off"
  obtain name n where h: "exec_inst w = exec_load_as name n (load_extend k sx) w" "short_text 6 name"
    "access_width n" "k = unat n" "rd = inst_rd w" "r1 = inst_rs1 w" "off = I_simm_11_0 w"
    using load_handler [OF assms(3)] by blast
  have out: "unat ?a mod unat n = 0" "0x1000 \<le> ?a" "\<not> in_ram (phys_addr ?a) (unat n)"
    using assms(4) h(4) by (auto simp: isa_access_def word_le_nat_alt split: if_splits)
  obtain r u where r: "load_mem ?a n s = (r, u)" by (metis surj_pair)
  have dev: "load_leaves s (io_load (phys_addr ?a) k (io_of s)) (r, u)"
    using load_device [OF assms(2) h(3) out(2,1,3)] h(4) r by simp
  have run: "case r of Inl e \<Rightarrow> exec_inst w s = (Inl e, u)
    | Inr v \<Rightarrow> \<exists>tr. exec_inst w s = (Inr (), (set_gpr rd (load_extend k sx v) u)\<lparr>m_trace := tr\<rparr>)"
    using load_as_run [OF assms(1) h(2,3) _ out(1), of w "load_extend k sx"] r h
    by (cases r) auto
  show ?thesis
  proof (cases r)
    case (Inl e)
    with run dev show ?thesis
      by (auto simp: load_leaves_def split: option.splits sum.splits)
  next
    case (Inr v)
    with run obtain tr where "exec_inst w s = (Inr (), (set_gpr rd (load_extend k sx v) u)\<lparr>m_trace := tr\<rparr>)"
      by auto
    moreover have "seen_as s (m\<lparr>io_cpu := set_reg rd x (io_cpu m)\<rparr>) (set_gpr rd x u)"
      if "seen_as s m u" for m x
      using that by (auto simp: seen_as_def)
    ultimately show ?thesis
      using dev Inr by (auto simp: load_leaves_def io_leaves_trace split: option.splits sum.splits prod.splits)
  qed
qed

lemma device_store:
  assumes "flushed s" "decode w = Store k r2 r1 off"
    and "isa_exec (Store k r2 r1 off) (isa_of s) = Outside"
  shows "io_leaves (nemu_state (m_mon s)) s (io_device (Store k r2 r1 off) (io_of s)) (exec_inst w s)"
proof -
  let ?a = "get_gpr r1 s + off" and ?d = "get_gpr r2 s"
  obtain name n where h: "exec_inst w = exec_store_as name n w" "short_text 6 name"
    "access_width n" "k = unat n" "r2 = inst_rs2 w" "r1 = inst_rs1 w" "off = STORE_SIMM w"
    using store_handler [OF assms(2)] by blast
  have out: "unat ?a mod unat n = 0" "0x1000 \<le> ?a" "\<not> in_ram (phys_addr ?a) (unat n)"
    using assms(3) h(4) by (auto simp: isa_access_def word_le_nat_alt split: if_splits)
  obtain r u where r: "store_mem ?a n ?d s = (r, u)" by (metis surj_pair)
  have dev: "io_leaves (nemu_state (m_mon s)) s (io_store (phys_addr ?a) k ?d (io_of s)) (r, u)"
    using store_device [OF h(3) out(2,1,3), of s ?d] h(4) r by simp
  have "\<exists>tr. exec_inst w s = (r, u\<lparr>m_trace := tr\<rparr>)"
  proof -
    have "u\<lparr>m_trace := m_trace u\<rparr> = u" by simp
    then show ?thesis
      using store_as_run [OF assms(1) h(2,3) _ out(1), of w] r h by (cases r) (auto intro: exI [of _ "m_trace u"])
  qed
  then show ?thesis using dev by (auto simp: io_leaves_trace)
qed

text \<open>An instruction, at any address.\<close>

lemma io_inst:
  assumes "flushed s" "serial_wf (m_uart s)"
  shows "io_leaves (nemu_state (m_mon s)) s (io_exec (decode w) (io_of s)) (exec_inst w s)"
proof (cases "isa_exec (decode w) (isa_of s) = Outside")
  case True
  show ?thesis
  proof (cases "decode w")
    case Load
    with True show ?thesis
      using device_load [OF assms Load] by (simp add: io_exec_def del: isa_exec.simps io_device.simps)
  next
    case Store
    with True show ?thesis
      using device_store [OF assms(1) Store] by (simp add: io_exec_def del: isa_exec.simps io_device.simps)
  qed (use True in \<open>simp_all add: io_exec_def io_leaves_outside\<close>)
next
  case False
  have run: "wp (exec_inst w) (\<lambda>_. agrees s (isa_exec (decode w) (isa_of s)))
      (\<lambda>e _. isa_exec (decode w) (isa_of s) = Failed e) s"
    using meets_inst [OF assms(1), of w] False by (simp add: meets_def)
  have same: "seen_as s ((io_of s)\<lparr>io_cpu := isa_of t\<rparr>) t"
    if "surroundings t = surroundings s" "work_mode (m_mon t) = work_mode (m_mon s)" for t
    using that by (simp add: surroundings_def seen_as_def offstage_def io_of_def)
  obtain x t where x: "exec_inst w s = (x, t)" by (metis surj_pair)
  show ?thesis
  proof (cases "isa_exec (decode w) (isa_of s)")
    case (Running i)
    with run x have "x = Inr ()" "agrees s (Running i) t" by (cases x; simp add: wp_def)+
    then show ?thesis
      using same [of t] Running x by (auto simp: io_exec_def agrees_def)
  next
    case (Ended i)
    with run x have "x = Inr ()" "agrees s (Ended i) t" by (cases x; simp add: wp_def)+
    then show ?thesis
      using same [of t] Ended x by (auto simp: io_exec_def agrees_def)
  next
    case (Failed e)
    with run x have "x = Inl e" by (cases x) (simp_all add: wp_def agrees_def)
    then show ?thesis using Failed x by (simp add: io_exec_def)
  qed (use False in simp)
qed

section \<open>The loop\<close>

lemma finish_io:
  "\<exists>ls k. cpu_finish w t = (Inr (), (set_pc (get_pc t + 4) t)\<lparr>m_mon := (m_mon t)\<lparr>mon_err := mon_err (m_mon t) @ ls\<rparr>,
     ninstr := k\<rparr>)"
proof (cases "work_mode (m_mon t) = MODE_LOG")
  case True
  then show ?thesis
    by (intro exI [of _ "register_lines w t"] exI [of _ "ninstr t + 1"])
      (simp add: cpu_finish_def print_registers_def op_simps on_mon_def set_pc_def get_pc_def)
next
  case False
  then show ?thesis
    by (auto simp: cpu_finish_def op_simps set_pc_def intro!: exI [of _ "[]"] exI [of _ "ninstr t"])
qed

lemma io_next_batch [simp]: "io_batch (io_next m) = io_batch m"
  by (simp add: io_next_def)

lemma io_leaves_finish:
  assumes "io_leaves q s r (exec w u)"
  shows "io_leaves q s (io_advance r) (seq_op (exec w) (cpu_finish w) u)"
proof -
  obtain x t where x: "exec w u = (x, t)" by (metis surj_pair)
  obtain ls k where f: "cpu_finish w t = (Inr (), (set_pc (get_pc t + 4) t)\<lparr>m_mon := (m_mon t)\<lparr>mon_err :=
      mon_err (m_mon t) @ ls\<rparr>, ninstr := k\<rparr>)" (is "_ = (_, ?t)")
    using finish_io by blast
  have "seen_as s (io_next m) ?t" if "seen_as s m t" for m
    using that by (auto simp: seen_as_def io_next_def next_pc_def)
      (simp add: io_of_def set_pc_def isa_of_def get_pc_def phys_def fun_eq_iff)
  then show ?thesis
    using assms by (cases r; cases x) (auto simp: x f op_simps split: if_splits)
qed

text \<open>One iteration.\<close>

lemma io_step_leaves:
  assumes "traced s" "machine_wf s"
  shows "io_leaves (nemu_state (m_mon s)) s (io_step (io_of s)) (cpu_step s)"
proof -
  have "(\<exists>e. io_step (io_of s) = Io_failed e \<and> isa_step (isa_of s) = Failed e)
      \<or> io_step (io_of s) = Io_outside
      \<or> unat (get_pc s) mod 4 = 0 \<and> 0x1000 \<le> get_pc s \<and> in_ram (phys_addr (get_pc s)) 4"
    by (simp add: io_step_def isa_step_def isa_access_def Let_def word_le_nat_alt)
  then show ?thesis
  proof (elim disjE exE conjE)
    fix e assume "io_step (io_of s) = Io_failed e" "isa_step (isa_of s) = Failed e"
    then show ?thesis
      using wp_result [OF wp_step [OF assms(1)]] by (cases "cpu_step s") (auto simp: step_agrees_def)
  next
    assume "io_step (io_of s) = Io_outside"
    then show ?thesis by (simp add: io_leaves_outside)
  next
    assume 3: "unat (get_pc s) mod 4 = 0" "0x1000 \<le> get_pc s" "in_ram (phys_addr (get_pc s)) 4"
    let ?w = "load_le (phys s) (phys_addr (get_pc s)) 4"
    have "fetches s ?w" using 3 by (simp add: fetches_def)
    from step_exec [OF assms(1) this] obtain tr where
      u: "flushed (s\<lparr>m_iq := iq_record (get_pc s) ?w (m_iq s), m_trace := tr\<rparr>)"
      and step: "cpu_step s = seq_op (exec_inst ?w) (cpu_finish ?w)
        (s\<lparr>m_iq := iq_record (get_pc s) ?w (m_iq s), m_trace := tr\<rparr>)" by blast
    let ?u = "s\<lparr>m_iq := iq_record (get_pc s) ?w (m_iq s), m_trace := tr\<rparr>"
    have "io_leaves (nemu_state (m_mon ?u)) ?u (io_exec (decode ?w) (io_of ?u)) (exec_inst ?w ?u)"
      by (rule io_inst [OF u]) (use assms(2) in \<open>simp add: machine_wf_def\<close>)
    then have "io_leaves (nemu_state (m_mon ?u)) ?u (io_step (io_of s)) (cpu_step s)"
      using io_leaves_finish [of "nemu_state (m_mon ?u)" ?u "io_exec (decode ?w) (io_of ?u)" exec_inst ?w ?u] 3
      by (simp add: step io_step_def Let_def word_le_nat_alt)
    moreover have "io_leaves q ?u r y = io_leaves q s r y" for q r y
      by (cases y, cases r) (simp_all add: seen_as_def)
    ultimately show ?thesis by simp
  qed
qed

lemma io_loop_leaves:
  assumes "traced s" "machine_wf s" "nemu_state (m_mon s) = NEMU_RUNNING"
  shows "io_leaves NEMU_STOP s (io_run n (io_of s)) (cpu_loop n s)"
  using assms
proof (induction n arbitrary: s)
  case 0
  then show ?case by (simp add: on_mon_def op_simps seen_as_def io_of_def)
next
  case (Suc n)
  obtain x t where x: "cpu_step s = (x, t)" by (metis surj_pair)
  note leaves = io_step_leaves [OF Suc.prems(1,2), unfolded x]
  have kept: "traced t" "machine_wf t" if "x = Inr ()"
    using leadsD [OF tracing.post_step Suc.prems(1)] keepsD [OF cpu_step_wf Suc.prems(2)] x that by auto
  show ?case
  proof (cases "io_step (io_of s)")
    case (Io_running m)
    with leaves have t: "x = Inr ()" "io_of t = m" "offstage t = offstage s" "nemu_state (m_mon t) = NEMU_RUNNING"
      using Suc.prems(3) by (auto simp: seen_as_def)
    have "io_leaves q t r y = io_leaves q s r y" for q r y
      using t(3) by (cases y, cases r) (simp_all add: seen_as_def)
    with Suc.IH [OF kept t(4)] t Io_running x show ?thesis by (simp add: op_simps)
  next
    case (Io_trap c m)
    with leaves x show ?thesis by (cases "io_batch m") (simp_all add: op_simps)
  qed (use leaves x in \<open>simp_all add: op_simps io_leaves_outside\<close>)
qed

lemma cpu_exec_leaves:
  assumes "traced s" "machine_wf s" "nemu_state (m_mon s) \<noteq> NEMU_END"
  shows "io_leaves NEMU_STOP s (io_run (unat n) (io_of s)) (cpu_exec n s)"
proof -
  let ?s = "s\<lparr>m_mon := (m_mon s)\<lparr>nemu_state := NEMU_RUNNING\<rparr>\<rparr>"
  have run: "cpu_exec n s = cpu_loop (unat n) ?s"
    using assms(3) by (simp add: cpu_exec_def op_simps on_mon_def)
  have "io_leaves NEMU_STOP ?s (io_run (unat n) (io_of ?s)) (cpu_loop (unat n) ?s)"
    by (rule io_loop_leaves) (use assms in \<open>simp_all\<close>)
  moreover have "io_of ?s = io_of s" by (simp add: io_of_def)
  moreover have "io_leaves q ?s r y = io_leaves q s r y" for q r y
    by (cases y, cases r) (simp_all add: seen_as_def)
  ultimately show ?thesis by (simp add: run)
qed

section \<open>Properties\<close>

text \<open>
  C3: A call \<open>cpu_exec n\<close> implements \<open>n\<close> steps of the machine with devices, for every program that
  stays within RAM and the devices: it returns with the registers, the memory, the UART's output
  and input, the frame buffer and the Ethernet controller as specified, the keyboard, clock and
  window untouched; a byte in the trap ends it with the message for its code, by exiting in the
  batch modes; and every access that no device takes fails as specified.
\<close>

theorem cpu_exec_devices:
  assumes "traced s" "machine_wf s" "nemu_state (m_mon s) \<noteq> NEMU_END"
  shows "case io_run (unat n) (io_of s) of
      Io_running m \<Rightarrow> \<exists>t. cpu_exec n s = (Inr (), t) \<and> io_of t = m \<and> offstage t = offstage s
        \<and> nemu_state (m_mon t) = NEMU_STOP
    | Io_illegal m \<Rightarrow> \<exists>t. cpu_exec n s = (Inr (), t) \<and> io_of t = m \<and> offstage t = offstage s
        \<and> nemu_state (m_mon t) = NEMU_END
    | Io_trap c m \<Rightarrow> \<exists>t. cpu_exec n s = (if io_batch m then Inl (Exit 0) else Inr (), t)
        \<and> io_of t = m \<and> offstage t = offstage s \<and> nemu_state (m_mon t) = NEMU_END
        \<and> trap_line c \<in> set (mon_err (m_mon t))
    | Io_failed e \<Rightarrow> \<exists>t. cpu_exec n s = (Inl e, t)
    | Io_outside \<Rightarrow> True"
proof -
  obtain x t where x: "cpu_exec n s = (x, t)" by (metis surj_pair)
  show ?thesis
    using cpu_exec_leaves [OF assms, of n]
    by (cases "io_run (unat n) (io_of s)") (simp_all add: x seen_as_def)
qed

definition print_machine :: machine where
  "print_machine = set_gpr 2 65 (set_gpr 1 0xBFE50000 (code_machine (encode (Store 1 2 1 4))))"

lemma print_machine_facts:
  "traced print_machine" "machine_wf print_machine" "m_mon print_machine = m_mon machine_init"
  "m_uart print_machine = serial_init"
  "get_gpr 1 print_machine = 0xBFE50000" "get_gpr 2 print_machine = 65"
  "instr_at (phys print_machine) (get_pc print_machine) (Store 1 2 1 4)"
proof -
  show "traced print_machine" "machine_wf print_machine"
    using code_machine_traced(1) code_machine_wf by (simp_all add: print_machine_def)
  show "m_mon print_machine = m_mon machine_init" "m_uart print_machine = serial_init"
    by (simp_all add: print_machine_def code_machine_def machine_traced_def machine_init_def set_gpr_def)
  show "get_gpr 1 print_machine = 0xBFE50000" "get_gpr 2 print_machine = 65"
    by (simp_all add: print_machine_def)
  have pc: "get_pc print_machine = 0x80001000" by (simp add: print_machine_def code_machine_pc)
  have "phys print_machine = phys (code_machine (encode (Store 1 2 1 4)))"
    by (simp add: print_machine_def set_gpr_def phys_def fun_eq_iff del: encode.simps)
  then have w: "load_le (phys print_machine) 0x1000 4 = encode (Store 1 2 1 4)"
    by (simp add: code_machine_word del: encode.simps)
  have d: "decode (encode (Store 1 2 1 4)) = Store 1 2 1 4"
    by (rule decode_encode) (simp add: store_offset_def)
  have pa: "phys_addr 0x80001000 = 0x1000" by (simp add: phys_addr_def)
  show "instr_at (phys print_machine) (get_pc print_machine) (Store 1 2 1 4)"
    unfolding instr_at_def pc pa w d by (simp add: in_ram_def)
qed

lemma print_machine_step:
  assumes "i_gpr (io_cpu m) 1 = 0xBFE50000" "i_gpr (io_cpu m) 2 = 65"
    and "instr_at (i_mem (io_cpu m)) (i_pc (io_cpu m)) (Store 1 2 1 4)"
  shows "io_step m = Io_running (io_next (m\<lparr>io_tx := io_tx m @ [65]\<rparr>))"
  by (simp add: io_step_at [OF assms(3)] io_exec_def isa_access_def phys_addr_def in_ram_def assms(1,2) io_store_def)

theorem cpu_exec_devices_witness:
  "\<exists>t. cpu_exec 1 print_machine = (Inr (), t) \<and> uart_tx (m_uart t) = [65]"
proof -
  have "io_step (io_of print_machine) = Io_running (io_next ((io_of print_machine)\<lparr>io_tx := [65]\<rparr>))"
    using print_machine_step [of "io_of print_machine"] print_machine_facts by (simp add: serial_init_def)
  then show ?thesis
    using cpu_exec_devices [of print_machine 1] print_machine_facts(1-3)
    by (auto simp: io_next_def io_of_def machine_init_def)
qed

end
