(* ===== verification/Events.thy ===== *)
theory Events
  imports Runs Mmio
begin

text \<open>
  The timer tick \<^verbatim>\<open>device_update\<close> of \<^verbatim>\<open>src/device.c\<close> across components: how a keystroke
  travels from SDL through the UART and the bus to the guest program, and how often the screen is
  refreshed.
\<close>

unbundle bit_operations_syntax

section \<open>A key event\<close>

lemma ascii_length: "length (SDLK_to_ascii k) \<le> 5"
proof -
  have "\<forall>(n, str) \<in> set ascii_table. length str \<le> 5" by (simp add: ascii_table_def)
  then show ?thesis by (auto simp: SDLK_to_ascii_def split: option.split dest!: map_of_SomeD)
qed

text \<open>
  A key event in a tick, whether polled or left over in the uninitialised variable, goes to both
  devices.
\<close>

lemma device_update_key:
  fixes s :: machine
  assumes "ev_type (case polled of Some e \<Rightarrow> e | None \<Rightarrow> stale) \<in> {SDL_KEYDOWN, SDL_KEYUP}"
  defines "e \<equiv> (case polled of Some e \<Rightarrow> e | None \<Rightarrow> stale)"
  shows "\<exists>t. device_update sdl polled stale 0 s = (Inr (), t) \<and> m_cpu t = m_cpu s \<and> m_trace t = m_trace s
    \<and> m_uart t = serial_enqueue sdl (ev_type e) (ev_key e) (m_uart s)
    \<and> m_kb t = keyboard_enqueue sdl (ev_type e) (ev_key e) (m_kb s)"
proof -
  have scr: "wp update_screen (\<lambda>_ _. True) (\<lambda>_ _. False) c" for c
    by (rule wp_mono [OF update_screen_wp]) simp_all
  have "wp (device_update sdl polled stale 0)
     (\<lambda>_ t. m_cpu t = m_cpu s \<and> m_trace t = m_trace s
        \<and> m_uart t = serial_enqueue sdl (ev_type e) (ev_key e) (m_uart s)
        \<and> m_kb t = keyboard_enqueue sdl (ev_type e) (ev_key e) (m_kb s)) (\<lambda>_ _. False) s"
    using assms(1) unfolding e_def [symmetric]
    by (auto simp: device_update_def wp_simps on_vga_def Let_def e_def [symmetric]
        intro!: wp_mono [OF scr])
  from wp_result [OF this] show ?thesis by auto
qed

text \<open>
  A keystroke reaches the guest program: after the tick that polls a key press, a \<^verbatim>\<open>lw\<close>
  from the UART's receive register puts the first character of the key into its destination
  register, and the others are queued behind it.
\<close>

lemma key_reaches_guest:
  assumes "machine_wf s" "flushed s" "rx_chars (m_uart s) = []" "0 \<le> key" "key < sdlk_last sdl"
    and "\<not> sdlk_state (m_uart s) key" "SDLK_to_ascii (key_name sdl key) = c # cs"
    and "get_gpr rs1 s = 0xBFE50000"
  shows "\<exists>t u. device_update sdl (Some \<lparr>ev_type = SDL_KEYDOWN, ev_key = key\<rparr>) stale 0 s = (Inr (), t)
    \<and> exec_inst (i_type 0 rs1 2 rd 0x03) t = (Inr (), u)
    \<and> get_gpr rd u = word_of_int (int_of_c_char c) \<and> rx_chars (m_uart u) = map int_of_c_char cs"
proof -
  let ?p = "serial_enqueue sdl SDL_KEYDOWN key (m_uart s)"
  obtain t where t: "device_update sdl (Some \<lparr>ev_type = SDL_KEYDOWN, ev_key = key\<rparr>) stale 0 s = (Inr (), t)"
    "m_uart t = ?p" and frame: "get_gpr rs1 t = 0xBFE50000" "flushed t"
    using device_update_key [where polled = "Some \<lparr>ev_type = SDL_KEYDOWN, ev_key = key\<rparr>" and stale = stale
        and sdl = sdl and s = s] assms(2,8) by (auto simp: get_gpr_def flushed_def)
  have wf: "serial_wf (m_uart s)" using assms(1) by (simp add: machine_wf_def)
  have "length cs \<le> 4" using ascii_length [of "key_name sdl key"] assms(7) by simp
  then have "rx_chars ?p = int_of_c_char c # map int_of_c_char cs"
    using rx_enqueue_loop(1) [of "(m_uart s)\<lparr>sdlk_state := (sdlk_state (m_uart s))(key := True)\<rparr>" "c # cs"]
      wf assms(3-7) by (simp add: serial_enqueue_def Let_def del: serial_enqueue_loop.simps)
  from serial_read_rx [OF serial_enqueue_wf [OF wf] this, of 4]
  obtain v where v: "serial_read UARTLITE_Rx 4 ?p = (Inr (word_of_int (int_of_c_char c)), v)"
    "rx_chars v = map int_of_c_char cs" by blast
  have "load_mem 0xBFE50000 4 t = (Inr (word_of_int (int_of_c_char c)), t\<lparr>m_uart := v\<rparr>)"
    using access_uart(1) [of 0 4 t] t(2) v(1) by (simp add: on_uart_def op_simps UARTLITE_Rx_def)
  with load_run [OF frame(2), of 4 "0xBFE50000" rs1 0 _ _ False rd] frame(1)
  obtain tr where "exec_inst (i_type 0 rs1 2 rd 0x03) t
      = (Inr (), (set_gpr rd (word_of_int (int_of_c_char c)) (t\<lparr>m_uart := v\<rparr>))\<lparr>m_trace := tr\<rparr>)"
    by (auto simp: load_extend_def)
  with v(2) t(1) show ?thesis by simp
qed

section \<open>The rate of refreshes\<close>

text \<open>A sequence of ticks, each with what its poll found and the content of the event variable.\<close>

primrec ticks :: "sdl_env \<Rightarrow> (sdl_event option \<times> sdl_event) list \<Rightarrow> (machine, unit) op" where
  "ticks sdl [] = ok ()"
| "ticks sdl (e # es) = seq_op (device_update sdl (fst e) (snd e) 0) (ticks sdl es)"

fun quits :: "sdl_event option \<times> sdl_event \<Rightarrow> bool" where
  "quits (polled, stale) \<longleftrightarrow> ev_type (case polled of Some e \<Rightarrow> e | None \<Rightarrow> stale) = SDL_QUIT"

lemma jiffy_div: "(j::u64) mod (TIMER_HZ div VGA_HZ) = 0 \<longleftrightarrow> unat j mod 4 = 0"
proof -
  have "TIMER_HZ div VGA_HZ = 4" by (simp add: TIMER_HZ_def VGA_HZ_def)
  then show ?thesis by (simp add: unat_mod_distrib flip: unat_eq_zero)
qed

lemma next_jiffy: "unat ((j::u64) + 1) mod 4 = Suc (unat j mod 4) mod 4"
  by (simp add: unat_word_ariths mod_mod_cancel mod_Suc_eq)

lemma device_update_refresh:
  fixes s :: machine
  assumes "device_update sdl polled stale 0 s = (r, t)"
  shows "r = (if quits (polled, stale) then Inl (Exit 0) else Inr ()) \<and> jiffy t = jiffy s + 1
    \<and> flips (m_vga t) = flips (m_vga s) + (if unat (jiffy s + 1) mod 4 = 0 then 1 else 0)"
proof -
  let ?F = "\<lambda>t. jiffy t = jiffy s + 1
    \<and> flips (m_vga t) = flips (m_vga s) + (if unat (jiffy s + 1) mod 4 = 0 then 1 else 0)"
  have scr: "wp update_screen (\<lambda>_ c'. flips c' = flips c + 1) (\<lambda>_ _. False) c" for c
    by (rule wp_mono [OF update_screen_wp]) simp_all
  have "wp (device_update sdl polled stale 0) (\<lambda>_ t. \<not> quits (polled, stale) \<and> ?F t)
      (\<lambda>e t. e = Exit 0 \<and> quits (polled, stale) \<and> ?F t) s"
    by (cases "ev_type (case polled of Some e \<Rightarrow> e | None \<Rightarrow> stale)")
      (auto simp: device_update_def wp_simps on_vga_def on_mon_def Let_def jiffy_div
        intro!: wp_mono [OF scr])
  from wp_result [OF this] show ?thesis using assms by auto
qed

lemma refresh_step:
  "(if (Suc k) mod 4 = 0 then 1 else 0) + (Suc k mod 4 + n) div 4 = (k mod 4 + Suc n) div (4::nat)"
proof -
  have "k mod 4 < 4" by simp
  then consider "k mod 4 = 0" | "k mod 4 = 1" | "k mod 4 = 2" | "k mod 4 = 3" by linarith
  then show ?thesis by cases (simp_all add: mod_Suc)
qed

text \<open>
  C33: The screen is refreshed at a quarter of the timer's rate: a sequence of ticks completes
  unless one of them finds a quit event, which ends the emulator with status zero; and of the
  ticks up to there, exactly those that complete a group of four refresh the screen.
\<close>

theorem refresh_rate:
  "fst (ticks sdl es s) = (if list_ex quits es then Inl (Exit 0) else Inr ())
   \<and> flips (m_vga (snd (ticks sdl es s))) = flips (m_vga s)
      + (unat (jiffy s) mod 4 + min (length es) (Suc (length (takeWhile (\<lambda>e. \<not> quits e) es)))) div 4"
proof (induction es arbitrary: s)
  case Nil
  then show ?case by (simp add: op_simps)
next
  case (Cons e es)
  obtain r u where u: "device_update sdl (fst e) (snd e) 0 s = (r, u)" by (cases e) (metis surj_pair)
  have k: "unat (jiffy s + 1) mod 4 = Suc (unat (jiffy s)) mod 4"
    using next_jiffy [of "jiffy s"] by (simp add: mod_Suc_eq)
  note tick = device_update_refresh [OF u] refresh_step [of "unat (jiffy s)"]
  show ?case
  proof (cases "quits e")
    case True
    then show ?thesis using tick(1) tick(2) [of 0] u by (simp add: op_simps k)
  next
    case False
    then show ?thesis using tick(1) tick(2) [of "min (length es) (Suc (length (takeWhile (\<lambda>e. \<not> quits e) es)))"]
        u Cons.IH [of u] by (simp add: op_simps k)
  qed
qed

end
