(* ===== verification/Interleave.thy ===== *)
theory Interleave
  imports Events
begin

text \<open>
Runs of the whole emulator with their events: instructions, timer ticks and terminal
  interrupts in any order, as a labelled transition system over \<open>cpu_step\<close>,
  \<open>device_update\<close> and \<open>sigint_handler\<close>. The specification \<open>Isa\<close> knows no signals; the main
  result is that the program does not either.
\<close>

unbundle bit_operations_syntax

section \<open>Runs with labels\<close>

datatype event =
    Instruction
  | Timer "sdl_event option" sdl_event
  | Interrupt

inductive system_run :: "sdl_env \<Rightarrow> machine \<Rightarrow> event list \<Rightarrow> machine \<Rightarrow> bool" for sdl where
  none: "system_run sdl s [] s"
| instr: "nemu_state (m_mon s) = NEMU_RUNNING \<Longrightarrow> cpu_step s = (Inr (), t) \<Longrightarrow>
    system_run sdl t es u \<Longrightarrow> system_run sdl s (Instruction # es) u"
| tick: "device_update sdl polled stale 0 s = (Inr (), t) \<Longrightarrow>
    system_run sdl t es u \<Longrightarrow> system_run sdl s (Timer polled stale # es) u"
| sigint: "work_mode (m_mon s) AND MODE_BATCH = 0 \<Longrightarrow>
    system_run sdl (s\<lparr>m_mon := sigint_handler (m_mon s)\<rparr>) es u \<Longrightarrow>
    system_run sdl s (Interrupt # es) u"

inductive_simps system_run_simps [simp]:
  "system_run sdl s [] u"
  "system_run sdl s (Instruction # es) u"
  "system_run sdl s (Timer polled stale # es) u"
  "system_run sdl s (Interrupt # es) u"

lemma system_run_append:
  "system_run sdl s (es @ fs) u \<longleftrightarrow> (\<exists>t. system_run sdl s es t \<and> system_run sdl t fs u)"
proof (induction es arbitrary: s)
  case (Cons e es)
  then show ?case by (cases e) auto
qed simp

text \<open>The labels forgotten: a run passes through reachable states.\<close>

lemma system_run_reachable: "system_run sdl s es t \<Longrightarrow> reachable sdl s t"
proof (induction es arbitrary: t rule: rev_induct)
  case Nil
  then show ?case by (simp add: reachable.start)
next
  case (snoc e es)
  then obtain u where u: "system_run sdl s es u" "system_run sdl u [e] t"
    by (auto simp: system_run_append)
  then have "system_step sdl u t" by (cases e) (auto intro: system_step.intros)
  with snoc.IH [OF u(1)] show ?case by (rule reachable.later)
qed

section \<open>Signals do not disturb the program\<close>

lemma tick_view:
  assumes "device_update sdl polled stale 0 s = (Inr (), t)"
  shows "isa_of t = isa_of s" "m_trace t = m_trace s" "nemu_state (m_mon t) = nemu_state (m_mon s)"
  using wp_runD [OF device_update_frame assms] by (auto simp: isa_of_def phys_def)

lemma sigint_view:
  "isa_of (s\<lparr>m_mon := m\<rparr>) = isa_of s" "traced (s\<lparr>m_mon := m\<rparr>) = traced s"
  by (simp_all add: isa_of_def phys_def traced_def)

lemma tick_mode:
  assumes "device_update sdl polled stale 0 s = (Inr (), t)"
  shows "work_mode (m_mon t) = work_mode (m_mon s)"
proof -
  have scr: "wp update_screen (\<lambda>_ _. True) (\<lambda>_ _. False) c" for c
    by (rule wp_mono [OF update_screen_wp]) simp_all
  have "wp (device_update sdl polled stale 0) (\<lambda>_ t. work_mode (m_mon t) = work_mode (m_mon s)) (\<lambda>_ _. True) s"
    by (auto simp: device_update_def wp_simps on_vga_def on_mon_def Let_def
        intro!: wp_mono [OF scr] split: SDL_EventType.split)
  from wp_runD [OF this assms] show ?thesis .
qed

definition instructions :: "event list \<Rightarrow> nat" where
  "instructions es = length (filter (\<lambda>e. e = Instruction) es)"

lemma instructions_simps [simp]:
  "instructions [] = 0" "instructions (Instruction # es) = Suc (instructions es)"
  "instructions (Timer p e # es) = instructions es" "instructions (Interrupt # es) = instructions es"
  by (simp_all add: instructions_def)

text \<open>When the state is no longer running, no instruction executes any more.\<close>

lemma stopped_run:
  "system_run sdl s es t \<Longrightarrow> nemu_state (m_mon s) \<noteq> NEMU_RUNNING \<Longrightarrow>
    instructions es = 0 \<and> isa_of t = isa_of s"
proof (induction es arbitrary: s)
  case (Cons e es)
  then show ?case
    by (cases e) (auto simp: tick_view sigint_view sigint_handler_def)
qed simp

text \<open>
  C9: The program sees no signals: whatever ticks, key presses and interrupts arrive between its
  instructions, after \<open>n\<close> of them the registers, the program counter and memory are exactly
  those of \<open>n\<close> steps of the specification, as long as it stays within RAM.
\<close>

theorem signals_invisible:
  assumes "system_run sdl s es t" "traced s" "isa_run (instructions es) (isa_of s) \<noteq> Outside"
  shows "isa_run (instructions es) (isa_of s) = Running (isa_of t)
    \<or> isa_run (instructions es) (isa_of s) = Ended (isa_of t)"
  using assms
proof (induction es arbitrary: s)
  case Nil
  then show ?case by simp
next
  case (Cons e es)
  show ?case
  proof (cases e)
    case Instruction
    with Cons.prems(1) obtain u where u: "cpu_step s = (Inr (), u)" "system_run sdl u es t" by auto
    have "traced u" using leadsD [OF tracing.post_step Cons.prems(2) u(1)] .
    have "isa_step (isa_of s) \<noteq> Outside" using Cons.prems(3) Instruction by auto
    from wp_runD [OF wp_step [OF Cons.prems(2) this] u(1)]
    have "step_agrees s (isa_step (isa_of s)) u" .
    then consider "isa_step (isa_of s) = Running (isa_of u)"
      | "isa_step (isa_of s) = Ended (isa_of u)" "nemu_state (m_mon u) = NEMU_END"
      by (auto simp: step_agrees_def split: outcome.splits)
    then show ?thesis
    proof cases
      case 1
      then show ?thesis using Cons.IH [OF u(2) \<open>traced u\<close>] Cons.prems(3) Instruction by simp
    next
      case 2
      then show ?thesis using stopped_run [OF u(2)] Instruction by simp
    qed
  next
    case (Timer polled stale)
    with Cons.prems(1) obtain u where u: "device_update sdl polled stale 0 s = (Inr (), u)" "system_run sdl u es t"
      by auto
    with Cons.prems Timer Cons.IH [OF u(2)] show ?thesis by (simp add: tick_view [OF u(1)] traced_def)
  next
    case Interrupt
    with Cons.prems Cons.IH [of "s\<lparr>m_mon := sigint_handler (m_mon s)\<rparr>"] show ?thesis
      by (simp add: sigint_view)
  qed
qed

theorem signals_invisible_witness:
  "\<exists>s t. system_run sdl_example s [Timer None \<lparr>ev_type = SDL_KEYDOWN, ev_key = 273\<rparr>, Instruction, Interrupt] t
     \<and> get_gpr 7 s = 0 \<and> get_gpr 7 t = 0x12345000"
proof -
  let ?e = "\<lparr>ev_type = SDL_KEYDOWN, ev_key = 273\<rparr>"
  let ?es = "[Timer None ?e, Instruction, Interrupt]"
  let ?s = "lui_machine\<lparr>m_mon := (m_mon lui_machine)\<lparr>nemu_state := NEMU_RUNNING\<rparr>\<rparr>"
  have lui: "traced lui_machine" "get_gpr 7 lui_machine = 0" "work_mode (m_mon lui_machine) = MODE_GDB"
    using code_machine_traced(1) code_machine_regs(1) by (simp_all add: lui_machine_def)
      (simp add: code_machine_def machine_traced_def machine_init_def)
  have tr: "traced ?s" and isa: "isa_of ?s = isa_of lui_machine" and mode: "work_mode (m_mon ?s) = MODE_GDB"
    using lui(1,3) by (simp_all add: sigint_view)
  obtain u where u: "device_update sdl_example None ?e 0 ?s = (Inr (), u)"
    using device_update_key [where polled = None and stale = ?e and sdl = sdl_example and s = ?s] by auto
  have view: "traced u" "isa_of u = isa_of lui_machine" "nemu_state (m_mon u) = NEMU_RUNNING"
    using tr isa tick_view [OF u] by (simp_all add: traced_def)
  obtain v where v: "cpu_step u = (Inr (), v)" "work_mode (m_mon v) = work_mode (m_mon u)"
    using wp_result [OF wp_step [OF view(1)]] view(2) lui_isa by (auto simp: step_agrees_def)
  have "work_mode (m_mon u) = MODE_GDB" using u mode by (rule tick_mode [THEN trans])
  then have run: "system_run sdl_example ?s ?es (v\<lparr>m_mon := sigint_handler (m_mon v)\<rparr>)" (is "system_run _ _ _ ?t")
    using u v view(3) by (auto simp: MODE_GDB_def)
  have "isa_run (instructions ?es) (isa_of ?s) = Running (isa_of ?t) \<or> isa_run (instructions ?es) (isa_of ?s) = Ended (isa_of ?t)"
    by (rule signals_invisible [OF run tr]) (simp add: isa lui_isa)
  then have "isa_of ?t = next_pc (set_reg 7 0x12345000 (isa_of lui_machine))" by (simp add: isa lui_isa)
  from isa_view(1) [OF this, of 7] have "get_gpr 7 ?t = 0x12345000" by (simp add: next_pc_def set_reg_def)
  moreover have "get_gpr 7 ?s = 0" using lui(2) by (simp add: get_gpr_def)
  ultimately show ?thesis using run by blast
qed

end
