(* ===== verification/Guest.thy ===== *)
theory Guest
  imports Io Interleave
begin

text \<open>
  Guest programs proved correct on the machine with devices, and so on the emulator: a program
  that prints a string, and one that sends back what the UART received. Both are loops that handle
  one character in each round; the locale \<open>character_loop\<close> has the common argument.
\<close>

unbundle bit_operations_syntax

section \<open>Loops over characters\<close>

text \<open>
  \<open>ready m cs\<close>: the program is at the head of its loop and has the characters \<open>cs\<close> to handle. A round
  of \<open>rounds\<close> instructions sends one of them; the last \<open>last\<close> instructions end the run with the code zero.
\<close>

locale character_loop =
  fixes ready :: "io \<Rightarrow> 'c list \<Rightarrow> bool" and send :: "'c \<Rightarrow> u8" and round last :: nat
  assumes round_step: "ready m (c # cs) \<Longrightarrow> \<exists>k. io_run round m = Io_running k \<and> ready k cs
      \<and> io_tx k = io_tx m @ [send c] \<and> i_mem (io_cpu k) = i_mem (io_cpu m) \<and> io_batch k = io_batch m"
    and last_step: "ready m [] \<Longrightarrow> \<exists>k. io_run last m = Io_trap 0 k
      \<and> io_tx k = io_tx m \<and> i_mem (io_cpu k) = i_mem (io_cpu m) \<and> io_batch k = io_batch m"
begin

lemma runs:
  "ready m cs \<Longrightarrow> \<exists>k. io_run (round * length cs + last) m = Io_trap 0 k
    \<and> io_tx k = io_tx m @ map send cs \<and> i_mem (io_cpu k) = i_mem (io_cpu m) \<and> io_batch k = io_batch m"
proof (induction cs arbitrary: m)
  case Nil
  then show ?case using last_step by simp
next
  case (Cons c cs)
  obtain k where k: "io_run round m = Io_running k" "ready k cs" "io_tx k = io_tx m @ [send c]"
    "i_mem (io_cpu k) = i_mem (io_cpu m)" "io_batch k = io_batch m"
    using round_step [OF Cons.prems] by blast
  have "io_run (round * length (c # cs) + last) m = io_run (round * length cs + last) k"
    using io_run_add [OF k(1), of "round * length cs + last"] by (simp add: add.assoc)
  then show ?case using Cons.IH [OF k(2)] k(3-5) by auto
qed

end

text \<open>A run that ended in the trap stays there.\<close>

lemma io_run_trap: "io_run k m = Io_trap c j \<Longrightarrow> k \<le> n \<Longrightarrow> io_run n m = Io_trap c j"
proof (induction n arbitrary: k m)
  case (Suc n)
  then show ?case by (cases k) (auto split: io_outcome.splits)
qed simp

section \<open>Programs in memory\<close>

fun program_at :: "bytes \<Rightarrow> u32 \<Rightarrow> instr list \<Rightarrow> bool" where
  "program_at b a [] \<longleftrightarrow> True"
| "program_at b a (d # ds) \<longleftrightarrow> instr_at b a d \<and> program_at b (a + 4) ds"

text \<open>The machine is before the instruction \<open>d\<close>, and executes it.\<close>

lemma io_run_at:
  "instr_at (i_mem (io_cpu m)) (i_pc (io_cpu m)) d \<Longrightarrow>
    io_run (Suc n) m = (case io_advance (io_exec d m) of Io_running k \<Rightarrow> io_run n k | r \<Rightarrow> r)"
  by (simp add: io_step_at)

definition puts_code :: "instr list" where
  "puts_code =
    [Load 1 False 5 1 0,
     Branch CEQ 5 0 12,
     Store 1 5 2 4,
     Op_imm Add 1 1 1,
     Branch CEQ 0 0 (- 20),
     Store 1 0 3 0]"

text \<open>The characters of a string in RAM, up to its zero byte.\<close>

primrec string_at :: "bytes \<Rightarrow> u32 \<Rightarrow> u8 list \<Rightarrow> bool" where
  "string_at b a [] \<longleftrightarrow> 0x1000 \<le> unat a \<and> in_ram (phys_addr a) 1 \<and> b (phys_addr a) = 0"
| "string_at b a (c # cs) \<longleftrightarrow>
     c \<noteq> 0 \<and> 0x1000 \<le> unat a \<and> in_ram (phys_addr a) 1 \<and> b (phys_addr a) = c \<and> string_at b (a + 1) cs"

text \<open>The registers of both programs: \<open>x0\<close> is zero, \<open>x2\<close> is the UART and \<open>x3\<close> the trap.\<close>

definition loop_ready :: "instr list \<Rightarrow> u32 \<Rightarrow> io \<Rightarrow> bool" where
  "loop_ready code b m \<longleftrightarrow> program_at (i_mem (io_cpu m)) b code \<and> i_pc (io_cpu m) = b
     \<and> i_gpr (io_cpu m) 0 = 0 \<and> i_gpr (io_cpu m) 2 = 0xBFE50000 \<and> i_gpr (io_cpu m) 3 = 0x10000000"

definition puts_ready :: "u32 \<Rightarrow> io \<Rightarrow> u8 list \<Rightarrow> bool" where
  "puts_ready b m cs \<longleftrightarrow> loop_ready puts_code b m \<and> string_at (i_mem (io_cpu m)) (i_gpr (io_cpu m) 1) cs"

lemma alu_add: "alu Add x y = x + y"
  by (simp add: simple_alu(1))

lemma device_addresses:
  "phys_addr 0xBFE50000 = 0x1fe50000" "phys_addr 0xBFE50004 = 0x1fe50004" "phys_addr 0xBFE50008 = 0x1fe50008"
  "phys_addr 0x10000000 = 0x10000000"
  by (simp_all add: phys_addr_def)

text \<open>What evaluates an instruction.\<close>

lemmas exec_simps = io_exec_def isa_access_def load_extend_def io_next_def next_pc_def set_reg_def isa_alu_def
  alu_fault.simps io_store_def io_load_def in_ram_def device_addresses alu_add

lemma puts_round:
  assumes "puts_ready b m (c # cs)"
  shows "io_run 5 m = Io_running (m\<lparr>io_tx := io_tx m @ [c], io_cpu := (io_cpu m)\<lparr>i_gpr :=
    (i_gpr (io_cpu m))(5 := ucast c, 1 := i_gpr (io_cpu m) 1 + 1)\<rparr>\<rparr>)"
proof -
  have code: "instr_at (i_mem (io_cpu m)) b (Load 1 False 5 1 0)"
    "instr_at (i_mem (io_cpu m)) (b + 4) (Branch CEQ 5 0 12)"
    "instr_at (i_mem (io_cpu m)) (b + 8) (Store 1 5 2 4)"
    "instr_at (i_mem (io_cpu m)) (b + 12) (Op_imm Add 1 1 1)"
    "instr_at (i_mem (io_cpu m)) (b + 16) (Branch CEQ 0 0 (- 20))"
    using assms by (simp_all add: puts_ready_def loop_ready_def puts_code_def add.assoc)
  have r: "i_pc (io_cpu m) = b" "i_gpr (io_cpu m) 0 = 0" "i_gpr (io_cpu m) 2 = 0xBFE50000"
    and c: "c \<noteq> 0" "0x1000 \<le> unat (i_gpr (io_cpu m) 1)" "in_ram (phys_addr (i_gpr (io_cpu m) 1)) 1"
      "i_mem (io_cpu m) (phys_addr (i_gpr (io_cpu m) 1)) = c"
    using assms by (simp_all add: puts_ready_def loop_ready_def)
  have low: "(ucast (ucast c :: u32) :: u8) = c" by (rule bit_word_eqI) (auto simp: bit_simps)
  with c(1) have nz: "(ucast c :: u32) \<noteq> 0" by auto
  let ?at = "\<lambda>a f x. m\<lparr>io_tx := x, io_cpu := (io_cpu m)\<lparr>i_gpr := f, i_pc := a\<rparr>\<rparr>"
  let ?x5 = "(i_gpr (io_cpu m))(5 := ucast c)" and ?tx = "io_tx m @ [c]"
  let ?x1 = "?x5(1 := i_gpr (io_cpu m) 1 + 1)"
  have "io_step m = Io_running (?at (b + 4) ?x5 (io_tx m))"
    by (subst io_step_at [OF code(1) [folded r(1)]]) (use r c in \<open>simp add: exec_simps\<close>)
  moreover have "io_step (?at (b + 4) ?x5 (io_tx m)) = Io_running (?at (b + 8) ?x5 (io_tx m))"
    by (subst io_step_at [of _ "Branch CEQ 5 0 12"]) (use code(2) r nz in \<open>simp_all add: exec_simps\<close>)
  moreover have "io_step (?at (b + 8) ?x5 (io_tx m)) = Io_running (?at (b + 12) ?x5 ?tx)"
    by (subst io_step_at [of _ "Store 1 5 2 4"]) (use code(3) r low in \<open>simp_all add: exec_simps\<close>)
  moreover have "io_step (?at (b + 12) ?x5 ?tx) = Io_running (?at (b + 16) ?x1 ?tx)"
    by (subst io_step_at [of _ "Op_imm Add 1 1 1"]) (use code(4) in \<open>simp_all add: exec_simps\<close>)
  moreover have "io_step (?at (b + 16) ?x1 ?tx) = Io_running (?at b ?x1 ?tx)"
    by (subst io_step_at [of _ "Branch CEQ 0 0 (- 20)"]) (use code(5) in \<open>simp_all add: exec_simps\<close>)
  moreover have "(io_cpu m)\<lparr>i_gpr := f, i_pc := b\<rparr> = (io_cpu m)\<lparr>i_gpr := f\<rparr>" for f
    using r(1) by (cases "io_cpu m") simp
  ultimately show ?thesis by (simp add: eval_nat_numeral)
qed

text \<open>The last instruction of both programs.\<close>

lemma trap_zero:
  assumes "instr_at (i_mem (io_cpu m)) (i_pc (io_cpu m)) (Store 1 0 3 0)"
    and "i_gpr (io_cpu m) 0 = 0" "i_gpr (io_cpu m) 3 = 0x10000000"
  shows "io_step m = Io_trap 0 (if io_batch m then m else io_next m)"
  by (subst io_step_at [OF assms(1)]) (use assms(2,3) in \<open>simp add: exec_simps(1,2,8-)\<close>)

lemma puts_last:
  assumes "puts_ready b m []"
  shows "\<exists>k. io_run 3 m = Io_trap 0 k \<and> io_tx k = io_tx m \<and> i_mem (io_cpu k) = i_mem (io_cpu m)
    \<and> io_batch k = io_batch m"
proof -
  have code: "instr_at (i_mem (io_cpu m)) b (Load 1 False 5 1 0)"
    "instr_at (i_mem (io_cpu m)) (b + 4) (Branch CEQ 5 0 12)"
    "instr_at (i_mem (io_cpu m)) (b + 20) (Store 1 0 3 0)"
    using assms by (simp_all add: puts_ready_def loop_ready_def puts_code_def add.assoc)
  have r: "i_pc (io_cpu m) = b" "i_gpr (io_cpu m) 0 = 0" "i_gpr (io_cpu m) 3 = 0x10000000"
    and c: "0x1000 \<le> unat (i_gpr (io_cpu m) 1)" "in_ram (phys_addr (i_gpr (io_cpu m) 1)) 1"
      "i_mem (io_cpu m) (phys_addr (i_gpr (io_cpu m) 1)) = 0"
    using assms by (simp_all add: puts_ready_def loop_ready_def)
  let ?at = "\<lambda>a. m\<lparr>io_cpu := (io_cpu m)\<lparr>i_gpr := (i_gpr (io_cpu m))(5 := 0), i_pc := a\<rparr>\<rparr>"
  have "io_step m = Io_running (?at (b + 4))"
    by (subst io_step_at [OF code(1) [folded r(1)]]) (use r c in \<open>simp add: exec_simps\<close>)
  moreover have "io_step (?at (b + 4)) = Io_running (?at (b + 20))"
    by (subst io_step_at [of _ "Branch CEQ 5 0 12"]) (use code(2) r in \<open>simp_all add: exec_simps\<close>)
  moreover have "io_step (?at (b + 20)) = Io_trap 0 (if io_batch m then ?at (b + 20) else io_next (?at (b + 20)))"
    by (subst trap_zero) (use code(3) r in simp_all)
  ultimately show ?thesis by (simp add: eval_nat_numeral io_next_def next_pc_def)
qed

interpretation puts: character_loop "puts_ready b" "\<lambda>c. c" 5 3 for b
proof unfold_locales
  fix m c cs
  assume ready: "puts_ready b m (c # cs)"
  then show "\<exists>k. io_run 5 m = Io_running k \<and> puts_ready b k cs \<and> io_tx k = io_tx m @ [c]
      \<and> i_mem (io_cpu k) = i_mem (io_cpu m) \<and> io_batch k = io_batch m"
    by (simp add: puts_round [OF ready]) (simp add: puts_ready_def loop_ready_def)
next
  fix m
  assume "puts_ready b m []"
  then show "\<exists>k. io_run 3 m = Io_trap 0 k \<and> io_tx k = io_tx m \<and> i_mem (io_cpu k) = i_mem (io_cpu m)
      \<and> io_batch k = io_batch m"
    by (rule puts_last)
qed

text \<open>Sending back what the UART received, until nothing is left.\<close>

definition echo_code :: "instr list" where
  "echo_code =
    [Load 4 False 5 2 8,
     Branch CEQ 5 0 12,
     Load 4 False 5 2 0,
     Store 1 5 2 4,
     Branch CEQ 0 0 (- 20),
     Store 1 0 3 0]"

definition echo_ready :: "u32 \<Rightarrow> io \<Rightarrow> int list \<Rightarrow> bool" where
  "echo_ready b m cs \<longleftrightarrow> loop_ready echo_code b m \<and> io_rx m = cs"

lemma echo_round:
  assumes "echo_ready b m (c # cs)"
  shows "io_run 5 m = Io_running (m\<lparr>io_rx := cs, io_tx := io_tx m @ [word_of_int c],
    io_cpu := (io_cpu m)\<lparr>i_gpr := (i_gpr (io_cpu m))(5 := word_of_int c)\<rparr>\<rparr>)"
proof -
  have code: "instr_at (i_mem (io_cpu m)) b (Load 4 False 5 2 8)"
    "instr_at (i_mem (io_cpu m)) (b + 4) (Branch CEQ 5 0 12)"
    "instr_at (i_mem (io_cpu m)) (b + 8) (Load 4 False 5 2 0)"
    "instr_at (i_mem (io_cpu m)) (b + 12) (Store 1 5 2 4)"
    "instr_at (i_mem (io_cpu m)) (b + 16) (Branch CEQ 0 0 (- 20))"
    using assms by (simp_all add: echo_ready_def loop_ready_def echo_code_def add.assoc)
  have r: "i_pc (io_cpu m) = b" "i_gpr (io_cpu m) 0 = 0" "i_gpr (io_cpu m) 2 = 0xBFE50000" "io_rx m = c # cs"
    using assms by (simp_all add: echo_ready_def loop_ready_def)
  have low: "(ucast (word_of_int c :: u32) :: u8) = word_of_int c" by (rule bit_word_eqI) (auto simp: bit_simps)
  let ?at = "\<lambda>a v q x. m\<lparr>io_rx := q, io_tx := x, io_cpu := (io_cpu m)\<lparr>i_gpr := (i_gpr (io_cpu m))(5 := v), i_pc := a\<rparr>\<rparr>"
  let ?tx = "io_tx m @ [word_of_int c]"
  have "io_step m = Io_running (?at (b + 4) 1 (c # cs) (io_tx m))"
    by (subst io_step_at [OF code(1) [folded r(1)]]) (use r in \<open>simp add: exec_simps\<close>)
  moreover have "io_step (?at (b + 4) 1 (c # cs) (io_tx m)) = Io_running (?at (b + 8) 1 (c # cs) (io_tx m))"
    by (subst io_step_at [of _ "Branch CEQ 5 0 12"]) (use code(2) r in \<open>simp_all add: exec_simps\<close>)
  moreover have "io_step (?at (b + 8) 1 (c # cs) (io_tx m)) = Io_running (?at (b + 12) (word_of_int c) cs (io_tx m))"
    by (subst io_step_at [of _ "Load 4 False 5 2 0"]) (use code(3) r in \<open>simp_all add: exec_simps\<close>)
  moreover have "io_step (?at (b + 12) (word_of_int c) cs (io_tx m)) = Io_running (?at (b + 16) (word_of_int c) cs ?tx)"
    by (subst io_step_at [of _ "Store 1 5 2 4"]) (use code(4) r low in \<open>simp_all add: exec_simps\<close>)
  moreover have "io_step (?at (b + 16) (word_of_int c) cs ?tx) = Io_running (?at b (word_of_int c) cs ?tx)"
    by (subst io_step_at [of _ "Branch CEQ 0 0 (- 20)"]) (use code(5) in \<open>simp_all add: exec_simps\<close>)
  moreover have "(io_cpu m)\<lparr>i_gpr := f, i_pc := b\<rparr> = (io_cpu m)\<lparr>i_gpr := f\<rparr>" for f
    using r(1) by (cases "io_cpu m") simp
  ultimately show ?thesis by (simp add: eval_nat_numeral)
qed

lemma echo_last:
  assumes "echo_ready b m []"
  shows "\<exists>k. io_run 3 m = Io_trap 0 k \<and> io_tx k = io_tx m \<and> i_mem (io_cpu k) = i_mem (io_cpu m)
    \<and> io_batch k = io_batch m"
proof -
  have code: "instr_at (i_mem (io_cpu m)) b (Load 4 False 5 2 8)"
    "instr_at (i_mem (io_cpu m)) (b + 4) (Branch CEQ 5 0 12)"
    "instr_at (i_mem (io_cpu m)) (b + 20) (Store 1 0 3 0)"
    using assms by (simp_all add: echo_ready_def loop_ready_def echo_code_def add.assoc)
  have r: "i_pc (io_cpu m) = b" "i_gpr (io_cpu m) 0 = 0" "i_gpr (io_cpu m) 2 = 0xBFE50000"
    "i_gpr (io_cpu m) 3 = 0x10000000" "io_rx m = []"
    using assms by (simp_all add: echo_ready_def loop_ready_def)
  let ?at = "\<lambda>a. m\<lparr>io_cpu := (io_cpu m)\<lparr>i_gpr := (i_gpr (io_cpu m))(5 := 0), i_pc := a\<rparr>\<rparr>"
  have "io_step m = Io_running (?at (b + 4))"
    by (subst io_step_at [OF code(1) [folded r(1)]]) (use r in \<open>simp add: exec_simps\<close>)
  moreover have "io_step (?at (b + 4)) = Io_running (?at (b + 20))"
    by (subst io_step_at [of _ "Branch CEQ 5 0 12"]) (use code(2) r in \<open>simp_all add: exec_simps\<close>)
  moreover have "io_step (?at (b + 20)) = Io_trap 0 (if io_batch m then ?at (b + 20) else io_next (?at (b + 20)))"
    by (subst trap_zero) (use code(3) r in simp_all)
  ultimately show ?thesis by (simp add: eval_nat_numeral io_next_def next_pc_def)
qed

interpretation echo: character_loop "echo_ready b" word_of_int 5 3 for b
proof unfold_locales
  fix m c cs
  assume ready: "echo_ready b m (c # cs)"
  then show "\<exists>k. io_run 5 m = Io_running k \<and> echo_ready b k cs \<and> io_tx k = io_tx m @ [word_of_int c]
      \<and> i_mem (io_cpu k) = i_mem (io_cpu m) \<and> io_batch k = io_batch m"
    by (simp add: echo_round [OF ready]) (simp add: echo_ready_def loop_ready_def)
next
  fix m
  assume "echo_ready b m []"
  then show "\<exists>k. io_run 3 m = Io_trap 0 k \<and> io_tx k = io_tx m \<and> i_mem (io_cpu k) = i_mem (io_cpu m)
      \<and> io_batch k = io_batch m"
    by (rule echo_last)
qed

section \<open>On the emulator\<close>

text \<open>A run of the specification that ends in the trap is a call of \<open>cpu_exec\<close> that ends there.\<close>

lemma cpu_exec_trap:
  assumes "traced s" "machine_wf s" "nemu_state (m_mon s) \<noteq> NEMU_END"
    and "io_run k (io_of s) = Io_trap c m" "k \<le> unat n" "io_batch m = io_batch (io_of s)"
  shows "\<exists>t. cpu_exec n s = (if odd (work_mode (m_mon s)) then Inl (Exit 0) else Inr (), t)
    \<and> io_of t = m \<and> nemu_state (m_mon t) = NEMU_END \<and> trap_line c \<in> set (mon_err (m_mon t))"
proof -
  have "io_run (unat n) (io_of s) = Io_trap c m" using io_run_trap assms(4,5) by blast
  then show ?thesis
    using cpu_exec_leaves [OF assms(1-3), of n] assms(6) by (cases "cpu_exec n s") (auto simp: seen_as_def)
qed

text \<open>The emulator is about to run one of the two programs.\<close>

definition guest_ready :: "instr list \<Rightarrow> machine \<Rightarrow> bool" where
  "guest_ready code s \<longleftrightarrow> traced s \<and> machine_wf s \<and> nemu_state (m_mon s) \<noteq> NEMU_END
     \<and> program_at (phys s) (get_pc s) code
     \<and> get_gpr 0 s = 0 \<and> get_gpr 2 s = 0xBFE50000 \<and> get_gpr 3 s = 0x10000000"

lemma guest_loop: "guest_ready code s \<Longrightarrow> loop_ready code (get_pc s) (io_of s)"
  by (simp add: guest_ready_def loop_ready_def)

lemma guest_trap:
  assumes "guest_ready code s" "k \<le> unat n"
    and "\<exists>m. io_run k (io_of s) = Io_trap 0 m \<and> io_tx m = io_tx (io_of s) @ out
      \<and> i_mem (io_cpu m) = i_mem (io_cpu (io_of s)) \<and> io_batch m = io_batch (io_of s)"
  shows "\<exists>t. cpu_exec n s = (if odd (work_mode (m_mon s)) then Inl (Exit 0) else Inr (), t)
    \<and> uart_tx (m_uart t) = uart_tx (m_uart s) @ out \<and> phys t = phys s
    \<and> nemu_state (m_mon t) = NEMU_END \<and> trap_line 0 \<in> set (mon_err (m_mon t))"
proof -
  obtain m where m: "io_run k (io_of s) = Io_trap 0 m" "io_tx m = uart_tx (m_uart s) @ out"
    "i_mem (io_cpu m) = phys s" "io_batch m = io_batch (io_of s)"
    using assms(3) by auto
  from cpu_exec_trap [OF _ _ _ m(1) assms(2) m(4)] assms(1)
  obtain t where "cpu_exec n s = (if odd (work_mode (m_mon s)) then Inl (Exit 0) else Inr (), t)"
    "io_of t = m" "nemu_state (m_mon t) = NEMU_END" "trap_line 0 \<in> set (mon_err (m_mon t))"
    by (auto simp: guest_ready_def)
  with m(2,3) show ?thesis by auto
qed

section \<open>Assembled programs\<close>

text \<open>Words written one after the other.\<close>

primrec store_words :: "nat \<Rightarrow> u32 list \<Rightarrow> bytes \<Rightarrow> bytes" where
  "store_words p [] b = b"
| "store_words p (w # ws) b = store_le (store_words (p + 4) ws b) p 4 w"

lemma store_words_load:
  "i < length ws \<Longrightarrow> load_le (store_words p ws b) (p + 4 * i) 4 = ws ! i"
proof (induction ws arbitrary: p i)
  case (Cons w ws)
  then show ?case
  proof (cases i)
    case 0
    then show ?thesis by (simp add: load_store_same take_bit_word_eq_self)
  next
    case (Suc j)
    then show ?thesis
      using Cons.IH [of j "p + 4"] Cons.prems by (simp add: load_store_other add.assoc)
  qed
qed simp

lemma store_words_other: "q < p \<Longrightarrow> store_words p ws b q = b q"
  by (induction ws arbitrary: p) (simp_all add: store_le_other)

text \<open>An assembled program is one that the machine fetches.\<close>

lemma program_assembled:
  assumes "\<forall>i < length ds. load_le b (p + 4 * i) 4 = encode (ds ! i) \<and> encodable (ds ! i)"
    and "p mod 4 = 0" "0x1000 \<le> p" "p + 4 * length ds \<le> 0x8000000" "unat a = 0x80000000 + p"
  shows "program_at b a ds"
  using assms
proof (induction ds arbitrary: a p)
  case (Cons d ds)
  have pa: "phys_addr a = p" using Cons.prems(4,5) by (simp add: phys_addr_def mod_if)
  have "decode (load_le b p 4) = d" using Cons.prems(1) by (auto simp: decode_encode)
  moreover have "unat a mod 4 = 0" using Cons.prems(2,5) by presburger
  ultimately have here: "instr_at b a d" using Cons.prems(4,5) pa by (simp add: instr_at_def in_ram_def)
  have "\<forall>i < length ds. load_le b (p + 4 + 4 * i) 4 = encode (ds ! i) \<and> encodable (ds ! i)"
    using Cons.prems(1) by (force simp: add.assoc)
  moreover have "unat (a + 4) = 0x80000000 + (p + 4)"
    using Cons.prems(4,5) by (simp add: unat_word_ariths)
  ultimately have "program_at b (a + 4) ds"
    using Cons.prems(2-4) by (intro Cons.IH [of "p + 4"]) (simp_all add: mod_add_eq)
  with here show ?case by simp
qed simp

text \<open>A machine with one of the programs at 0x80001000, and a text at \<open>x1\<close>.\<close>

definition guest_machine :: "instr list \<Rightarrow> u8 list \<Rightarrow> machine" where
  "guest_machine code text = set_gpr 1 0x80000000 (set_gpr 2 0xBFE50000 (set_gpr 3 0x10000000 (machine_traced\<lparr>
     m_cpu := (m_cpu machine_init)\<lparr>pc := 0x80001000\<rparr>,
     m_ddr := \<lparr>ddr = store_words 0x1000 (map encode code) (\<lambda>i. if i < length text then text ! i else 0),
       ddr_mapped_size = 0\<rparr>\<rparr>)))"

lemma guest_machine_ready:
  assumes "\<forall>d \<in> set code. encodable d" "length code \<le> 100"
  shows "guest_ready code (guest_machine code text)" "work_mode (m_mon (guest_machine code text)) = 0"
    "m_uart (guest_machine code text) = serial_init"
proof -
  let ?s = "guest_machine code text"
  let ?b = "store_words 0x1000 (map encode code) (\<lambda>i. if i < length text then text ! i else 0)"
  have phys: "phys ?s i = ?b i" if "i < 0x8000000" for i
    using that by (simp add: phys_def guest_machine_def set_gpr_def)
  have "load_le (phys ?s) (0x1000 + 4 * i) 4 = encode (code ! i) \<and> encodable (code ! i)" if "i < length code" for i
  proof -
    have "load_le (phys ?s) (0x1000 + 4 * i) 4 = load_le ?b (0x1000 + 4 * i) 4"
      using that assms(2) by (intro load_le_cong phys) simp
    then show ?thesis using store_words_load [of i "map encode code" "0x1000"] that assms(1) by simp
  qed
  moreover have pc: "get_pc ?s = 0x80001000" by (simp add: guest_machine_def) (simp add: get_pc_def)
  ultimately have "program_at (phys ?s) (get_pc ?s) code"
    using assms(2) by (intro program_assembled [of _ _ "0x1000"]) simp_all
  moreover have "traced ?s" using tracer_started by (auto simp: traced_def guest_machine_def machine_traced_def set_gpr_def)
  moreover have "machine_wf ?s" using machine_init_wf by (simp add: guest_machine_def machine_traced_def machine_wf_def set_gpr_def)
  moreover have "get_gpr 0 ?s = 0" "get_gpr 2 ?s = 0xBFE50000" "get_gpr 3 ?s = 0x10000000"
    by (simp_all add: guest_machine_def) (simp add: get_gpr_def machine_init_def)
  moreover have mon: "m_mon ?s = m_mon machine_init" "m_uart ?s = m_uart machine_init"
    by (simp_all add: guest_machine_def machine_traced_def set_gpr_def)
  ultimately show "guest_ready code ?s"
    unfolding guest_ready_def by (simp add: machine_init_def)
  show "work_mode (m_mon ?s) = 0" "m_uart ?s = serial_init"
    using mon by (simp_all add: machine_init_def)
qed

lemma puts_encodable: "\<forall>d \<in> set puts_code. encodable d" "length puts_code \<le> 100"
  "\<forall>d \<in> set echo_code. encodable d" "length echo_code \<le> 100"
  by (simp_all add: puts_code_def echo_code_def store_offset_def branch_imm_def)

section \<open>Properties\<close>

text \<open>
  C6: A guest program that prints a string works: six instructions in RAM, whose loop loads a byte,
  stores it to the UART and goes on until the byte is zero, print on the emulator any
  zero-terminated string in RAM, whatever its length, and end in the good trap; five
  instructions for each character and three more are enough.
\<close>

theorem guest_puts:
  assumes "guest_ready puts_code s" "string_at (phys s) (get_gpr 1 s) cs" "5 * length cs + 3 \<le> unat n"
  shows "\<exists>t. cpu_exec n s = (if odd (work_mode (m_mon s)) then Inl (Exit 0) else Inr (), t)
    \<and> uart_tx (m_uart t) = uart_tx (m_uart s) @ cs \<and> phys t = phys s
    \<and> nemu_state (m_mon t) = NEMU_END \<and> trap_line 0 \<in> set (mon_err (m_mon t))"
proof -
  have "puts_ready (get_pc s) (io_of s) cs"
    using guest_loop [OF assms(1)] assms(2) by (simp add: puts_ready_def)
  from puts.runs [OF this] show ?thesis
    by (intro guest_trap [OF assms(1,3)]) simp
qed

lemma greeting: "string_at (phys (guest_machine puts_code [72, 105])) (get_gpr 1 (guest_machine puts_code [72, 105])) [72, 105]"
proof -
  have "phys (guest_machine puts_code [72, 105]) i = (if i < 2 then [72, 105] ! i else 0)" if "i < 0x1000" for i
    using that by (simp add: phys_def guest_machine_def set_gpr_def store_words_other)
  moreover have "get_gpr 1 (guest_machine puts_code [72, 105]) = 0x80000000" by (simp add: guest_machine_def)
  ultimately show ?thesis by (simp add: phys_addr_def in_ram_def)
qed

theorem guest_puts_witness:
  "\<exists>t. cpu_exec 13 (guest_machine puts_code [72, 105]) = (Inr (), t) \<and> uart_tx (m_uart t) = [72, 105]"
  using guest_puts [OF guest_machine_ready(1) [OF puts_encodable(1,2)] greeting, of 13]
    guest_machine_ready(2,3) [OF puts_encodable(1,2), of "[72, 105]"]
  by (auto simp: serial_init_def)

section \<open>From the keyboard to the terminal\<close>

text \<open>Pressing and releasing keys, one event for each tick.\<close>

primrec key_strokes :: "sdl_event \<Rightarrow> int list \<Rightarrow> (sdl_event option \<times> sdl_event) list" where
  "key_strokes e [] = []"
| "key_strokes e (k # ks) = (Some \<lparr>ev_type = SDL_KEYDOWN, ev_key = k\<rparr>, e)
     # (Some \<lparr>ev_type = SDL_KEYUP, ev_key = k\<rparr>, e) # key_strokes e ks"

definition typed_text :: "sdl_env \<Rightarrow> int list \<Rightarrow> string" where
  "typed_text sdl ks = concat (map (\<lambda>k. SDLK_to_ascii (key_name sdl k)) ks)"

lemma serial_stroke:
  assumes "serial_wf u" "0 \<le> k" "k < sdlk_last sdl" "\<not> sdlk_state u k"
  defines "v \<equiv> serial_enqueue sdl SDL_KEYUP k (serial_enqueue sdl SDL_KEYDOWN k u)"
  shows "rx_chars v = take 1023 (rx_chars u @ map int_of_c_char (SDLK_to_ascii (key_name sdl k)))"
    and "sdlk_state v = sdlk_state u" "uart_tx v = uart_tx u"
proof -
  have frame: "sdlk_state (serial_enqueue_loop p x) = sdlk_state x" "uart_tx (serial_enqueue_loop p x) = uart_tx x" for p x
    by (induction p x rule: serial_enqueue_loop.induct) (simp_all add: Let_def)
  show "rx_chars v = take 1023 (rx_chars u @ map int_of_c_char (SDLK_to_ascii (key_name sdl k)))"
    "sdlk_state v = sdlk_state u" "uart_tx v = uart_tx u"
    using assms by (auto simp: v_def serial_enqueue_def Let_def frame rx_enqueue_loop(1) fun_eq_iff)
qed

text \<open>What ticks leave alone.\<close>

definition undisturbed :: "machine \<Rightarrow> machine \<Rightarrow> bool" where
  "undisturbed s t \<longleftrightarrow> isa_of t = isa_of s \<and> m_trace t = m_trace s
     \<and> nemu_state (m_mon t) = nemu_state (m_mon s) \<and> work_mode (m_mon t) = work_mode (m_mon s)
     \<and> (machine_wf s \<longrightarrow> machine_wf t)"

lemma tick_undisturbed: "device_update sdl polled stale 0 s = (Inr (), t) \<Longrightarrow> undisturbed s t"
  using tick_view [of sdl polled stale s t] tick_mode [of sdl polled stale s t]
    keepsD [OF device_update_wf, of s sdl polled stale 0 "Inr ()" t]
  by (simp add: undisturbed_def)

lemma undisturbed_trans: "undisturbed s t \<Longrightarrow> undisturbed t u \<Longrightarrow> undisturbed s u"
  by (simp add: undisturbed_def)

lemma take_take_append: "take n (take n xs @ ys) = take n (xs @ ys)"
  by (cases "length xs \<le> n") simp_all

lemma ticks_strokes:
  assumes "machine_wf s" "\<forall>k \<in> set ks. 0 \<le> k \<and> k < sdlk_last sdl \<and> \<not> sdlk_state (m_uart s) k"
  shows "\<exists>t. ticks sdl (key_strokes e ks) s = (Inr (), t) \<and> undisturbed s t
    \<and> rx_chars (m_uart t) = take 1023 (rx_chars (m_uart s) @ map int_of_c_char (typed_text sdl ks))
    \<and> uart_tx (m_uart t) = uart_tx (m_uart s)"
  using assms
proof (induction ks arbitrary: s)
  case Nil
  then have "length (rx_chars (m_uart s)) \<le> 1023" using queue_bounds(1) by (simp add: machine_wf_def)
  then show ?case by (simp add: typed_text_def op_simps undisturbed_def)
next
  case (Cons k ks)
  let ?dn = "\<lparr>ev_type = SDL_KEYDOWN, ev_key = k\<rparr>" and ?up = "\<lparr>ev_type = SDL_KEYUP, ev_key = k\<rparr>"
  obtain t where t: "device_update sdl (Some ?dn) e 0 s = (Inr (), t)"
    "m_uart t = serial_enqueue sdl SDL_KEYDOWN k (m_uart s)"
    using device_update_key [where polled = "Some ?dn" and stale = e and sdl = sdl and s = s] by auto
  obtain u where u: "device_update sdl (Some ?up) e 0 t = (Inr (), u)"
    "m_uart u = serial_enqueue sdl SDL_KEYUP k (m_uart t)"
    using device_update_key [where polled = "Some ?up" and stale = e and sdl = sdl and s = t] by auto
  have calm: "undisturbed s u"
    using tick_undisturbed [OF t(1)] tick_undisturbed [OF u(1)] by (rule undisturbed_trans)
  then have wf: "machine_wf u" using Cons.prems(1) by (simp add: undisturbed_def)
  have "serial_wf (m_uart s)" "0 \<le> k" "k < sdlk_last sdl" "\<not> sdlk_state (m_uart s) k"
    using Cons.prems by (simp_all add: machine_wf_def)
  note stroke = serial_stroke [OF this, folded t(2), folded u(2)]
  have "\<forall>k \<in> set ks. 0 \<le> k \<and> k < sdlk_last sdl \<and> \<not> sdlk_state (m_uart u) k"
    using Cons.prems(2) stroke(2) by simp
  from Cons.IH [OF wf this] obtain v where v: "ticks sdl (key_strokes e ks) u = (Inr (), v)" "undisturbed u v"
    "rx_chars (m_uart v) = take 1023 (rx_chars (m_uart u) @ map int_of_c_char (typed_text sdl ks))"
    "uart_tx (m_uart v) = uart_tx (m_uart u)" by blast
  have "typed_text sdl (k # ks) = SDLK_to_ascii (key_name sdl k) @ typed_text sdl ks"
    by (simp add: typed_text_def)
  then have "rx_chars (m_uart v) = take 1023 (rx_chars (m_uart s) @ map int_of_c_char (typed_text sdl (k # ks)))"
    by (simp only: v(3) stroke(1) take_take_append map_append append_assoc)
  moreover have "ticks sdl (key_strokes e (k # ks)) s = (Inr (), v)" using t(1) u(1) v(1) by (simp add: op_simps)
  ultimately show ?case using undisturbed_trans [OF calm v(2)] v(4) stroke(3) by auto
qed

lemma char_byte: "word_of_int (int_of_c_char c) = (of_char c :: u8)"
proof -
  have "word_of_int (x - 256) = (word_of_int x :: u8)" for x
    by (rule word_of_int_eq_iff [THEN iffD2]) (simp add: take_bit_eq_mod)
  then show ?thesis by (simp add: int_of_c_char_def Let_def of_char_def)
qed

text \<open>
  C7: What the user types is what the terminal shows: when keys are pressed and released, one event
  for each tick, and then a guest program of six instructions runs that polls the UART's status,
  reads the receive register and stores to the transmit register until nothing is left,
  the emulator prints exactly the characters of the keys, in the order typed, and ends in the
  good trap, as long as they are at most 1023.
\<close>

theorem typed_is_printed:
  assumes "guest_ready echo_code s" "rx_chars (m_uart s) = []"
    and "\<forall>k \<in> set ks. 0 \<le> k \<and> k < sdlk_last sdl \<and> \<not> sdlk_state (m_uart s) k"
    and "length (typed_text sdl ks) \<le> 1023" "5 * length (typed_text sdl ks) + 3 \<le> unat n"
  shows "\<exists>t u. ticks sdl (key_strokes e ks) s = (Inr (), t)
    \<and> cpu_exec n t = (if odd (work_mode (m_mon s)) then Inl (Exit 0) else Inr (), u)
    \<and> uart_tx (m_uart u) = uart_tx (m_uart s) @ map of_char (typed_text sdl ks)
    \<and> nemu_state (m_mon u) = NEMU_END \<and> trap_line 0 \<in> set (mon_err (m_mon u))"
proof -
  have "machine_wf s" using assms(1) by (simp add: guest_ready_def)
  from ticks_strokes [OF this assms(3), of e] assms(2,4)
  obtain t where t: "ticks sdl (key_strokes e ks) s = (Inr (), t)" "undisturbed s t"
    "rx_chars (m_uart t) = map int_of_c_char (typed_text sdl ks)" "uart_tx (m_uart t) = uart_tx (m_uart s)"
    by auto
  have view: "isa_of t = isa_of s" using t(2) by (simp add: undisturbed_def)
  have ready: "guest_ready echo_code t"
    using assms(1) t(2) isa_view [OF view] by (simp add: guest_ready_def undisturbed_def traced_def)
  have "echo_ready (get_pc t) (io_of t) (map int_of_c_char (typed_text sdl ks))"
    using guest_loop [OF ready] t(3) by (simp add: echo_ready_def)
  from echo.runs [OF this] have "\<exists>m. io_run (5 * length (typed_text sdl ks) + 3) (io_of t) = Io_trap 0 m
      \<and> io_tx m = io_tx (io_of t) @ map of_char (typed_text sdl ks)
      \<and> i_mem (io_cpu m) = i_mem (io_cpu (io_of t)) \<and> io_batch m = io_batch (io_of t)"
    by (simp add: char_byte comp_def)
  from guest_trap [OF ready assms(5) this] t(1,4) show ?thesis
    using t(2) by (auto simp: undisturbed_def)
qed

theorem typed_is_printed_witness:
  "\<exists>t u. ticks sdl_example (key_strokes \<lparr>ev_type = SDL_OTHER, ev_key = 0\<rparr> [273, 273]) (guest_machine echo_code []) = (Inr (), t)
    \<and> cpu_exec 33 t = (Inr (), u) \<and> uart_tx (m_uart u) = [27, 91, 65, 27, 91, 65]"
proof -
  have "SDLK_to_ascii ''SDLK_UP'' = CHR 0x1B # ''[A''" by code_simp
  then have keys: "typed_text sdl_example [273, 273] = [CHR 0x1B, CHR ''['', CHR ''A'', CHR 0x1B, CHR ''['', CHR ''A'']"
    by (simp add: typed_text_def serial_examples)
  note echo = guest_machine_ready [OF puts_encodable(3,4), of "[]"]
  show ?thesis
    using typed_is_printed [OF echo(1), of "[273, 273]" sdl_example 33 "\<lparr>ev_type = SDL_OTHER, ev_key = 0\<rparr>"]
    by (auto simp: keys echo(2,3) serial_examples) (simp add: serial_init_def)
qed

end
