(* ===== verification/Display.thy ===== *)
theory Display
  imports Events
begin

text \<open>
From the guest's store to the user's screen: halfwords stored to the frame buffer
  (\<^verbatim>\<open>src/dev/video.c\<close>) and the timer tick that copies it to the window.
\<close>

unbundle bit_operations_syntax

section \<open>The picture in the window\<close>

text \<open>The window shows what video memory holds.\<close>

definition shown :: "video_state \<Rightarrow> bool" where
  "shown c \<longleftrightarrow> (\<forall>y x. y < WINDOW_H \<longrightarrow> x < WINDOW_W \<longrightarrow>
     pixels c y x = RGB_M12_to_M32 (vmem_pixel (vmem c) (y div 2) (x div 2)))"

lemma device_update_picture:
  fixes s :: machine
  assumes "device_update sdl polled stale 0 s = (Inr (), t)"
  shows "vmem (m_vga t) = vmem (m_vga s)"
    and "shown (m_vga t) \<longleftrightarrow> shown (m_vga s) \<or> unat (jiffy s + 1) mod 4 = 0"
proof -
  let ?Q = "\<lambda>t. vmem (m_vga t) = vmem (m_vga s)
    \<and> (if unat (jiffy s + 1) mod 4 = 0 then shown (m_vga t) else m_vga t = m_vga s)"
  have scr: "wp update_screen (\<lambda>_ c'. vmem c' = vmem c \<and> shown c') (\<lambda>_ _. False) c" for c
    by (rule wp_mono [OF update_screen_wp]) (auto simp: shown_def rows_drawn_def)
  have "wp (device_update sdl polled stale 0) (\<lambda>_. ?Q) (\<lambda>_ _. True) s"
    by (cases "ev_type (case polled of Some e \<Rightarrow> e | None \<Rightarrow> stale)")
      (auto simp: device_update_def wp_simps on_vga_def on_mon_def Let_def jiffy_div
        intro!: wp_mono [OF scr])
  from wp_runD [OF this assms] show "vmem (m_vga t) = vmem (m_vga s)"
    "shown (m_vga t) \<longleftrightarrow> shown (m_vga s) \<or> unat (jiffy s + 1) mod 4 = 0"
    by (auto split: if_splits)
qed

lemma ticks_show:
  assumes "\<not> list_ex quits es"
  shows "\<exists>t. ticks sdl es s = (Inr (), t) \<and> vmem (m_vga t) = vmem (m_vga s)
    \<and> (shown (m_vga s) \<or> 4 \<le> unat (jiffy s) mod 4 + length es \<longrightarrow> shown (m_vga t))"
  using assms
proof (induction es arbitrary: s)
  case Nil
  have "unat (jiffy s) mod 4 < 4" by simp
  then have "\<not> 4 \<le> unat (jiffy s) mod 4" by linarith
  then show ?case by (simp add: op_simps)
next
  case (Cons e es)
  obtain r u where u: "device_update sdl (fst e) (snd e) 0 s = (r, u)" by (metis surj_pair)
  note tick = device_update_refresh [OF u]
  have ok: "device_update sdl (fst e) (snd e) 0 s = (Inr (), u)" using u tick Cons.prems by simp
  obtain t where t: "ticks sdl es u = (Inr (), t)" "vmem (m_vga t) = vmem (m_vga u)"
    "shown (m_vga u) \<or> 4 \<le> unat (jiffy u) mod 4 + length es \<longrightarrow> shown (m_vga t)"
    using Cons by auto
  have "unat (jiffy u) mod 4 = (if unat (jiffy s) mod 4 = 3 then 0 else Suc (unat (jiffy s) mod 4))"
    using tick next_jiffy [of "jiffy s"] by (simp add: mod_Suc)
  with t(3) device_update_picture(2) [OF ok] tick
  have "shown (m_vga s) \<or> 4 \<le> unat (jiffy s) mod 4 + length (e # es) \<longrightarrow> shown (m_vga t)"
    by (auto split: if_splits)
  with t(1,2) ok device_update_picture(1) [OF ok] show ?case by (simp add: op_simps)
qed

lemma small_offset: "n < 2 ^ 32 \<Longrightarrow> unat (word_of_nat n :: u32) = n"
  by (simp add: unat_of_nat)

lemma pixel_offset:
  assumes "i < SCR_H" "j < SCR_W"
  shows "unat (word_of_nat (2 * (i * SCR_W + j)) :: u32) = 2 * (i * SCR_W + j)"
    and "2 * (i * SCR_W + j) + 2 \<le> 240000"
proof -
  have "i \<le> 299" "j \<le> 399" using assms by simp_all
  then have "i * 400 + j \<le> 299 * 400 + 399" by (intro add_mono mult_right_mono) simp_all
  then show le: "2 * (i * SCR_W + j) + 2 \<le> 240000" by simp
  show "unat (word_of_nat (2 * (i * SCR_W + j)) :: u32) = 2 * (i * SCR_W + j)"
    by (rule small_offset) (use le in simp)
qed

text \<open>
  C31: What the guest draws is what the user sees: when it stores a halfword to a pixel of the frame
  buffer, then after any four timer ticks, whatever keys are pressed meanwhile, the two by two
  block of that pixel in the window has the halfword's colour.
\<close>

theorem pixel_displayed:
  assumes "flushed s" "i < SCR_H" "j < SCR_W" "\<not> list_ex quits es" "4 \<le> length es"
    and "get_gpr rs1 s = 0xB0400000 + word_of_nat (2 * (i * SCR_W + j))"
  shows "\<exists>t u. exec_inst (s_type 0 rs2 rs1 1 0x23) s = (Inr (), t) \<and> ticks sdl es t = (Inr (), u)
    \<and> (\<forall>y x. y div 2 = i \<and> x div 2 = j \<longrightarrow>
         pixels (m_vga u) y x = RGB_M12_to_M32 (take_bit 16 (get_gpr rs2 s)))"
proof -
  let ?o = "2 * (i * SCR_W + j)" and ?v = "get_gpr rs2 s"
  note off = pixel_offset [OF assms(2,3)]
  have even: "unat (get_gpr rs1 s) mod 2 = 0"
    unfolding assms(6) using off by (simp add: unat_word_ariths mod_mod_cancel)
  have acc: "store_mem (get_gpr rs1 s) 2 ?v s = on_vga (vga_write (word_of_nat ?o) 2 ?v) s"
    unfolding assms(6) by (rule access_vga(2)) (use off in simp)
  obtain c where c: "vga_write (word_of_nat ?o) 2 ?v (m_vga s) = (Inr (), c)"
    "vmem c = store_le (vmem (m_vga s)) ?o 2 ?v"
    by (rule vga_ram.wr_inside [of 2 "word_of_nat ?o" ?v "m_vga s"])
      (use off in \<open>simp_all add: access_width_def del: of_nat_mult of_nat_add\<close>)
  obtain tr where run: "exec_inst (s_type 0 rs2 rs1 1 0x23) s = (Inr (), s\<lparr>m_vga := c, m_trace := tr\<rparr>)"
    using store_run [OF assms(1), of 2 "get_gpr rs1 s" rs1 0 rs2 "()" "s\<lparr>m_vga := c\<rparr>"] even acc c(1)
    by (auto simp: on_vga_def op_simps)
  let ?t = "s\<lparr>m_vga := c, m_trace := tr\<rparr>"
  obtain u where u: "ticks sdl es ?t = (Inr (), u)" "vmem (m_vga u) = vmem c" "shown (m_vga u)"
    using ticks_show [OF assms(4), of sdl ?t] assms(5) by auto
  have "vmem_pixel (vmem c) i j = take_bit 16 ?v"
    by (simp add: vmem_pixel_def c(2) load_store_same del: video_consts)
  then have "pixels (m_vga u) y x = RGB_M12_to_M32 (take_bit 16 ?v)" if "y div 2 = i" "x div 2 = j" for y x
  proof -
    have "y < WINDOW_H" "x < WINDOW_W" using that assms(2,3) by auto
    then show ?thesis using u(2,3) that \<open>vmem_pixel (vmem c) i j = _\<close> by (simp add: shown_def)
  qed
  with run u(1) show ?thesis by blast
qed

theorem pixel_displayed_witness:
  "\<exists>t u. exec_inst (s_type 0 2 1 1 0x23) (set_gpr 2 0xF00 (set_gpr 1 0xB0400322 (code_machine 0))) = (Inr (), t)
     \<and> ticks sdl_example (replicate 4 (None, \<lparr>ev_type = SDL_OTHER, ev_key = 0\<rparr>)) t = (Inr (), u)
     \<and> pixels (m_vga u) 3 2 = 0xFFF00000"
proof -
  let ?s = "set_gpr 2 0xF00 (set_gpr 1 0xB0400322 (code_machine 0))"
  have "flushed ?s" by (simp add: code_machine_traced)
  from pixel_displayed [OF this, of 1 1 "replicate 4 (None, \<lparr>ev_type = SDL_OTHER, ev_key = 0\<rparr>)" 1 2 sdl_example]
  obtain t u where "exec_inst (s_type 0 2 1 1 0x23) ?s = (Inr (), t)"
    "ticks sdl_example (replicate 4 (None, \<lparr>ev_type = SDL_OTHER, ev_key = 0\<rparr>)) t = (Inr (), u)"
    "pixels (m_vga u) 3 2 = RGB_M12_to_M32 (take_bit 16 0xF00)"
    by (auto simp: list_ex_iff)
  moreover have "RGB_M12_to_M32 (take_bit 16 0xF00) = 0xFFF00000"
    by (simp add: RGB_M12_to_M32_def)
  ultimately show ?thesis by auto
qed

end
