(* ===== verification/Signals.thy ===== *)
theory Signals
  imports Io Display Interleave
begin

text \<open>
  Programs that use devices, with signals: what a timer tick or an interrupt that arrives between two
  instructions changes for them. Of all that \<open>device_update\<close> does, the machine with devices sees the
  characters of a key that is pressed, at the end of what the UART has received, and nothing else.
\<close>

unbundle bit_operations_syntax

section \<open>A tick on the machine with devices\<close>

text \<open>The keys held down, and the machine.\<close>

type_synonym desk = "(int \<Rightarrow> bool) \<times> io"

definition desk_of :: "machine \<Rightarrow> desk" where
  "desk_of s = (sdlk_state (m_uart s), io_of s)"

definition io_tick :: "sdl_env \<Rightarrow> sdl_event \<Rightarrow> desk \<Rightarrow> desk" where
  "io_tick sdl e = (\<lambda>(held, m).
     let k = ev_key e
     in if k < 0 \<or> sdlk_last sdl \<le> k then (held, m)
        else if ev_type e = SDL_KEYDOWN \<and> \<not> held k then
          (held(k := True), m\<lparr>io_rx := take 1023 (io_rx m @ map int_of_c_char (SDLK_to_ascii (key_name sdl k)))\<rparr>)
        else if ev_type e = SDL_KEYUP then (held(k := False), m)
        else (held, m))"

lemma enqueue_tick:
  assumes "serial_wf (m_uart s)" "ev_type e \<in> {SDL_KEYDOWN, SDL_KEYUP}"
    and "m_uart t = serial_enqueue sdl (ev_type e) (ev_key e) (m_uart s)" "isa_of t = isa_of s"
    and "vmem (m_vga t) = vmem (m_vga s)" "m_mac t = m_mac s" "work_mode (m_mon t) = work_mode (m_mon s)"
  shows "desk_of t = io_tick sdl e (desk_of s)"
proof -
  have frame: "sdlk_state (serial_enqueue_loop p x) = sdlk_state x" "uart_tx (serial_enqueue_loop p x) = uart_tx x"
    "uartlite_ctrl_reg (serial_enqueue_loop p x) = uartlite_ctrl_reg x" for p x
    by (induction p x rule: serial_enqueue_loop.induct) (simp_all add: Let_def)
  show ?thesis
    using assms by (auto simp: desk_of_def io_of_def io_tick_def Let_def serial_enqueue_def frame rx_enqueue_loop(1))
qed

lemma tick_desk:
  assumes "machine_wf s" "device_update sdl polled stale 0 s = (Inr (), t)"
  shows "desk_of t = io_tick sdl (case polled of Some e \<Rightarrow> e | None \<Rightarrow> stale) (desk_of s)"
proof -
  define e where "e = (case polled of Some e \<Rightarrow> e | None \<Rightarrow> stale)"
  have mac: "m_mac t = m_mac s" using wp_runD [OF device_update_frame assms(2)] by simp
  note same = tick_view(1) [OF assms(2)] device_update_picture(1) [OF assms(2)] mac tick_mode [OF assms(2)]
  show ?thesis
    unfolding e_def [symmetric]
  proof (cases "ev_type e \<in> {SDL_KEYDOWN, SDL_KEYUP}")
    case True
    from device_update_key [OF True [unfolded e_def], of sdl s] assms(2)
    have "m_uart t = serial_enqueue sdl (ev_type e) (ev_key e) (m_uart s)" by (simp add: e_def)
    with True same assms(1) show "desk_of t = io_tick sdl e (desk_of s)"
      by (intro enqueue_tick) (simp_all add: machine_wf_def)
  next
    case False
    have scr: "wp update_screen (\<lambda>_ _. True) (\<lambda>_ _. False) c" for c
      by (rule wp_mono [OF update_screen_wp]) simp_all
    have "wp (device_update sdl polled stale 0) (\<lambda>_ t. m_uart t = m_uart s) (\<lambda>_ _. True) s"
      using False unfolding device_update_def e_def [symmetric]
      by (cases "ev_type e") (auto simp: wp_simps on_vga_def on_mon_def Let_def intro!: wp_mono [OF scr])
    from wp_runD [OF this assms(2)] have "m_uart t = m_uart s" .
    with False same show "desk_of t = io_tick sdl e (desk_of s)"
      by (auto simp: desk_of_def io_of_def io_tick_def Let_def)
  qed
qed

section \<open>Runs with signals\<close>

text \<open>
  What a sequence of instructions, ticks and interrupts makes of the machine with devices. After
  the end of the program there are no more instructions. \<open>None\<close>: an instruction fails, or is not
  specified.
\<close>

fun io_events :: "sdl_env \<Rightarrow> event list \<Rightarrow> desk \<Rightarrow> desk option" where
  "io_events sdl [] d = Some d"
| "io_events sdl (Instruction # es) d =
     (case io_step (snd d) of
        Io_running m \<Rightarrow> io_events sdl es (fst d, m)
      | Io_illegal m \<Rightarrow> io_events sdl es (fst d, m)
      | Io_trap c m \<Rightarrow> io_events sdl es (fst d, m)
      | Io_failed e \<Rightarrow> None
      | Io_outside \<Rightarrow> None)"
| "io_events sdl (Timer polled stale # es) d =
     io_events sdl es (io_tick sdl (case polled of Some e \<Rightarrow> e | None \<Rightarrow> stale) d)"
| "io_events sdl (Interrupt # es) d = io_events sdl es d"

text \<open>
  C8: A program that uses devices sees of the signals only what is typed: whatever ticks and
  interrupts arrive between its instructions, registers, memory, UART, frame buffer and Ethernet
  controller are at the end those of the specification, in which a tick that polls the press
  of a key not yet down appends its characters to the UART's input, as far as they fit, and every
  other tick and every interrupt changes nothing.
\<close>

theorem signals_are_input:
  assumes "system_run sdl s es t" "traced s" "machine_wf s" "io_events sdl es (desk_of s) = Some d"
  shows "desk_of t = d"
  using assms
proof (induction es arbitrary: s)
  case Nil
  then show ?case by simp
next
  case (Cons e es)
  show ?case
  proof (cases e)
    case Instruction
    with Cons.prems(1) obtain u where u: "cpu_step s = (Inr (), u)" "system_run sdl u es t" by auto
    have kept: "traced u" "machine_wf u"
      using leadsD [OF tracing.post_step Cons.prems(2) u(1)] keepsD [OF cpu_step_wf Cons.prems(3) u(1)] by simp_all
    have "io_leaves (nemu_state (m_mon s)) s (io_step (io_of s)) (Inr (), u)"
      using io_step_leaves [OF Cons.prems(2,3)] u(1) by simp
    then have "io_events sdl es (desk_of u) = Some d"
      using Cons.prems(4) Instruction
      by (cases "io_step (io_of s)") (auto simp: desk_of_def seen_as_def offstage_def split: if_splits)
    then show ?thesis using Cons.IH [OF u(2) kept] by simp
  next
    case (Timer polled stale)
    with Cons.prems(1) obtain u where u: "device_update sdl polled stale 0 s = (Inr (), u)" "system_run sdl u es t"
      by auto
    have "traced u" using Cons.prems(2) tick_view(2) [OF u(1)] by (simp add: traced_def)
    moreover have "machine_wf u" using keepsD [OF device_update_wf Cons.prems(3) u(1)] .
    moreover have "io_events sdl es (desk_of u) = Some d"
      using Cons.prems(4) Timer tick_desk [OF Cons.prems(3) u(1)] by simp
    ultimately show ?thesis using Cons.IH [OF u(2)] by simp
  next
    case Interrupt
    let ?u = "s\<lparr>m_mon := sigint_handler (m_mon s)\<rparr>"
    have "desk_of ?u = desk_of s" by (simp add: desk_of_def io_of_def sigint_handler_def)
    with Cons.prems Cons.IH [of ?u] Interrupt show ?thesis by simp
  qed
qed

theorem signals_are_input_witness:
  "\<exists>s t. system_run sdl_example s [Timer (Some \<lparr>ev_type = SDL_KEYDOWN, ev_key = 273\<rparr>) \<lparr>ev_type = SDL_OTHER, ev_key = 0\<rparr>, Instruction, Interrupt] t
     \<and> uart_tx (m_uart s) = [] \<and> uart_tx (m_uart t) = [65] \<and> rx_chars (m_uart t) = [27, 91, 65]"
proof -
  let ?e = "\<lparr>ev_type = SDL_KEYDOWN, ev_key = 273\<rparr>" and ?o = "\<lparr>ev_type = SDL_OTHER, ev_key = 0\<rparr>"
  let ?es = "[Timer (Some ?e) ?o, Instruction, Interrupt]"
  let ?s = "print_machine\<lparr>m_mon := (m_mon print_machine)\<lparr>nemu_state := NEMU_RUNNING\<rparr>\<rparr>"
  have init: "traced ?s" "machine_wf ?s" "nemu_state (m_mon ?s) = NEMU_RUNNING" "work_mode (m_mon ?s) = MODE_GDB"
    "m_uart ?s = serial_init"
    using print_machine_facts by (simp_all add: machine_init_def)
  obtain t where t: "device_update sdl_example (Some ?e) ?o 0 ?s = (Inr (), t)"
    using device_update_key [where polled = "Some ?e" and stale = ?o and sdl = sdl_example and s = ?s] by auto
  have desk: "desk_of t = io_tick sdl_example ?e (desk_of ?s)"
    using tick_desk [OF init(2) t] by simp
  have tick: "io_tick sdl_example ?e (desk_of ?s)
      = ((\<lambda>_. False)(273 := True), (io_of ?s)\<lparr>io_rx := [27, 91, 65]\<rparr>)"
    using init(5) serial_examples by (simp add: io_tick_def desk_of_def) (simp add: serial_init_def)
  have step: "io_step ((io_of ?s)\<lparr>io_rx := q\<rparr>) = Io_running (io_next ((io_of ?s)\<lparr>io_rx := q, io_tx := [65]\<rparr>))" for q
    using print_machine_step [of "(io_of ?s)\<lparr>io_rx := q\<rparr>"] print_machine_facts(5-7) init(5) by (simp add: serial_init_def)
  have view: "traced t" "machine_wf t" "nemu_state (m_mon t) = NEMU_RUNNING" "work_mode (m_mon t) = MODE_GDB"
    using init tick_view(2,3) [OF t] tick_mode [OF t] keepsD [OF device_update_wf init(2) t]
    by (simp_all add: traced_def)
  have "io_of t = (io_of ?s)\<lparr>io_rx := [27, 91, 65]\<rparr>" using desk unfolding tick by (simp add: desk_of_def)
  then obtain u where u: "cpu_step t = (Inr (), u)"
    "io_of u = io_next ((io_of ?s)\<lparr>io_rx := [27, 91, 65], io_tx := [65]\<rparr>)"
    using io_step_leaves [OF view(1,2)] step [of "[27, 91, 65]"]
    by (cases "cpu_step t") (auto simp: seen_as_def simp del: io_of_frame)
  have "io_batch (io_of u) = odd (work_mode (m_mon ?s))" unfolding u(2) by (simp add: io_next_def)
  then have "work_mode (m_mon u) AND MODE_BATCH = 0"
    using init(4) by (simp add: MODE_BATCH_def and_one_eq) (simp add: even_iff_mod_2_eq_zero)
  then have run: "system_run sdl_example ?s ?es (u\<lparr>m_mon := sigint_handler (m_mon u)\<rparr>)" (is "system_run _ _ _ ?t")
    using t u(1) view(3) by simp
  have "desk_of ?t = ((\<lambda>_. False)(273 := True), io_next ((io_of ?s)\<lparr>io_rx := [27, 91, 65], io_tx := [65]\<rparr>))"
    by (rule signals_are_input [OF run init(1,2)]) (simp add: tick step)
  then have "io_tx (snd (desk_of ?t)) = [65]" "io_rx (snd (desk_of ?t)) = [27, 91, 65]"
    by (simp_all add: io_next_def)
  then have "uart_tx (m_uart ?t) = [65]" "rx_chars (m_uart ?t) = [27, 91, 65]"
    by (simp_all add: desk_of_def)
  moreover have "uart_tx (m_uart ?s) = []" using init(5) by (simp add: serial_init_def)
  ultimately show ?thesis using run by blast
qed

end
