(* ===== verification/Crash.thy ===== *)
theory Crash
  imports Driver Runs
begin

text \<open>
The report that a failing load leaves behind: the history of instructions, which ends with the
load itself, the registers before it, and the abort.
\<close>

unbundle bit_operations_syntax

section \<open>The report\<close>

lemma register_lines_cong:
  assumes "m_cpu t = m_cpu s" "ninstr t = ninstr s"
  shows "register_lines w t = register_lines w s"
proof -
  have "reg_field t = reg_field s" using assms(1) by (simp add: reg_field_def get_gpr_def fun_eq_iff)
  then have "reg_line t = reg_line s" unfolding reg_line_def by simp
  with assms show ?thesis by (simp add: register_lines_def)
qed

text \<open>The first line of the instruction history.\<close>

definition history_head :: string where
  "history_head = ''last executed 8 instrs:'' @ newline"

text \<open>What the report prints when the program counter is in RAM.\<close>

lemma report_run:
  assumes "iq_wf (m_iq s)" "in_ram (phys_addr (get_pc s)) 4"
  shows "\<exists>t. cpu_assert_report a s = Some (Assert_abort, t) \<and> mon_err (m_mon t) = mon_err (m_mon s)
      @ assertion_failed a # history_head # map iq_line (iq_list (m_iq s)) @ [dump_begin]
      @ register_lines (load_le (phys s) (phys_addr (get_pc s)) 4) s
      @ [dump_end, assertion_message a]"
proof -
  have "''last executed '' @ fmt_d (int NR_INSTR) @ '' instrs:'' @ newline = history_head"
    by (simp add: history_head_def fmt_d_def dec_nat.simps hex_digit_def NR_INSTR_def)
  then have q: "print_instr_queue (m_iq s) = Some (history_head # map iq_line (iq_list (m_iq s)))"
    using iq_walk_lines [OF assms(1)] by (simp add: print_instr_queue_def)
  define u where
    "u = report (assertion_failed a # (history_head # map iq_line (iq_list (m_iq s))) @ [dump_begin]) s"
  define v where "v = load_le (phys s) (phys_addr (get_pc s)) 4"
  have frame: "phys u = phys s" "m_cpu u = m_cpu s" "ninstr u = ninstr s"
    by (simp_all add: u_def report_def phys_def fun_eq_iff)
  have "vaddr_read_safe (get_pc s) 4 u = (Inr v, u)"
    using vaddr_read_safe_ram [of "get_pc s" u] assms(2) by (simp add: frame(1) v_def phys_addr_prot)
  from report_read [OF q this [unfolded u_def], folded u_def]
  have run: "cpu_assert_report a s
      = Some (Assert_abort, report [dump_end, assertion_message a] (snd (print_registers v u)))" .
  have "mon_err (m_mon (report [dump_end, assertion_message a] (snd (print_registers v u))))
      = mon_err (m_mon u) @ register_lines v u @ [dump_end, assertion_message a]"
    by (simp add: print_registers_def op_simps on_mon_def report_def)
  also have "mon_err (m_mon u) = mon_err (m_mon s)
      @ assertion_failed a # history_head # map iq_line (iq_list (m_iq s)) @ [dump_begin]"
    by (simp add: u_def report_def)
  finally show ?thesis
    using run register_lines_cong [OF frame(2,3)] by (simp flip: v_def)
qed

section \<open>A load that fails\<close>

lemma load_rejected:
  assumes "flushed s" "n \<in> {1, 2, 4}" "a = get_gpr rs1 s + scast imm" "unat a mod n \<noteq> 0 \<or> a < 0x1000"
  shows "exec_inst (i_type imm rs1 (load_code n sx) rd 0x03) s = (Inl Cpu_assert, s)"
proof -
  define w where "w = i_type imm rs1 (load_code n sx) rd 0x03"
  have n: "access_width (of_nat n)" "unat (of_nat n :: u32) = n"
    using assms(2) by (auto simp: access_width_def)
  have a: "get_gpr (inst_rs1 w) s + I_simm_11_0 w = a" by (simp add: w_def assms(3) I_simm_11_0_def)
  have "wp (exec_load_as name (of_nat n) f w) (\<lambda>_ _. False) (\<lambda>e t. e = Cpu_assert \<and> t = s) s" for name f
    using assms(4) access_low(1) [of a "of_nat n" s]
    by (auto simp: exec_load_as_def wp_simps wp_aligned [OF n(1)] a n(2) wp_def [of "load_mem _ _"])
  from wp_result [OF this] show ?thesis
    unfolding w_def [symmetric] load_dispatch [OF assms(2) w_def] by auto
qed

text \<open>
  The two checks of a load: the alignment check of the handler and the guard page of
  \<^verbatim>\<open>load_mem\<close>. The line that the compiler gives an assertion inside the macro of a handler is
  left open.
\<close>

definition load_assertion :: "nat \<Rightarrow> nat \<Rightarrow> u32 \<Rightarrow> machine \<Rightarrow> assertion" where
  "load_assertion line n addr s =
     (if unat addr mod n \<noteq> 0
      then \<lparr>as_file = ''src/cpu/exec-handlers.h'', as_line = line, as_func = ''cpu_exec'',
            as_cond = ''((cpu.gpr[inst.rs1] + inst.I.simm_11_0) & ('' @ fmt_d (int n) @ '' - 1)) == 0'',
            as_text = ''address(0x'' @ fmt_08x addr @ '') is unaligned, pc='' @ fmt_08x (get_pc s) @ newline\<rparr>
      else \<lparr>as_file = ''src/cpu/cpu-exec.c'', as_line = 117, as_func = ''load_mem'',
            as_cond = ''addr >= 0x1000'',
            as_text = ''preventive check failed, try to load memory from addr '' @ fmt_08x addr @ newline\<rparr>)"

text \<open>
  C32: When a program that runs in RAM loads from a misaligned address or from the guard page, the
  emulator stops with a complete report on its error output, in this order: the failed assertion
  (the alignment check of the handler, or the guard of \<^verbatim>\<open>load_mem\<close>) with its file, function and
  condition; the history of the last eight instructions, whose last line is the program counter
  and the word of the load itself; a dump of the registers as they were before it; and the
  message of the assertion with the offending address. Then it aborts. (The tracer's buffer is in
  use and the queue's index in range; the line number of the alignment check is left open.)
\<close>

theorem bad_load_reported:
  assumes "traced s" "iq_wf (m_iq s)" "n \<in> {1, 2, 4}" "w = i_type imm rs1 (load_code n sx) rd 0x03"
    and "fetches s w"
    and "a = get_gpr rs1 s + scast imm" "unat a mod n \<noteq> 0 \<or> a < 0x1000"
  shows "\<exists>t u. cpu_step s = (Inl Cpu_assert, t)
    \<and> cpu_assert_report (load_assertion line n a s) t = Some (Assert_abort, u)
    \<and> mon_err (m_mon u) = mon_err (m_mon s)
      @ [assertion_failed (load_assertion line n a s)]
      @ history_head # map iq_line (tl (iq_list (m_iq s)))
      @ [''0x'' @ fmt_08x (get_pc s) @ '': '' @ fmt_08x w @ newline]
      @ [dump_begin] @ register_lines w s @ [dump_end]
      @ [assertion_message (load_assertion line n a s)]"
proof -
  obtain tr where u: "flushed (s\<lparr>m_iq := iq_record (get_pc s) w (m_iq s), m_trace := tr\<rparr>)"
    "cpu_step s = seq_op (exec_inst w) (cpu_finish w) (s\<lparr>m_iq := iq_record (get_pc s) w (m_iq s), m_trace := tr\<rparr>)"
    by (rule step_exec [OF assms(1,5)])
  let ?u = "s\<lparr>m_iq := iq_record (get_pc s) w (m_iq s), m_trace := tr\<rparr>"
  let ?a = "load_assertion line n a s"
  have "exec_inst w ?u = (Inl Cpu_assert, ?u)"
    unfolding assms(4) by (rule load_rejected) (use u(1) assms(3,6,7) in \<open>simp_all add: assms(4)\<close>)
  then have run: "cpu_step s = (Inl Cpu_assert, ?u)" using u(2) by (simp add: op_simps)
  have frame: "get_pc ?u = get_pc s" "phys ?u = phys s" "m_cpu ?u = m_cpu s" "ninstr ?u = ninstr s"
    "m_mon ?u = m_mon s"
    by (simp_all add: get_pc_def phys_def fun_eq_iff)
  have w: "in_ram (phys_addr (get_pc s)) 4" "load_le (phys s) (phys_addr (get_pc s)) 4 = w"
    using assms(5) by (simp_all add: fetches_def)
  have list: "iq_list (m_iq ?u) = tl (iq_list (m_iq s)) @ [\<lparr>iq_pc = get_pc s, iq_instr = w, instr_enq = True\<rparr>]"
    and wf: "iq_wf (m_iq ?u)"
    using iq_record_list [OF assms(2)] by simp_all
  obtain t where t: "cpu_assert_report ?a ?u = Some (Assert_abort, t)"
    "mon_err (m_mon t) = mon_err (m_mon s)
      @ assertion_failed ?a # history_head # map iq_line (iq_list (m_iq ?u)) @ [dump_begin]
      @ register_lines w s @ [dump_end, assertion_message ?a]"
    using report_run [of ?u ?a, unfolded frame, OF wf w(1)]
    unfolding w(2) register_lines_cong [OF frame(3,4)] by blast
  have "map iq_line (iq_list (m_iq ?u)) = map iq_line (tl (iq_list (m_iq s)))
      @ [''0x'' @ fmt_08x (get_pc s) @ '': '' @ fmt_08x w @ newline]"
    unfolding list by (simp add: iq_line_def)
  with t(2) have "mon_err (m_mon t) = mon_err (m_mon s)
      @ [assertion_failed ?a]
      @ history_head # map iq_line (tl (iq_list (m_iq s)))
      @ [''0x'' @ fmt_08x (get_pc s) @ '': '' @ fmt_08x w @ newline]
      @ [dump_begin] @ register_lines w s @ [dump_end] @ [assertion_message ?a]"
    by (simp only: append.simps append_assoc)
  with run t(1) show ?thesis by blast
qed

theorem bad_load_reported_witness:
  "\<exists>t u. cpu_step (code_machine (i_type 6 0 2 5 0x03)) = (Inl Cpu_assert, t)
     \<and> cpu_assert_report (load_assertion 301 4 6 (code_machine (i_type 6 0 2 5 0x03))) t = Some (Assert_abort, u)
     \<and> ''0x80001000: 00602283'' @ newline \<in> set (mon_err (m_mon u))
     \<and> last (mon_err (m_mon u)) = CHR 0x1B # ''[1;31maddress(0x00000006) is unaligned, pc=80001000''
         @ newline @ CHR 0x1B # ''[0m'' @ newline"
proof -
  let ?w = "i_type 6 0 2 5 0x03"
  let ?s = "code_machine ?w"
  let ?a = "load_assertion 301 4 6 ?s"
  have iq: "iq_wf (m_iq ?s)" using code_machine_wf [of ?w] by (simp add: machine_wf_def)
  have f: "fetches ?s ?w"
    by (simp add: fetches_def code_machine_pc phys_addr_def in_ram_def code_machine_word)
  have zz: "replicate 2 CHR ''0'' = ''00''" "replicate 7 CHR ''0'' = ''0000000''"
    by (simp_all add: numeral_eq_Suc)
  have line: "''0x'' @ fmt_08x 0x80001000 @ '': '' @ fmt_08x ?w @ newline = ''0x80001000: 00602283'' @ newline"
    using zz by (simp add: i_type_def fmt_08x_def pad_left_def hex_nat.simps hex_digit_def)
  have msg: "assertion_message ?a = CHR 0x1B # ''[1;31maddress(0x00000006) is unaligned, pc=80001000''
      @ newline @ CHR 0x1B # ''[0m'' @ newline"
    using zz by (simp add: assertion_message_def load_assertion_def code_machine_pc fmt_08x_def
        pad_left_def hex_nat.simps hex_digit_def)
  have mem: "x \<in> set (xs @ [b] @ h # ys @ [x] @ zs)" for x b h :: string and xs ys zs by simp
  have "unat (6 :: u32) mod 4 \<noteq> 0 \<or> (6 :: u32) < 0x1000" by simp
  moreover have "6 = get_gpr 0 ?s + scast (6 :: 12 word)" by (simp add: code_machine_regs)
  moreover have "?w = i_type 6 0 (load_code 4 False) 5 0x03" "4 \<in> {1, 2, 4 :: nat}" by simp_all
  ultimately obtain t u where run: "cpu_step ?s = (Inl Cpu_assert, t)"
      "cpu_assert_report ?a t = Some (Assert_abort, u)"
    and err: "mon_err (m_mon u) = mon_err (m_mon ?s) @ [assertion_failed ?a]
      @ history_head # map iq_line (tl (iq_list (m_iq ?s)))
      @ [''0x'' @ fmt_08x (get_pc ?s) @ '': '' @ fmt_08x ?w @ newline]
      @ [dump_begin] @ register_lines ?w ?s @ [dump_end] @ [assertion_message ?a]"
    using bad_load_reported [OF code_machine_traced(1) iq _ _ f] by blast
  have "''0x'' @ fmt_08x (get_pc ?s) @ '': '' @ fmt_08x ?w @ newline \<in> set (mon_err (m_mon u))"
    unfolding err by (rule mem)
  then have "''0x80001000: 00602283'' @ newline \<in> set (mon_err (m_mon u))"
    unfolding code_machine_pc line .
  moreover have "last (mon_err (m_mon u)) = assertion_message ?a"
    unfolding err by (simp only: last_append last_ConsL append.simps) simp
  ultimately show ?thesis using run unfolding msg by (intro exI conjI)
qed

end
