(* ===== verification/Soundness.thy ===== *)
theory Soundness
  imports Runs
begin

text \<open>
The whole emulator against an arbitrary guest program: what a run of \<open>cpu_exec\<close> can end in,
  from any state that instructions, ticks and interrupts lead to.
\<close>

unbundle bit_operations_syntax

section \<open>The loop\<close>






section \<open>The report of a failing assertion\<close>









end
