(* ===== verification/Canonical.thy ===== *)
theory Canonical
  imports Io Assembler
begin

text \<open>
The instruction words of the emulator: the handlers depend on a word only through what it decodes
  to, so that the encoder of \<open>Assembler\<close> reaches every behaviour that any word has.
\<close>

unbundle bit_operations_syntax

section \<open>The handler that a word reaches\<close>

lemma op_handler:
  assumes "decode w = Op op rd r1 r2"
  shows "exec_inst w = alu_handler op w" "inst_rd w = rd" "inst_rs1 w = r1" "inst_rs2 w = r2"
proof -
  have csr: "decode_csr w \<noteq> Op op rd r1 r2"
    by (cases rule: func3_cases [of "inst_func3 w"]; simp add: decode_csr_def)
  have d: "inst_op w AND 3 = 3" "major w = 12" "decode_op w = Some op"
    and f: "inst_rd w = rd" "inst_rs1 w = r1" "inst_rs2 w = r2"
    using assms csr by (auto simp: decode_def split: if_splits option.splits prod.splits)
  show "exec_inst w = alu_handler op w"
    using d by (simp add: exec_inst_def check_op_def opcode_dispatch exec_alu_decode flip: major_def)
  show "inst_rd w = rd" "inst_rs1 w = r1" "inst_rs2 w = r2" by (rule f)+
qed

lemma imm_text_small:
  assumes "decode_op_imm w = Some (op, v)"
  shows "imm_text w op = int (unat v)"
proof -
  have small: "unat v < 32" using imm_canonical [OF assms] by simp
  have signed: "sint v = int (unat v)"
  proof -
    have "uint v = int (unat v)" by simp
    with small have "uint v < 32" by linarith
    then have "uint v < 2 ^ 31" by (rule less_trans) simp
    moreover have "- (2 ^ 31) \<le> uint v" by (rule order_trans [of _ 0]) simp_all
    ultimately have "signed_take_bit 31 (uint v) = uint v" by (intro signed_take_bit_int_eq_self)
    then show ?thesis by (simp add: sint_uint)
  qed
  have "unat (ucast (I_shamt w) :: u32) = unat (I_shamt w)"
    using unsigned_less [of "I_shamt w", where ?'a = nat]
    by (simp add: unsigned_ucast_eq unsigned_take_bit_eq take_bit_nat_eq_self)
  from arg_cong [OF this, of int] have shamt: "uint (ucast (I_shamt w) :: u32) = uint (I_shamt w)" by simp
  have f7: "inst_func7 w = 0 \<Longrightarrow> I_simm_11_0 w = ucast (I_imm_11_0 w)"
  proof -
    assume "inst_func7 w = 0"
    moreover have "inst_func7 w = ucast (drop_bit 5 (I_imm_11_0 w))"
      by (rule bit_word_eqI) (auto simp: field_defs bit_simps)
    ultimately have "unat (I_imm_11_0 w) < 32" using imm_high_bits by metis
    then show ?thesis by (simp add: I_simm_11_0_def small_imm)
  qed
  show ?thesis
    using assms signed shamt f7
    by (cases rule: func3_cases [of "inst_func3 w"])
      (auto simp: decode_op_imm_def imm_text_def split: if_splits)
qed

lemma imm_handler:
  assumes "decode w = Op_imm op rd r1 v"
  shows "exec_inst w = exec_rri (imm_name op) op v (int (unat v)) w" "inst_rd w = rd" "inst_rs1 w = r1"
proof -
  have csr: "decode_csr w \<noteq> Op_imm op rd r1 v"
    by (cases rule: func3_cases [of "inst_func3 w"]; simp add: decode_csr_def)
  have d: "inst_op w AND 3 = 3" "major w = 4" "decode_op_imm w = Some (op, v)"
    and f: "inst_rd w = rd" "inst_rs1 w = r1"
    using assms csr by (auto simp: decode_def split: if_splits option.splits prod.splits)
  show "exec_inst w = exec_rri (imm_name op) op v (int (unat v)) w"
    using d imm_text_small [OF d(3)]
    by (simp add: exec_inst_def check_op_def opcode_dispatch exec_alui_decode flip: major_def)
  show "inst_rd w = rd" "inst_rs1 w = r1" by (rule f)+
qed

lemma load_names:
  assumes "decode w = Load n sx rd r1 off"
  shows "exec_inst w = exec_load_as (load_name n sx) (of_nat n) (load_extend n sx) w"
    "inst_rd w = rd" "inst_rs1 w = r1" "I_simm_11_0 w = off"
proof -
  have d: "inst_op w AND 3 = 3" "major w = 0" "decode_load w = Some (n, sx)"
    and f: "inst_rd w = rd" "inst_rs1 w = r1" "I_simm_11_0 w = off"
    using assms by (auto simp: decode_def decode_csr_plain split: if_splits option.splits prod.splits)
  have "exec_inst w = exec_load w"
    using d by (simp add: exec_inst_def check_op_def opcode_dispatch flip: major_def)
  then show "exec_inst w = exec_load_as (load_name n sx) (of_nat n) (load_extend n sx) w"
    using d(3)
    by (cases rule: func3_cases [of "inst_func3 w"])
      (auto simp: exec_load_def decode_load_def load_table_def load_handlers)
  show "inst_rd w = rd" "inst_rs1 w = r1" "I_simm_11_0 w = off" by (rule f)+
qed

lemma store_names:
  assumes "decode w = Store n r2 r1 off"
  shows "exec_inst w = exec_store_as (store_name n) (of_nat n) w"
    "inst_rs2 w = r2" "inst_rs1 w = r1" "STORE_SIMM w = off"
proof -
  have d: "inst_op w AND 3 = 3" "major w = 8" "decode_store w = Some n"
    and f: "inst_rs2 w = r2" "inst_rs1 w = r1" "STORE_SIMM w = off"
    using assms by (auto simp: decode_def decode_csr_plain split: if_splits option.splits prod.splits)
  have "exec_inst w = exec_store w"
    using d by (simp add: exec_inst_def check_op_def opcode_dispatch flip: major_def)
  then show "exec_inst w = exec_store_as (store_name n) (of_nat n) w"
    using d(3)
    by (cases rule: func3_cases [of "inst_func3 w"])
      (auto simp: exec_store_def decode_store_def store_table_def store_handlers)
  show "inst_rs2 w = r2" "inst_rs1 w = r1" "STORE_SIMM w = off" by (rule f)+
qed

lemma branch_handler:
  assumes "decode w = Branch c r1 r2 off"
  shows "exec_inst w = mod_op (\<lambda>s. if holds c (get_gpr r1 s) (get_gpr r2 s)
    then set_pc (get_pc s + off) s else s)"
proof -
  have csr: "decode_csr w \<noteq> Branch c r1 r2 off"
    by (cases rule: func3_cases [of "inst_func3 w"]; simp add: decode_csr_def)
  have d: "inst_op w AND 3 = 3" "major w = 24" "decode_cond w = Some c"
    and f: "r1 = inst_rs1 w" "r2 = inst_rs2 w" "off = push_bit 1 (BRANCH_SIMM w)"
    using assms csr
    by (auto simp: decode_def push_bit_eq_mult split: if_splits option.splits prod.splits)
  have "exec_inst w = exec_branch w"
    using d by (simp add: exec_inst_def check_op_def opcode_dispatch flip: major_def)
  then show ?thesis
    using d(3) unfolding f
    by (cases rule: func3_cases [of "inst_func3 w"])
      (auto simp: exec_branch_def decode_cond_def branch_table_def branch_if_def exec_beq_def exec_bne_def
        exec_blt_def exec_bge_def exec_bltu_def exec_bgeu_def word_less_def word_le_def)
qed

lemma csr_handler:
  assumes "decode w = Csr c rd n r1" "decode w' = Csr c rd n r1"
  shows "exec_inst w = exec_inst w'"
proof -
  have d: "exec_inst u = exec_csr u" "decode_csr u = Csr c rd n r1" if "decode u = Csr c rd n r1" for u
  proof -
    have "inst_op u AND 3 = 3" "major u = 28" and "decode_csr u = Csr c rd n r1"
      using that by (auto simp: decode_def split: if_splits option.splits prod.splits)
    then show "exec_inst u = exec_csr u" "decode_csr u = Csr c rd n r1"
      by (simp_all add: exec_inst_def check_op_def opcode_dispatch flip: major_def)
  qed
  have h: "inst_rd u = rd \<and> I_imm_11_0 u = n \<and> inst_rs1 u = r1 \<and> unat (inst_func3 u) = unat (csr_code c)"
    if "decode u = Csr c rd n r1" for u
    using d(2) [OF that] by (cases rule: func3_cases [of "inst_func3 u"]) (auto simp: decode_csr_def)
  show ?thesis
    unfolding d(1) [OF assms(1)] d(1) [OF assms(2)] exec_csr_def
    using h [OF assms(1)] h [OF assms(2)]
    by (cases c) (simp_all add: csr_table_def exec_csrrw_def exec_csrrs_def exec_csrrc_def
        exec_csrrwi_def exec_csrrsi_def exec_csrrci_def cong: if_cong)
qed

lemma upper_bits: "drop_bit 12 (push_bit 12 (ucast (x :: 20 word) :: u32)) = (ucast x :: u32)"
  by (rule bit_word_eqI) (auto simp: bit_simps dest: bit_imp_le_length)

lemma upper_handler:
  "decode w = Lui rd v \<Longrightarrow> exec_inst w = seq_op (mod_op (set_gpr rd v))
     (trace (''lui'' @ tab @ reg_name rd @ '','' @ fmt_x (drop_bit 12 v)))"
  "decode w = Auipc rd v \<Longrightarrow> exec_inst w = seq_op (mod_op (\<lambda>s. set_gpr rd (get_pc s + v) s))
     (trace (''auipc'' @ tab @ reg_name rd @ '','' @ fmt_x (drop_bit 12 v)))"
  "decode w = Jal rd v \<Longrightarrow> exec_inst w = seq_op (mod_op (\<lambda>s. set_gpr rd (get_pc s + 4) s))
     (mod_op (\<lambda>s. set_pc (get_pc s + v) s))"
  "decode w = Jalr rd r \<Longrightarrow> exec_inst w = seq_op (mod_op (\<lambda>s. set_gpr rd (get_pc s + 4) s))
     (seq_op (mod_op (\<lambda>s. set_pc (get_gpr r s) s)) (trace (''jalr'' @ tab @ reg_name rd)))"
  "decode w = Fence \<Longrightarrow> exec_inst w = ok ()"
  "decode w = Compressed \<Longrightarrow> exec_inst w = raise Assert_abort"
proof -
  have csr: "decode_csr w \<noteq> Lui rd v" "decode_csr w \<noteq> Auipc rd v" "decode_csr w \<noteq> Jal rd v"
    "decode_csr w \<noteq> Jalr rd r" "decode_csr w \<noteq> Fence" "decode_csr w \<noteq> Compressed"
    by (cases rule: func3_cases [of "inst_func3 w"]; simp add: decode_csr_def)+
  have run: "exec_inst w = (opcode_table ! major w) w" if "inst_op w AND 3 = 3"
    using that by (simp add: exec_inst_def check_op_def major_def)
  note run = run opcode_dispatch [OF major_less]
  show "decode w = Lui rd v \<Longrightarrow> exec_inst w = seq_op (mod_op (set_gpr rd v))
     (trace (''lui'' @ tab @ reg_name rd @ '','' @ fmt_x (drop_bit 12 v)))"
    using csr(1) by (auto simp: decode_def run exec_lui_def asm_ux_def upper_bits split: if_splits option.splits prod.splits)
  show "decode w = Auipc rd v \<Longrightarrow> exec_inst w = seq_op (mod_op (\<lambda>s. set_gpr rd (get_pc s + v) s))
     (trace (''auipc'' @ tab @ reg_name rd @ '','' @ fmt_x (drop_bit 12 v)))"
    using csr(2) by (auto simp: decode_def run exec_auipc_def asm_ux_def upper_bits split: if_splits option.splits prod.splits)
  show "decode w = Jal rd v \<Longrightarrow> exec_inst w = seq_op (mod_op (\<lambda>s. set_gpr rd (get_pc s + 4) s))
     (mod_op (\<lambda>s. set_pc (get_pc s + v) s))"
    using csr(3) by (auto simp: decode_def run exec_jal_def split: if_splits option.splits prod.splits)
  show "decode w = Jalr rd r \<Longrightarrow> exec_inst w = seq_op (mod_op (\<lambda>s. set_gpr rd (get_pc s + 4) s))
     (seq_op (mod_op (\<lambda>s. set_pc (get_gpr r s) s)) (trace (''jalr'' @ tab @ reg_name rd)))"
    using csr(4) by (auto simp: decode_def run exec_jalr_def split: if_splits option.splits prod.splits)
  show "decode w = Fence \<Longrightarrow> exec_inst w = ok ()"
    using csr(5) by (auto simp: decode_def run exec_fence_def split: if_splits option.splits prod.splits)
  show "decode w = Compressed \<Longrightarrow> exec_inst w = raise Assert_abort"
    using csr(6) by (auto simp: decode_def exec_inst_def check_op_def seq_op_def split: if_splits option.splits prod.splits)
qed

lemma ecall_handler:
  assumes "decode w = Ecall"
  shows "exec_inst w = raise Assert_abort"
proof -
  have d: "inst_op w AND 3 = 3" "major w = 28" "decode_csr w = Ecall"
    using assms by (auto simp: decode_def split: if_splits option.splits prod.splits)
  then have "exec_inst w = exec_csr w"
    by (simp add: exec_inst_def check_op_def opcode_dispatch flip: major_def)
  then show ?thesis
    using d(3) by (cases rule: func3_cases [of "inst_func3 w"])
      (auto simp: decode_csr_def exec_csr_def csr_table_def exec_ecall_ebreak_def)
qed

lemma illegal_handler:
  assumes "decode w = Illegal"
  shows "exec_inst w = exec_inv w"
proof -
  have csr: "decode_csr w = Illegal \<Longrightarrow> exec_csr w = exec_inv w"
    by (cases rule: func3_cases [of "inst_func3 w"]) (simp_all add: decode_csr_def exec_csr_def csr_table_def)
  have load: "decode_load w = None \<Longrightarrow> exec_load w = exec_inv w"
    by (cases rule: func3_cases [of "inst_func3 w"]) (simp_all add: decode_load_def exec_load_def load_table_def)
  have store: "decode_store w = None \<Longrightarrow> exec_store w = exec_inv w"
    by (cases rule: func3_cases [of "inst_func3 w"]) (simp_all add: decode_store_def exec_store_def store_table_def)
  have branch: "decode_cond w = None \<Longrightarrow> exec_branch w = exec_inv w"
    by (cases rule: func3_cases [of "inst_func3 w"]) (simp_all add: decode_cond_def exec_branch_def branch_table_def)
  have "inst_op w AND 3 = 3" using assms by (auto simp: decode_def split: if_splits)
  then have "exec_inst w = (opcode_table ! major w) w"
    by (simp add: exec_inst_def check_op_def major_def)
  then show ?thesis
    using assms csr load store branch unfolding opcode_dispatch [OF major_less]
    by (auto simp: decode_def exec_alu_decode exec_alui_decode split: if_splits option.splits prod.splits)
qed

text \<open>Two words that decode alike are executed alike, down to the line of the trace.\<close>

lemma exec_by_decode:
  assumes "decode w = decode w'" "decode w \<noteq> Illegal"
  shows "exec_inst w = exec_inst w'"
proof (cases "decode w'")
  case (Op op rd r1 r2)
  note h = op_handler [OF trans [OF assms(1) Op]] op_handler [OF Op]
  show ?thesis
    unfolding h(1,5) by (simp add: alu_handler_def exec_rrr_div_def exec_rrr_def asm_rrr_def h)
next
  case (Op_imm op rd r1 v)
  note h = imm_handler [OF trans [OF assms(1) Op_imm]] imm_handler [OF Op_imm]
  show ?thesis unfolding h(1,4) by (simp add: exec_rri_def asm_rri_def h)
next
  case (Load n sx rd r1 off)
  note h = load_names [OF trans [OF assms(1) Load]] load_names [OF Load]
  show ?thesis unfolding h(1,5) by (simp add: exec_load_as_def asm_mem_def h)
next
  case (Store n r2 r1 off)
  note h = store_names [OF trans [OF assms(1) Store]] store_names [OF Store]
  show ?thesis unfolding h(1,5) by (simp add: exec_store_as_def asm_mem_def h)
next
  case (Branch c r1 r2 off)
  show ?thesis using branch_handler [OF trans [OF assms(1) Branch]] branch_handler [OF Branch] by simp
next
  case (Csr c rd n r1)
  show ?thesis by (rule csr_handler [OF trans [OF assms(1) Csr] Csr])
next
  case (Lui rd v)
  show ?thesis using upper_handler(1) [OF trans [OF assms(1) Lui]] upper_handler(1) [OF Lui] by simp
next
  case (Auipc rd v)
  show ?thesis using upper_handler(2) [OF trans [OF assms(1) Auipc]] upper_handler(2) [OF Auipc] by simp
next
  case (Jal rd v)
  show ?thesis using upper_handler(3) [OF trans [OF assms(1) Jal]] upper_handler(3) [OF Jal] by simp
next
  case (Jalr rd r)
  show ?thesis using upper_handler(4) [OF trans [OF assms(1) Jalr]] upper_handler(4) [OF Jalr] by simp
next
  case Fence
  show ?thesis using upper_handler(5) [OF trans [OF assms(1) Fence]] upper_handler(5) [OF Fence] by simp
next
  case Compressed
  show ?thesis
    using upper_handler(6) [OF trans [OF assms(1) Compressed]] upper_handler(6) [OF Compressed] by simp
next
  case Ecall
  show ?thesis using ecall_handler [OF trans [OF assms(1) Ecall]] ecall_handler [OF Ecall] by simp
qed (use assms in simp)

section \<open>The emulator executes what was assembled\<close>

text \<open>
  C15: Every instruction whose operands fit the fields that the handlers read has an encoding (this
  emulator's, which is not always the manual's), and \<open>exec_inst\<close> does with that word what the
  instruction means, whatever the outcome: it changes registers, program
  counter, memory and devices as specified, ends the run at the trap, or stops with the fault that
  the specification names. (The tracer has just flushed its buffer and the UART's indices are in
  range; a read of the empty receive queue is left open.) Conversely, every word that the program
  can be given is executed exactly as the encoding of the instruction it decodes to, down to the
  line of the trace, whatever its unused bits hold; and a word that decodes to none ends the run
  with the message for an invalid opcode and changes nothing else.
\<close>

theorem assembled:
  assumes "flushed s" "serial_wf (m_uart s)"
  shows "(encodable i \<longrightarrow>
      io_leaves (nemu_state (m_mon s)) s (io_exec i (io_of s)) (exec_inst (encode i) s))
    \<and> (if decode w = Illegal
       then \<exists>bytes. exec_inst w s = (Inr (), s\<lparr>m_mon := (m_mon s)\<lparr>mon_out := mon_out (m_mon s)
              @ [''invalid opcode(pc = 0x'' @ fmt_08x (get_pc s) @ bytes], nemu_state := NEMU_END\<rparr>\<rparr>)
       else exec_inst w = exec_inst (encode (decode w)))"
proof (intro conjI impI)
  show "io_leaves (nemu_state (m_mon s)) s (io_exec i (io_of s)) (exec_inst (encode i) s)" if "encodable i"
    using io_inst [OF assms, of "encode i"] decode_encode [OF that] by simp
  have "exec_inst w = exec_inst (encode (decode w))" if "decode w \<noteq> Illegal"
    by (rule exec_by_decode) (simp_all add: decode_encode [OF encodable_decode] that)
  then show "if decode w = Illegal
       then \<exists>bytes. exec_inst w s = (Inr (), s\<lparr>m_mon := (m_mon s)\<lparr>mon_out := mon_out (m_mon s)
              @ [''invalid opcode(pc = 0x'' @ fmt_08x (get_pc s) @ bytes], nemu_state := NEMU_END\<rparr>\<rparr>)
       else exec_inst w = exec_inst (encode (decode w))"
    by (auto simp: illegal_handler exec_inv_def op_simps on_mon_def)
qed

theorem assembled_witness:
  "(\<exists>t. exec_inst (encode (Op_imm Add 5 1 7)) (set_gpr 1 4 (code_machine 0)) = (Inr (), t)
     \<and> get_gpr 5 t = 11 \<and> encode (Op_imm Add 5 1 7) = 0x00708293)
   \<and> exec_inst (b_type 8 2 1 1 0x63) = exec_inst (b_type 8 2 1 0 0x63)"
proof
  let ?s = "set_gpr 1 4 (code_machine 0)"
  have s: "flushed ?s" "serial_wf (m_uart ?s)"
    by (simp add: code_machine_traced) (use code_machine_wf [of 0] in \<open>simp add: machine_wf_def set_gpr_def\<close>)
  have "isa_exec (Op_imm Add 5 1 7) (isa_of ?s) = Running (set_reg 5 11 (isa_of ?s))"
    by (simp add: isa_alu_def alu_fault.simps alu.simps isa_of_def get_gpr_def set_gpr_def)
  then have "io_exec (Op_imm Add 5 1 7) (io_of ?s) = Io_running ((io_of ?s)\<lparr>io_cpu := set_reg 5 11 (isa_of ?s)\<rparr>)"
    by (simp add: io_exec_def)
  moreover have word: "encode (Op_imm Add 5 1 7) = 0x00708293" by (simp add: imm_code_def i_type_def)
  moreover have "encodable (Op_imm Add 5 1 7)" by simp
  ultimately have leaves: "io_leaves (nemu_state (m_mon ?s)) ?s (Io_running ((io_of ?s)\<lparr>io_cpu := set_reg 5 11 (isa_of ?s)\<rparr>))
      (exec_inst (encode (Op_imm Add 5 1 7)) ?s)"
    using assembled [OF s, of "Op_imm Add 5 1 7" 0] by metis
  obtain x t where x: "exec_inst (encode (Op_imm Add 5 1 7)) ?s = (x, t)" by (metis surj_pair)
  then have "x = Inr ()" "io_of t = (io_of ?s)\<lparr>io_cpu := set_reg 5 11 (isa_of ?s)\<rparr>"
    using leaves by (simp_all add: seen_as_def)
  moreover from this(2) have "isa_of t = set_reg 5 11 (isa_of ?s)"
    by (metis io_of_sel(1) io.select_convs(1) io.surjective io.update_convs(1))
  then have "get_gpr 5 t = 11" using isa_view by (simp add: set_reg_def)
  ultimately show "\<exists>t. exec_inst (encode (Op_imm Add 5 1 7)) ?s = (Inr (), t)
     \<and> get_gpr 5 t = 11 \<and> encode (Op_imm Add 5 1 7) = 0x00708293"
    using x word by blast
  have "decode (b_type 8 2 1 1 0x63) = Branch CEQ 1 2 16"
    using BRANCH_SIMM_encoded [of 8] by (simp add: decode_def major_def decode_cond_def)
  moreover have "encode (Branch CEQ 1 2 16) = b_type 8 2 1 0 0x63" by (simp add: branch_imm_def)
  ultimately show "exec_inst (b_type 8 2 1 1 0x63) = exec_inst (b_type 8 2 1 0 0x63)"
    using assembled [OF s, of Fence "b_type 8 2 1 1 0x63"] by simp
qed

end
