(* ===== verification/Mii.thy ===== *)
theory Mii
  imports Emac
begin

text \<open>
The rest of the constants of \<^verbatim>\<open>src/dev/mac.c\<close>: the masks of the Ethernet controller and the
  registers of its PHY that no operation of the file uses. They describe the layout that the
  guest's driver relies on; the lemmas check it against the bit-fields and the power-on values
  of theory \<open>Emac\<close>.
\<close>

unbundle bit_operations_syntax

section \<open>Constants\<close>

text \<open>The controller.\<close>

definition ETH_FCS_LEN :: nat where "ETH_FCS_LEN = 4"
definition XEL_TSR_XMIT_IE_MASK :: u32 where "XEL_TSR_XMIT_IE_MASK = 0x00000008"
definition XEL_TPLR_LENGTH_MASK_HI :: u32 where "XEL_TPLR_LENGTH_MASK_HI = 0x0000FF00"
definition XEL_TPLR_LENGTH_MASK_LO :: u32 where "XEL_TPLR_LENGTH_MASK_LO = 0x000000FF"
definition XEL_RSR_RECV_DONE_MASK :: u32 where "XEL_RSR_RECV_DONE_MASK = 0x00000001"
definition XEL_RSR_RECV_IE_MASK :: u32 where "XEL_RSR_RECV_IE_MASK = 0x00000008"
definition XEL_MDIOADDR_REGADR_MASK :: u32 where "XEL_MDIOADDR_REGADR_MASK = 0x0000001F"
definition XEL_MDIOADDR_PHYADR_MASK :: u32 where "XEL_MDIOADDR_PHYADR_MASK = 0x000003E0"
definition XEL_MDIOADDR_PHYADR_SHIFT :: nat where "XEL_MDIOADDR_PHYADR_SHIFT = 5"
definition XEL_MDIOADDR_OP_MASK :: u32 where "XEL_MDIOADDR_OP_MASK = 0x00000400"
definition XEL_MDIOWR_WRDATA_MASK :: u32 where "XEL_MDIOWR_WRDATA_MASK = 0x0000FFFF"
definition XEL_MDIORD_RDDATA_MASK :: u32 where "XEL_MDIORD_RDDATA_MASK = 0x0000FFFF"
definition XEL_MDIOCTRL_MDIOEN_MASK :: u32 where "XEL_MDIOCTRL_MDIOEN_MASK = 0x00000008"
definition GBL_INT :: u32 where "GBL_INT = 0x7f8"

text \<open>Register numbers of the PHY.\<close>

definition MII_EXPANSION :: nat where "MII_EXPANSION = 0x06"
definition MII_CTRL1000 :: nat where "MII_CTRL1000 = 0x09"
definition MII_STAT1000 :: nat where "MII_STAT1000 = 0x0a"
definition MII_ESTATUS :: nat where "MII_ESTATUS = 0x0f"
definition MII_DCOUNTER :: nat where "MII_DCOUNTER = 0x12"
definition MII_FCSCOUNTER :: nat where "MII_FCSCOUNTER = 0x13"
definition MII_NWAYTEST :: nat where "MII_NWAYTEST = 0x14"
definition MII_RERRCOUNTER :: nat where "MII_RERRCOUNTER = 0x15"
definition MII_SREVISION :: nat where "MII_SREVISION = 0x16"
definition MII_RESV1 :: nat where "MII_RESV1 = 0x17"
definition MII_LBRERROR :: nat where "MII_LBRERROR = 0x18"
definition MII_PHYADDR :: nat where "MII_PHYADDR = 0x19"
definition MII_RESV2 :: nat where "MII_RESV2 = 0x1a"
definition MII_TPISTATUS :: nat where "MII_TPISTATUS = 0x1b"
definition MII_NCONFIG :: nat where "MII_NCONFIG = 0x1c"

text \<open>Basic mode control and status.\<close>

definition BMCR_RESV :: u16 where "BMCR_RESV = 0x003f"
definition BMCR_SPEED1000 :: u16 where "BMCR_SPEED1000 = 0x0040"
definition BMCR_CTST :: u16 where "BMCR_CTST = 0x0080"
definition BMCR_ANRESTART :: u16 where "BMCR_ANRESTART = 0x0200"
definition BMCR_ISOLATE :: u16 where "BMCR_ISOLATE = 0x0400"
definition BMCR_PDOWN :: u16 where "BMCR_PDOWN = 0x0800"
definition BMCR_LOOPBACK :: u16 where "BMCR_LOOPBACK = 0x4000"
definition BMSR_JCD :: u16 where "BMSR_JCD = 0x0002"
definition BMSR_RFAULT :: u16 where "BMSR_RFAULT = 0x0010"
definition BMSR_RESV :: u16 where "BMSR_RESV = 0x00c0"
definition BMSR_ESTATEN :: u16 where "BMSR_ESTATEN = 0x0100"
definition BMSR_100HALF2 :: u16 where "BMSR_100HALF2 = 0x0200"
definition BMSR_100FULL2 :: u16 where "BMSR_100FULL2 = 0x0400"
definition BMSR_100BASE4 :: u16 where "BMSR_100BASE4 = 0x8000"

text \<open>Advertisement.\<close>

definition ADVERTISE_SLCT :: u16 where "ADVERTISE_SLCT = 0x001f"
definition ADVERTISE_1000XFULL :: u16 where "ADVERTISE_1000XFULL = 0x0020"
definition ADVERTISE_1000XHALF :: u16 where "ADVERTISE_1000XHALF = 0x0040"
definition ADVERTISE_1000XPAUSE :: u16 where "ADVERTISE_1000XPAUSE = 0x0080"
definition ADVERTISE_1000XPSE_ASYM :: u16 where "ADVERTISE_1000XPSE_ASYM = 0x0100"
definition ADVERTISE_100BASE4 :: u16 where "ADVERTISE_100BASE4 = 0x0200"
definition ADVERTISE_PAUSE_CAP :: u16 where "ADVERTISE_PAUSE_CAP = 0x0400"
definition ADVERTISE_PAUSE_ASYM :: u16 where "ADVERTISE_PAUSE_ASYM = 0x0800"
definition ADVERTISE_RESV :: u16 where "ADVERTISE_RESV = 0x1000"
definition ADVERTISE_RFAULT :: u16 where "ADVERTISE_RFAULT = 0x2000"
definition ADVERTISE_LPACK :: u16 where "ADVERTISE_LPACK = 0x4000"
definition ADVERTISE_NPAGE :: u16 where "ADVERTISE_NPAGE = 0x8000"
definition ADVERTISE_FULL :: u16 where
  "ADVERTISE_FULL = ADVERTISE_100FULL OR ADVERTISE_10FULL OR ADVERTISE_CSMA"
definition ADVERTISE_ALL :: u16 where
  "ADVERTISE_ALL = ADVERTISE_10HALF OR ADVERTISE_10FULL OR ADVERTISE_100HALF OR ADVERTISE_100FULL"

text \<open>Link partner abilities.\<close>

definition LPA_SLCT :: u16 where "LPA_SLCT = 0x001f"
definition LPA_1000XFULL :: u16 where "LPA_1000XFULL = 0x0020"
definition LPA_1000XHALF :: u16 where "LPA_1000XHALF = 0x0040"
definition LPA_1000XPAUSE :: u16 where "LPA_1000XPAUSE = 0x0080"
definition LPA_100FULL :: u16 where "LPA_100FULL = 0x0100"
definition LPA_100BASE4 :: u16 where "LPA_100BASE4 = 0x0200"
definition LPA_RESV :: u16 where "LPA_RESV = 0x1000"
definition LPA_RFAULT :: u16 where "LPA_RFAULT = 0x2000"
definition LPA_NPAGE :: u16 where "LPA_NPAGE = 0x8000"
definition LPA_DUPLEX :: u16 where "LPA_DUPLEX = LPA_10FULL OR LPA_100FULL"
definition LPA_100 :: u16 where "LPA_100 = LPA_100FULL OR LPA_100HALF OR LPA_100BASE4"

text \<open>Expansion, extended status, N-way test, gigabit, flow control.\<close>

definition EXPANSION_NWAY :: u16 where "EXPANSION_NWAY = 0x0001"
definition EXPANSION_LCWP :: u16 where "EXPANSION_LCWP = 0x0002"
definition EXPANSION_ENABLENPAGE :: u16 where "EXPANSION_ENABLENPAGE = 0x0004"
definition EXPANSION_NPCAPABLE :: u16 where "EXPANSION_NPCAPABLE = 0x0008"
definition EXPANSION_MFAULTS :: u16 where "EXPANSION_MFAULTS = 0x0010"
definition EXPANSION_RESV :: u16 where "EXPANSION_RESV = 0xffe0"
definition ESTATUS_1000_XFULL :: u16 where "ESTATUS_1000_XFULL = 0x8000"
definition ESTATUS_1000_XHALF :: u16 where "ESTATUS_1000_XHALF = 0x4000"
definition ESTATUS_1000_TFULL :: u16 where "ESTATUS_1000_TFULL = 0x2000"
definition ESTATUS_1000_THALF :: u16 where "ESTATUS_1000_THALF = 0x1000"
definition NWAYTEST_RESV1 :: u16 where "NWAYTEST_RESV1 = 0x00ff"
definition NWAYTEST_LOOPBACK :: u16 where "NWAYTEST_LOOPBACK = 0x0100"
definition NWAYTEST_RESV2 :: u16 where "NWAYTEST_RESV2 = 0xfe00"
definition ADVERTISE_1000FULL :: u16 where "ADVERTISE_1000FULL = 0x0200"
definition ADVERTISE_1000HALF :: u16 where "ADVERTISE_1000HALF = 0x0100"
definition LPA_1000LOCALRXOK :: u16 where "LPA_1000LOCALRXOK = 0x2000"
definition LPA_1000REMRXOK :: u16 where "LPA_1000REMRXOK = 0x1000"
definition LPA_1000FULL :: u16 where "LPA_1000FULL = 0x0800"
definition LPA_1000HALF :: u16 where "LPA_1000HALF = 0x0400"
definition FLOW_CTRL_TX :: u16 where "FLOW_CTRL_TX = 0x01"
definition FLOW_CTRL_RX :: u16 where "FLOW_CTRL_RX = 0x02"

section \<open>The layout of the registers\<close>

text \<open>A list of masks that are disjoint and cover sixteen bits.\<close>

primrec partition_from :: "u16 \<Rightarrow> u16 list \<Rightarrow> bool" where
  "partition_from acc [] \<longleftrightarrow> acc = 0xFFFF"
| "partition_from acc (m # ms) \<longleftrightarrow> acc AND m = 0 \<and> partition_from (acc OR m) ms"

definition partition16 :: "u16 list \<Rightarrow> bool" where
  "partition16 ms \<longleftrightarrow> partition_from 0 ms"

lemmas phy_mask_defs = BMCR_FULLDPLX_def BMCR_ANENABLE_def BMCR_SPEED100_def BMCR_RESET_def
  BMSR_ERCAP_def BMSR_LSTATUS_def BMSR_ANEGCAPABLE_def BMSR_ANEGCOMPLETE_def BMSR_10HALF_def
  BMSR_10FULL_def BMSR_100HALF_def BMSR_100FULL_def ADVERTISE_CSMA_def ADVERTISE_10HALF_def
  ADVERTISE_10FULL_def ADVERTISE_100HALF_def ADVERTISE_100FULL_def LPA_10HALF_def LPA_10FULL_def
  LPA_100HALF_def LPA_1000XPAUSE_ASYM_def LPA_PAUSE_CAP_def LPA_PAUSE_ASYM_def LPA_LPACK_def
  BMCR_RESV_def BMCR_SPEED1000_def BMCR_CTST_def BMCR_ANRESTART_def BMCR_ISOLATE_def
  BMCR_PDOWN_def BMCR_LOOPBACK_def BMSR_JCD_def BMSR_RFAULT_def BMSR_RESV_def BMSR_ESTATEN_def
  BMSR_100HALF2_def BMSR_100FULL2_def BMSR_100BASE4_def ADVERTISE_SLCT_def ADVERTISE_1000XFULL_def
  ADVERTISE_1000XHALF_def ADVERTISE_1000XPAUSE_def ADVERTISE_1000XPSE_ASYM_def
  ADVERTISE_100BASE4_def ADVERTISE_PAUSE_CAP_def ADVERTISE_PAUSE_ASYM_def ADVERTISE_RESV_def
  ADVERTISE_RFAULT_def ADVERTISE_LPACK_def ADVERTISE_NPAGE_def ADVERTISE_FULL_def
  ADVERTISE_ALL_def LPA_SLCT_def LPA_1000XFULL_def LPA_1000XHALF_def LPA_1000XPAUSE_def
  LPA_100FULL_def LPA_100BASE4_def LPA_RESV_def LPA_RFAULT_def LPA_NPAGE_def LPA_DUPLEX_def
  LPA_100_def EXPANSION_NWAY_def EXPANSION_LCWP_def EXPANSION_ENABLENPAGE_def
  EXPANSION_NPCAPABLE_def EXPANSION_MFAULTS_def EXPANSION_RESV_def NWAYTEST_RESV1_def
  NWAYTEST_LOOPBACK_def NWAYTEST_RESV2_def ADVERTISE_1000FULL_def ADVERTISE_1000HALF_def
  LPA_1000LOCALRXOK_def LPA_1000REMRXOK_def LPA_1000FULL_def LPA_1000HALF_def

lemma masks_partition:
  "partition16 [BMCR_RESV, BMCR_SPEED1000, BMCR_CTST, BMCR_FULLDPLX, BMCR_ANRESTART, BMCR_ISOLATE,
     BMCR_PDOWN, BMCR_ANENABLE, BMCR_SPEED100, BMCR_LOOPBACK, BMCR_RESET]"
  "partition16 [BMSR_ERCAP, BMSR_JCD, BMSR_LSTATUS, BMSR_ANEGCAPABLE, BMSR_RFAULT,
     BMSR_ANEGCOMPLETE, BMSR_RESV, BMSR_ESTATEN, BMSR_100HALF2, BMSR_100FULL2, BMSR_10HALF,
     BMSR_10FULL, BMSR_100HALF, BMSR_100FULL, BMSR_100BASE4]"
  "partition16 [ADVERTISE_SLCT, ADVERTISE_10HALF, ADVERTISE_10FULL, ADVERTISE_100HALF,
     ADVERTISE_100FULL, ADVERTISE_100BASE4, ADVERTISE_PAUSE_CAP, ADVERTISE_PAUSE_ASYM,
     ADVERTISE_RESV, ADVERTISE_RFAULT, ADVERTISE_LPACK, ADVERTISE_NPAGE]"
  "partition16 [LPA_SLCT, LPA_10HALF, LPA_10FULL, LPA_100HALF, LPA_100FULL, LPA_100BASE4,
     LPA_PAUSE_CAP, LPA_PAUSE_ASYM, LPA_RESV, LPA_RFAULT, LPA_LPACK, LPA_NPAGE]"
  "partition16 [EXPANSION_NWAY, EXPANSION_LCWP, EXPANSION_ENABLENPAGE, EXPANSION_NPCAPABLE,
     EXPANSION_MFAULTS, EXPANSION_RESV]"
  "partition16 [NWAYTEST_RESV1, NWAYTEST_LOOPBACK, NWAYTEST_RESV2]"
  by (simp_all add: partition16_def phy_mask_defs)

text \<open>The bit-fields of \<^verbatim>\<open>mdio_addr_t\<close> are where the masks of the address register say.\<close>

lemma mdio_fields_masks:
  "mdio_regnum w = unat (w AND XEL_MDIOADDR_REGADR_MASK)"
  "mdio_phyaddr w = unat (drop_bit XEL_MDIOADDR_PHYADR_SHIFT (w AND XEL_MDIOADDR_PHYADR_MASK))"
  "mdio_op w = 0 \<longleftrightarrow> w AND XEL_MDIOADDR_OP_MASK = 0"
proof -
  have field: "drop_bit k (x AND push_bit k m) = drop_bit k x AND m" for k and x m :: u32
    by (rule bit_word_eqI) (auto simp: bit_simps dest: bit_imp_le_length)
  have masks: "XEL_MDIOADDR_PHYADR_MASK = push_bit 5 0x1F" "XEL_MDIOADDR_OP_MASK = push_bit 10 1"
    by (simp_all add: XEL_MDIOADDR_PHYADR_MASK_def XEL_MDIOADDR_OP_MASK_def)
  show "mdio_regnum w = unat (w AND XEL_MDIOADDR_REGADR_MASK)"
    by (simp add: mdio_regnum_def XEL_MDIOADDR_REGADR_MASK_def)
  show "mdio_phyaddr w = unat (drop_bit XEL_MDIOADDR_PHYADR_SHIFT (w AND XEL_MDIOADDR_PHYADR_MASK))"
    unfolding mdio_phyaddr_def XEL_MDIOADDR_PHYADR_SHIFT_def masks field by simp
  have masked: "x AND push_bit k m = push_bit k (drop_bit k x AND m)" for k and x m :: u32
    by (rule bit_word_eqI) (auto simp: bit_simps)
  have w: "w AND XEL_MDIOADDR_OP_MASK = push_bit 10 (mdio_op w)"
    unfolding masks masked mdio_op_def by (rule refl)
  have "mdio_op w = 0 \<or> mdio_op w = 1"
    unfolding mdio_op_def and_one_eq by (metis mod_2_eq_odd of_bool_def)
  then show "mdio_op w = 0 \<longleftrightarrow> w AND XEL_MDIOADDR_OP_MASK = 0"
    unfolding w by auto
qed

section \<open>What the PHY announces\<close>

text \<open>
  After the first transaction the PHY is found by the detection mask; it has no link and no
  negotiation result until a reset is written; it advertises every 10 and 100 megabit mode and
  announces nothing of the gigabit kind. The bit that the code calls \<open>LPA_1000XPAUSE_ASYM\<close> in the
  partner's abilities is the one of full duplex at 100 megabits, so that this is the best mode
  both sides announce, as the control register says.
\<close>

lemma phy_powered_on:
  assumes "\<not> mii_inited s"
  shows "phy_regs (mii_init s) ACTIVE_PHY PHY_DETECT_REG AND PHY_DETECT_MASK = PHY_DETECT_MASK"
    and "phy_regs (mii_init s) ACTIVE_PHY MII_BMSR AND (BMSR_LSTATUS OR BMSR_ANEGCOMPLETE) = 0"
    and "phy_regs (mii_init s) ACTIVE_PHY MII_ADVERTISE = ADVERTISE_ALL OR ADVERTISE_CSMA"
    and "phy_regs (mii_init s) ACTIVE_PHY MII_BMSR AND (BMSR_ESTATEN OR BMSR_100HALF2 OR BMSR_100FULL2) = 0"
    and "phy_regs (mii_init s) ACTIVE_PHY MII_ADVERTISE AND phy_regs (mii_init s) ACTIVE_PHY MII_LPA
      AND LPA_100 = LPA_100FULL OR LPA_100HALF"
  using assms by (simp_all add: mii_init_def Let_def set_phy_reg_def mii_defs phy_mask_defs)

end
