(* ===== verification/Dormant.thy ===== *)
theory Dormant
  imports Machine
begin

text \<open>
  Code of the repository that the emulator is not built with: the controller of an SPI flash in
  \<^verbatim>\<open>src/dev/spi.c\<close>, disabled by the preprocessor, with the macros of \<^verbatim>\<open>include/common.h\<close> that only it
  uses, and the bit-fields of \<^verbatim>\<open>include/cpu/x86_64.h\<close>, which no file includes. The read function
  of \<^verbatim>\<open>spi.c\<close> is left out: it names an array and a macro that are not declared there.
\<close>

unbundle bit_operations_syntax

section \<open>Bits\<close>

definition BIT :: "nat \<Rightarrow> u32" where
  "BIT nr = push_bit nr 1"

text \<open>\<^verbatim>\<open>BITS_PER_LONG\<close> is defined nowhere in the repository; it is the argument \<open>bpl\<close>.\<close>

definition GENMASK :: "nat \<Rightarrow> nat \<Rightarrow> nat \<Rightarrow> u64" where
  "GENMASK bpl h l = push_bit l (- 1) AND drop_bit (bpl - 1 - h) (- 1)"

lemma GENMASK_bits:
  "l \<le> h \<Longrightarrow> h < 64 \<Longrightarrow> bit (GENMASK 64 h l) k \<longleftrightarrow> l \<le> k \<and> k \<le> h"
  by (auto simp: GENMASK_def bit_simps)

section \<open>The SPI controller\<close>

text \<open>Where \<^verbatim>\<open>include/device.h\<close> places it; the region table has no such entry.\<close>

definition SPI_ADDR :: u32 where "SPI_ADDR = 0x1fe80000"
definition SPI_SIZE :: u32 where "SPI_SIZE = 0x1000"

definition SPICR_LSB_FIRST :: u32 where "SPICR_LSB_FIRST = BIT 9"
definition SPICR_MASTER_INHIBIT :: u32 where "SPICR_MASTER_INHIBIT = BIT 8"
definition SPICR_MANUAL_SS :: u32 where "SPICR_MANUAL_SS = BIT 7"
definition SPICR_RXFIFO_RESEST :: u32 where "SPICR_RXFIFO_RESEST = BIT 6"
definition SPICR_TXFIFO_RESEST :: u32 where "SPICR_TXFIFO_RESEST = BIT 5"
definition SPICR_CPHA :: u32 where "SPICR_CPHA = BIT 4"
definition SPICR_CPOL :: u32 where "SPICR_CPOL = BIT 3"
definition SPICR_MASTER_MODE :: u32 where "SPICR_MASTER_MODE = BIT 2"
definition SPICR_SPE :: u32 where "SPICR_SPE = BIT 1"
definition SPICR_LOOP :: u32 where "SPICR_LOOP = BIT 0"

definition SPISR_SLAVE_MODE_SELECT :: u32 where "SPISR_SLAVE_MODE_SELECT = BIT 5"
definition SPISR_MODF :: u32 where "SPISR_MODF = BIT 4"
definition SPISR_TX_FULL :: u32 where "SPISR_TX_FULL = BIT 3"
definition SPISR_TX_EMPTY :: u32 where "SPISR_TX_EMPTY = BIT 2"
definition SPISR_RX_FULL :: u32 where "SPISR_RX_FULL = BIT 1"
definition SPISR_RX_EMPTY :: u32 where "SPISR_RX_EMPTY = BIT 0"

definition SPIDTR_8BIT_MASK :: "nat \<Rightarrow> u64" where "SPIDTR_8BIT_MASK bpl = GENMASK bpl 7 0"
definition SPIDTR_16BIT_MASK :: "nat \<Rightarrow> u64" where "SPIDTR_16BIT_MASK bpl = GENMASK bpl 15 0"
definition SPIDTR_32BIT_MASK :: "nat \<Rightarrow> u64" where "SPIDTR_32BIT_MASK bpl = GENMASK bpl 31 0"
definition SPIDRR_8BIT_MASK :: "nat \<Rightarrow> u64" where "SPIDRR_8BIT_MASK bpl = GENMASK bpl 7 0"
definition SPIDRR_16BIT_MASK :: "nat \<Rightarrow> u64" where "SPIDRR_16BIT_MASK bpl = GENMASK bpl 15 0"
definition SPIDRR_32BIT_MASK :: "nat \<Rightarrow> u64" where "SPIDRR_32BIT_MASK bpl = GENMASK bpl 31 0"

definition SPISSR_MASK :: "nat \<Rightarrow> u32" where "SPISSR_MASK cs = push_bit cs 1"
definition SPISSR_ACT :: "nat \<Rightarrow> u32" where "SPISSR_ACT cs = NOT (SPISSR_MASK cs)"
definition SPISSR_OFF :: u64 where "SPISSR_OFF = NOT 0"
definition SPISSR_RESET_VALUE :: u32 where "SPISSR_RESET_VALUE = 0x0a"

definition XILSPI_MAX_XFER_BITS :: nat where "XILSPI_MAX_XFER_BITS = 8"
definition XILSPI_SPICR_DFLT_ON :: u32 where
  "XILSPI_SPICR_DFLT_ON = SPICR_MANUAL_SS OR SPICR_MASTER_MODE OR SPICR_SPE OR SPICR_MASTER_INHIBIT"
definition XILSPI_SPICR_DFLT_OFF :: u32 where
  "XILSPI_SPICR_DFLT_OFF = SPICR_MASTER_INHIBIT OR SPICR_MANUAL_SS"
definition CONFIG_XILINX_SPI_IDLE_VAL :: "nat \<Rightarrow> u64" where
  "CONFIG_XILINX_SPI_IDLE_VAL bpl = GENMASK bpl 7 0"
definition XILINX_SPI_QUAD_MODE :: nat where "XILINX_SPI_QUAD_MODE = 2"
definition XILINX_SPI_QUAD_EXTRA_DUMMY :: nat where "XILINX_SPI_QUAD_EXTRA_DUMMY = 3"
definition SPI_QUAD_OUT_FAST_READ :: u32 where "SPI_QUAD_OUT_FAST_READ = 0x6B"

definition SRR :: u32 where "SRR = 0x40"
definition SPICR :: u32 where "SPICR = 0x60"
definition SPISR :: u32 where "SPISR = 0x64"
definition SPIDTR :: u32 where "SPIDTR = 0x68"
definition SPIDRR :: u32 where "SPIDRR = 0x6c"
definition SPISSR :: u32 where "SPISSR = 0x70"
definition SPITFOR :: u32 where "SPITFOR = 0x74"
definition SPIRFOR :: u32 where "SPIRFOR = 0x78"

lemmas spi_offsets = SRR_def SPICR_def SPISR_def SPIDTR_def SPIDRR_def SPISSR_def SPITFOR_def SPIRFOR_def
lemmas spi_bits = SPICR_LSB_FIRST_def SPICR_MASTER_INHIBIT_def SPICR_MANUAL_SS_def SPICR_RXFIFO_RESEST_def
  SPICR_TXFIFO_RESEST_def SPICR_CPHA_def SPICR_CPOL_def SPICR_MASTER_MODE_def SPICR_SPE_def SPICR_LOOP_def
  SPISR_SLAVE_MODE_SELECT_def SPISR_MODF_def SPISR_TX_FULL_def SPISR_TX_EMPTY_def SPISR_RX_FULL_def
  SPISR_RX_EMPTY_def BIT_def

text \<open>The registers, and the place of each in the structure: its name and its number of words.\<close>

record xilinx_spi_regs =
  dgier :: u32
  ipisr :: u32
  ipier :: u32
  srr :: u32
  spicr :: u32
  spisr :: u32
  spidtr :: u32
  spidrr :: u32
  spissr :: u32
  spitfor :: u32
  spirfor :: u32

definition spi_layout :: "(string \<times> nat) list" where
  "spi_layout =
    [(''__space0__'', 7), (''dgier'', 1), (''ipisr'', 1), (''__space1__'', 1), (''ipier'', 1),
     (''__space2__'', 5), (''srr'', 1), (''__space3__'', 7), (''spicr'', 1), (''spisr'', 1),
     (''spidtr'', 1), (''spidrr'', 1), (''spissr'', 1), (''spitfor'', 1), (''spirfor'', 1)]"

fun offset_in :: "(string \<times> nat) list \<Rightarrow> string \<Rightarrow> nat option" where
  "offset_in [] f = None"
| "offset_in ((g, n) # l) f = (if f = g then Some 0 else map_option ((+) (4 * n)) (offset_in l f))"

text \<open>The register numbers are the offsets of the fields they name.\<close>

lemma spi_layout_offsets:
  "list_all (\<lambda>(f, r). offset_in spi_layout f = Some (unat r))
    [(''srr'', SRR), (''spicr'', SPICR), (''spisr'', SPISR), (''spidtr'', SPIDTR), (''spidrr'', SPIDRR),
     (''spissr'', SPISSR), (''spitfor'', SPITFOR), (''spirfor'', SPIRFOR)]"
  by (simp add: spi_layout_def spi_offsets)

record spi_state =
  flash :: int
  spi_regs :: xilinx_spi_regs

text \<open>\<open>fd\<close> is what \<^verbatim>\<open>open\<close> returns for the flash image. The descriptor zero is refused too.\<close>

definition init_spi :: "int \<Rightarrow> (spi_state, unit) op" where
  "init_spi fd =
     seq_op (mod_op (\<lambda>s. s\<lparr>flash := fd\<rparr>))
    (seq_op (check_op Assert_abort (fd > 0))
    (seq_op (mod_op (\<lambda>s. s\<lparr>spi_regs := (spi_regs s)\<lparr>spicr := 0x180\<rparr>\<rparr>))
    (mod_op (\<lambda>s. s\<lparr>spi_regs := (spi_regs s)\<lparr>spisr := 0x25\<rparr>\<rparr>))))"

text \<open>The write function, which the file calls \<^verbatim>\<open>ddr_write\<close>.\<close>

definition spi_write :: "u32 \<Rightarrow> u32 \<Rightarrow> u32 \<Rightarrow> (spi_state, unit) op" where
  "spi_write addr len data =
     mod_op (\<lambda>s. s\<lparr>spi_regs :=
       (if addr = SRR then (spi_regs s)\<lparr>srr := data\<rparr>
        else if addr = SPICR then (spi_regs s)\<lparr>spicr := data\<rparr>
        else if addr = SPIDTR then (spi_regs s)\<lparr>spidtr := data\<rparr>
        else if addr = SPISSR then (spi_regs s)\<lparr>spissr := data\<rparr>
        else spi_regs s)\<rparr>)"

text \<open>
  After the start the controller is off, with nothing to send and nothing received. No write, one
  to the software reset register included, changes what its status and data registers show.
\<close>

lemma init_spi_off:
  assumes "init_spi fd s = (Inr (), t)"
  shows "spicr (spi_regs t) = XILSPI_SPICR_DFLT_OFF" "spicr (spi_regs t) AND SPICR_SPE = 0"
    and "spisr (spi_regs t) = SPISR_SLAVE_MODE_SELECT OR SPISR_TX_EMPTY OR SPISR_RX_EMPTY" "0 < flash t"
  using assms
  by (auto simp: init_spi_def op_simps XILSPI_SPICR_DFLT_OFF_def spi_bits split: if_splits)

lemma spi_write_status:
  "spi_write a n d s = (Inr (), t) \<Longrightarrow> spisr (spi_regs t) = spisr (spi_regs s) \<and> spidrr (spi_regs t) = spidrr (spi_regs s)"
  by (auto simp: spi_write_def op_simps)

section \<open>Bit-fields of x86 instructions\<close>

text \<open>A bit-field of \<open>n\<close> bits from bit \<open>k\<close> on, as the host lays them out.\<close>

definition field8 :: "nat \<Rightarrow> nat \<Rightarrow> u8 \<Rightarrow> nat" where
  "field8 k n b = unat (take_bit n (drop_bit k b))"

definition moderm_rm :: "u8 \<Rightarrow> nat" where "moderm_rm = field8 0 3"
definition moderm_reg :: "u8 \<Rightarrow> nat" where "moderm_reg = field8 3 3"
definition moderm_mode :: "u8 \<Rightarrow> nat" where "moderm_mode = field8 6 2"
definition SIB_base :: "u8 \<Rightarrow> nat" where "SIB_base = field8 0 3"
definition SIB_scale :: "u8 \<Rightarrow> nat" where "SIB_scale = field8 3 3"
definition SIB_inex :: "u8 \<Rightarrow> nat" where "SIB_inex = field8 6 2"

lemma byte_split:
  fixes n :: nat
  assumes "n < 256"
  shows "n = n div 64 mod 4 * 64 + n div 8 mod 8 * 8 + n mod 8"
proof -
  have "n div 64 mod 4 = n div 64" using assms by simp
  moreover have "n div 8 div 8 = n div 64" by (simp flip: div_mult2_eq)
  ultimately show ?thesis using div_mult_mod_eq [of n 8] div_mult_mod_eq [of "n div 8" 8] by linarith
qed

lemma field8_split: "unat b = field8 6 2 b * 64 + field8 3 3 b * 8 + field8 0 3 b"
proof -
  have "unat b < 256" using unsigned_less [of b] by simp
  moreover have "field8 6 2 b = unat b div 64 mod 4" "field8 3 3 b = unat b div 8 mod 8" "field8 0 3 b = unat b mod 8"
    by (simp_all add: field8_def take_bit_eq_mod drop_bit_eq_div unat_div_distrib unat_mod_distrib)
  ultimately show ?thesis using byte_split [of "unat b"] by simp
qed

text \<open>Either structure accounts for every bit of its byte.\<close>

lemma moderm_split:
  "unat b = moderm_mode b * 64 + moderm_reg b * 8 + moderm_rm b"
  "unat b = SIB_inex b * 64 + SIB_scale b * 8 + SIB_base b"
  by (simp_all add: moderm_rm_def moderm_reg_def moderm_mode_def SIB_base_def SIB_scale_def SIB_inex_def
      flip: field8_split)

end
