(* ===== verification/Spec2Isabelle.thy ===== *)
theory Spec2Isabelle
  imports Elf Guest Signals Crash Soundness Canonical Mii Dormant
begin

text \<open>
  A verification of nemu-riscv32, an emulator of a small RISC-V machine written in C: the
  processor with its RV32IM instructions, the bus, DDR and block RAM, a UART, a keyboard, an
  Ethernet controller, a frame buffer, a trap device, and the monitor that loads an image and
  starts the run. File names are those below \<^verbatim>\<open>src/\<close> and \<^verbatim>\<open>include/\<close> of the repository; the
  model is of the program that its Makefile builds (\<^verbatim>\<open>DEBUG\<close> and \<^verbatim>\<open>ENABLE_ASM_TRACER\<close>
  defined).

  \<^bold>\<open>How the program works.\<close> \<^verbatim>\<open>main\<close> checks the region table, lets the monitor parse the command
  line and load an image, sets up the display and a timer, and calls \<^verbatim>\<open>cpu_exec(-1)\<close>. Its loop
  fetches a word through \<^verbatim>\<open>load_mem\<close>, traces it, and jumps through tables of labels to the
  handler of the instruction. Loads and stores go to the RAM arrays directly when they can and to
  the bus otherwise, which finds a device in \<^verbatim>\<open>mmap_table\<close> and calls its read or write
  function. A timer signal interrupts the loop: it refreshes the screen and hands one input event
  to the UART and the keyboard. Writing to the trap device ends the run.

  \<^bold>\<open>How it is modelled.\<close> A C function is an operation on a state record, \<open>'s \<Rightarrow> (fault + 'a) \<times> 's\<close>
  (theory \<open>Prelude\<close>): a normal result or a fault, and the state at that point. The faults are the
  failing assertions, \<^verbatim>\<open>exit\<close>, undefined behaviour with its cause (an access outside an array,
  a null pointer, a division the host rejects), and loops that never end. The fault of a failing \<^verbatim>\<open>CPUAssert\<close> is the moment at which its
  condition fails; the report it then prints is \<open>cpu_assert_report\<close>, and \<open>reported\<close> adds that to an
  operation (theory \<open>Run\<close>). Machine integers are words of their width. Each file's static variables are a record; \<open>machine\<close> holds all of them,
  and \<open>zoom\<close> runs a device's operation inside it. What the program prints is part of the state.

  \<^bold>\<open>The theories\<close>, in the order of their imports:
  \<^item> \<open>Prelude\<close>: operations, their weakest preconditions, preserved invariants, \<^verbatim>\<open>printf\<close> formats.
  \<^item> \<open>Ram\<close>: \<^verbatim>\<open>include/device.h\<close> and the byte handlers of \<^verbatim>\<open>src/cpu/cpu-exec.c\<close>; DDR and block
    RAM (\<^verbatim>\<open>src/dev/ddr.c\<close>, \<^verbatim>\<open>src/dev/bram.c\<close>); the locale \<open>ram_device\<close>.
  \<^item> \<open>Ring\<close>: circular arrays as bounded queues, the locales \<open>bounded_queue\<close>, \<open>ring_buffer\<close> and
    their guarded extensions. \<open>Sdl\<close>: what the program uses of SDL.
  \<^item> \<open>Serial\<close>, \<open>Keyboard\<close>, \<open>Emac\<close>, \<open>Video\<close>, \<open>Monitor_State\<close>: \<^verbatim>\<open>src/dev/serial.c\<close>,
    \<^verbatim>\<open>keyboard.c\<close>, \<^verbatim>\<open>mac.c\<close>, \<^verbatim>\<open>video.c\<close>, and \<^verbatim>\<open>gpio.c\<close> with \<^verbatim>\<open>include/monitor.h\<close>. \<open>Mii\<close>: the
    registers of the PHY that \<^verbatim>\<open>mac.c\<close> names and does not use.
  \<^item> \<open>Iq\<close>, \<open>Tracer\<close>: \<^verbatim>\<open>src/cpu/iq.c\<close>, and the assembly tracer of \<^verbatim>\<open>src/cpu/cpu-exec.c\<close>.
  \<^item> \<open>Machine\<close>: all state together. \<open>Bus\<close>: \<^verbatim>\<open>src/memory.c\<close> and \<^verbatim>\<open>include/memory.h\<close>, with the
    locale \<open>mmio_device\<close> that every device on the bus satisfies. \<open>Load_Store\<close>: the processor's
    accesses.
  \<^item> \<open>Inst\<close>: the bit-fields of \<^verbatim>\<open>include/cpu/reg.h\<close> and encoders for the instruction formats.
    \<open>Exec\<close>: the handlers and tables of \<^verbatim>\<open>src/cpu/exec-handlers.h\<close>. \<open>Run\<close>: the loop, the
    register dump, the report of a failing \<^verbatim>\<open>CPUAssert\<close> (\<^verbatim>\<open>include/debug.h\<close>).
  \<^item> \<open>Isa\<close>: the specification of an instruction: decoding into a datatype and a step on
    registers, program counter and one flat memory. It is a reference for what this emulator
    executes, so it records its deviations from the RISC-V manual, each in one place.
  \<^item> \<open>Refine\<close>: the handlers implement \<open>Isa\<close>, instruction by instruction, then for a step of the
    loop, then for \<^verbatim>\<open>cpu_exec\<close>. \<open>Invariants\<close>: what an arbitrary step keeps, device accesses
    included, and in which faults it can end, as locales (\<open>handler_contract\<close>,
    \<open>relative_contract\<close>, \<open>jump_contract\<close>, \<open>step_contract\<close>) interpreted once per invariant.
    \<open>Assembler\<close>: an encoder inverse to the decoder. \<open>Canonical\<close>: every word is executed as the
    encoding of what it decodes to. \<open>Instructions\<close>: the classes of instructions,
    from their encodings. \<open>Mmio\<close>: loads and stores at any address, devices included.
  \<^item> \<open>System\<close>, \<open>Runs\<close>: \<^verbatim>\<open>src/device.c\<close>; instructions, ticks and interrupts interleaved as the
    step relation \<open>system_step\<close>; what holds in every reachable state. \<open>Events\<close>: a keystroke from
    the tick to the guest's load, and the rate of screen refreshes. \<open>Interleave\<close>: runs with signals
    against runs without. \<open>Soundness\<close>: what a run of any program can end in.
  \<^item> \<open>Display\<close>, \<open>Driver\<close>, \<open>Crash\<close>: components together, from the guest's instructions on: a pixel
    to the window, the MDIO sequence of a network driver, the report after a bad load.
  \<^item> \<open>Io_Spec\<close>: the specification with devices: \<open>Isa\<close> together with the UART as two lists of
    characters, the frame buffer as memory, the trap and the Ethernet controller. \<open>Io\<close>: the
    emulator implements it. \<open>Guest\<close>: two programs for it, proved to terminate with the right output
    (locale \<open>character_loop\<close>), and what follows for the emulator. \<open>Signals\<close>: timer ticks and
    interrupts between the instructions of such programs.
  \<^item> \<open>Dormant\<close>: \<^verbatim>\<open>src/dev/spi.c\<close> and \<^verbatim>\<open>include/cpu/x86_64.h\<close>, which no build contains.
  \<^item> \<open>Pointer\<close>: the pointer class of \<^verbatim>\<open>include/nemu.h\<close>.
  \<^item> \<open>Files\<close>, \<open>Boot\<close>, \<open>Startup\<close>, \<open>Elf\<close>: \<^verbatim>\<open>src/monitor/monitor.c\<close>, \<^verbatim>\<open>init_sdl\<close> and \<^verbatim>\<open>main\<close>.
\<close>

text \<open>
  \<^bold>\<open>What the theorems show.\<close>
  \<^item> Correctness of execution: one iteration of the loop and a whole call of \<^verbatim>\<open>cpu_exec\<close>
    implement \<open>Isa\<close>, faults included, for programs that stay within RAM and once the trace buffer is
    in use (\<open>Refine\<close>); every class of instructions computes what is stated for its encoding
    (\<open>Instructions\<close>); every instruction has an encoding that the handlers execute, and every word is
    executed as such an encoding or refused as invalid (\<open>Canonical\<close>); calls compose, the
    program counter stays aligned (\<open>Runs\<close>).
  \<^item> Programs that use devices: \<^verbatim>\<open>cpu_exec\<close> also implements the specification with devices (\<open>Io\<close>),
    so that a guest program can be verified without the emulator and runs on it as proved: one
    prints any string in memory, another prints exactly what was typed on the keyboard (\<open>Guest\<close>).
  \<^item> Memory: the fast path agrees with the bus, loads return what stores wrote, stores change
    nothing else, aligned accesses stay inside the arrays (\<open>Load_Store\<close>); address decoding is
    exact, segments alias, pointers handed out stay in RAM (\<open>Bus\<close>).
  \<^item> Devices: the UART's queue is first-in first-out and drains completely, scan codes come in
    matching pairs, a keystroke reaches the guest, MDIO registers read back, the screen is
    refreshed pixel by pixel, every fourth tick, the trap ends the run; neither instructions nor
    ticks lose pending input (\<open>Runs\<close>).
  \<^item> Components together: a pixel that the guest stores is in the window after four ticks; a guest
    driver's three instructions read a register of the PHY; a failing load leaves a report
    with the assertion and its message, whose history ends with the load and whose registers are
    those before it.
  \<^item> The system: the invariants hold whatever the guest program and the signals do, and at every
    fault; a program that stays within RAM computes the same with and without signals, and one
    that uses devices sees of them only what is typed (\<open>Signals\<close>). A run with its reports can
    end early in an abort, the exit of the trap, the host's trap on a guest division, or one access
    outside an array, the copy of a MAC address with a length above six; it follows no null
    pointer once the trace buffer is in use. It fails to end in exactly one case, a report that
    recurses because the word at the program counter cannot be read (\<open>Soundness\<close>).
  \<^item> Start-up: an image is what is fetched, and an ELF file leaves in DDR what its headers ask for.
  \<^item> Defects: where the code does not do what it means to, the theorem says what it does; the
    most drastic is that the tracer's pointer is null on the first instruction, so that the run
    theorems start from a state in which the trace buffer is in use (\<open>traced\<close>).

  \<^bold>\<open>Loops and bounds.\<close> The loop of \<^verbatim>\<open>cpu_exec\<close> counts down a natural number and needs no fuel.
  Loops that may not end are partial functions: \<open>iq_walk\<close>, \<open>read_loop\<close>, \<open>get_file_size\<close> and
  \<open>cpu_assert_report\<close>; theorems state when they end and when they do not. The trace buffer has
  512 bytes, and no line needs more than about a hundred. The programs of \<open>Guest\<close> need five
  instructions for each character and three to end, and are run with any count from there on.

  \<^bold>\<open>Parameters.\<close> The numbering of keys (\<open>sdl_env\<close>), the host's files and clock (\<open>host_files\<close>), the results
  of \<^verbatim>\<open>getopt_long\<close>, the word size of \<^verbatim>\<open>GENMASK\<close>, and those of the SDL and POSIX calls of \<^verbatim>\<open>init_sdl\<close> (\<open>sdl_calls\<close>) are
  arguments of the definitions that use them. Signals arrive between two instructions.

  \<^bold>\<open>Not modelled.\<close> The read function of \<^verbatim>\<open>src/dev/spi.c\<close> (the file is disabled by \<^verbatim>\<open>#if 0\<close>, and the
  function names an array and a macro that are not declared there), the token-pasting macros of
  \<^verbatim>\<open>include/macro.h\<close>, the texts that \<^verbatim>\<open>Assert\<close> and the library's \<^verbatim>\<open>assert\<close> print (those of
  \<^verbatim>\<open>CPUAssert\<close> are an argument of its report, spelled out for loads),
  the window that SDL opens (the surface of the screen is taken to exist), failure of memory
  allocation, and signals in the middle of an instruction.
\<close>

end
